(* ===== verification/Prelude.thy ===== *)
theory Prelude
  imports Main "HOL-Library.AList" "HOL-Library.Sublist" "HOL-Library.Word"
begin

text \<open>
  What every component of the development shares: the two-valued result type of
  the Rust code (a sum, with \<^const>\<open>Inl\<close> the error) and its combinators, the
  operations of \<^verbatim>\<open>str\<close> the sources call (a string is the list of its UTF-8
  bytes, so \<^verbatim>\<open>len()\<close> is \<^const>\<open>length\<close>), hash maps as association lists
  with distinct keys, relational tables with unique columns, and the generic
  facts on them.
\<close>

named_theorems result_simps \<open>unfolding of the result combinators\<close>
named_theorems str_simps \<open>characterisations of the string operations\<close>
named_theorems tbl_simps \<open>table lookup, update and deletion\<close>


section \<open>Results\<close>

text \<open>The \<^verbatim>\<open>?\<close> operator, \<^verbatim>\<open>ok_or_else\<close> and \<^verbatim>\<open>map_err\<close> of the source.\<close>

definition rbind :: "'e + 'a \<Rightarrow> ('a \<Rightarrow> 'e + 'b) \<Rightarrow> 'e + 'b" where
  "rbind r f = (case r of Inl e \<Rightarrow> Inl e | Inr a \<Rightarrow> f a)"

definition ok_or :: "'e \<Rightarrow> 'a option \<Rightarrow> 'e + 'a" where
  "ok_or e x = (case x of None \<Rightarrow> Inl e | Some a \<Rightarrow> Inr a)"

definition map_err :: "('e \<Rightarrow> 'f) \<Rightarrow> 'e + 'a \<Rightarrow> 'f + 'a" where
  "map_err f r = (case r of Inl e \<Rightarrow> Inl (f e) | Inr a \<Rightarrow> Inr a)"

definition guard :: "'e \<Rightarrow> bool \<Rightarrow> 'e + unit" where
  "guard e b = (if b then Inr () else Inl e)"

definition is_ok :: "'e + 'a \<Rightarrow> bool" where
  "is_ok r = (case r of Inl _ \<Rightarrow> False | Inr _ \<Rightarrow> True)"

lemma rbind_simps [simp]:
  "rbind (Inl e) f = Inl e" "rbind (Inr a) f = f a"
  by (simp_all add: rbind_def)

lemma ok_or_simps [simp]:
  "ok_or e None = Inl e" "ok_or e (Some a) = Inr a"
  by (simp_all add: ok_or_def)

lemma map_err_simps [simp]:
  "map_err f (Inl e) = Inl (f e)" "map_err f (Inr a) = Inr a"
  by (simp_all add: map_err_def)

lemma guard_simps [simp]:
  "guard e True = Inr ()" "guard e False = Inl e"
  by (simp_all add: guard_def)

lemma is_ok_simps [simp]:
  "is_ok (Inl e) = False" "is_ok (Inr a) = True"
  by (simp_all add: is_ok_def)

lemma rbind_eq_Inr [result_simps]:
  "rbind r f = Inr b \<longleftrightarrow> (\<exists>a. r = Inr a \<and> f a = Inr b)"
  by (cases r) auto

lemma rbind_eq_Inl [result_simps]:
  "rbind r f = Inl e \<longleftrightarrow> r = Inl e \<or> (\<exists>a. r = Inr a \<and> f a = Inl e)"
  by (cases r) auto

lemma ok_or_eq [result_simps]:
  "ok_or e x = Inr a \<longleftrightarrow> x = Some a"
  "ok_or e x = Inl e' \<longleftrightarrow> x = None \<and> e' = e"
  by (cases x; auto)+

lemma map_err_eq [result_simps]:
  "map_err f r = Inr a \<longleftrightarrow> r = Inr a"
  "map_err f r = Inl e' \<longleftrightarrow> (\<exists>e. r = Inl e \<and> e' = f e)"
  by (cases r; auto)+

lemma guard_eq [result_simps]:
  "guard e b = Inr u \<longleftrightarrow> b"
  "guard e b = Inl e' \<longleftrightarrow> \<not> b \<and> e' = e"
  by (auto simp: guard_def)

lemma is_ok_iff [result_simps]: "is_ok r \<longleftrightarrow> (\<exists>a. r = Inr a)"
  by (cases r) auto


section \<open>Strings\<close>

text \<open>
  \<^verbatim>\<open>str::split_once\<close>, \<^verbatim>\<open>strip_suffix\<close>, \<^verbatim>\<open>starts_with\<close>,
  \<^verbatim>\<open>contains\<close>, \<^verbatim>\<open>ends_with\<close> on ASCII separators, where working on
  the bytes and on the characters of a UTF-8 string agree.
\<close>

fun split_once :: "char \<Rightarrow> string \<Rightarrow> (string \<times> string) option" where
  "split_once c [] = None"
| "split_once c (x # xs) =
     (if x = c then Some ([], xs)
      else (case split_once c xs of None \<Rightarrow> None | Some (a, b) \<Rightarrow> Some (x # a, b)))"

definition contains_char :: "string \<Rightarrow> char \<Rightarrow> bool" where
  "contains_char s c = List.member s c"

definition strip_suffix_char :: "char \<Rightarrow> string \<Rightarrow> string option" where
  "strip_suffix_char c s = (if s \<noteq> [] \<and> last s = c then Some (butlast s) else None)"

definition starts_with :: "string \<Rightarrow> string \<Rightarrow> bool" where
  "starts_with s p \<longleftrightarrow> take (length p) s = p"

text \<open>
  \<^verbatim>\<open>str::trim\<close> removes the characters of the Unicode property White\_Space at
  both ends; \<open>ws_len\<close> is the number of bytes of such a character at the
  start of a UTF-8 string, \<open>ws_len_rev\<close> the same for its reversal.
\<close>

definition byte_of :: "char \<Rightarrow> nat" where
  "byte_of c = of_char c"

definition ws3 :: "nat \<Rightarrow> nat \<Rightarrow> nat \<Rightarrow> bool" where
  "ws3 a b c \<longleftrightarrow> (a = 225 \<and> b = 154 \<and> c = 128)
     \<or> (a = 226 \<and> b = 128 \<and> (128 \<le> c \<and> c \<le> 138 \<or> c = 168 \<or> c = 169 \<or> c = 175))
     \<or> (a = 226 \<and> b = 129 \<and> c = 159)
     \<or> (a = 227 \<and> b = 128 \<and> c = 128)"

definition ws1 :: "nat \<Rightarrow> bool" where
  "ws1 a \<longleftrightarrow> 9 \<le> a \<and> a \<le> 13 \<or> a = 32"

definition ws2 :: "nat \<Rightarrow> nat \<Rightarrow> bool" where
  "ws2 a b \<longleftrightarrow> a = 194 \<and> (b = 133 \<or> b = 160)"

fun trim_start :: "string \<Rightarrow> string" where
  "trim_start [] = []"
| "trim_start [a] = (if ws1 (byte_of a) then [] else [a])"
| "trim_start [a, b] =
     (if ws1 (byte_of a) then trim_start [b]
      else if ws2 (byte_of a) (byte_of b) then [] else [a, b])"
| "trim_start (a # b # c # s) =
     (if ws1 (byte_of a) then trim_start (b # c # s)
      else if ws2 (byte_of a) (byte_of b) then trim_start (c # s)
      else if ws3 (byte_of a) (byte_of b) (byte_of c) then trim_start s
      else a # b # c # s)"

fun trim_end_rev :: "string \<Rightarrow> string" where
  "trim_end_rev [] = []"
| "trim_end_rev [a] = (if ws1 (byte_of a) then [] else [a])"
| "trim_end_rev [b, a] =
     (if ws1 (byte_of b) then trim_end_rev [a]
      else if ws2 (byte_of a) (byte_of b) then [] else [b, a])"
| "trim_end_rev (c # b # a # s) =
     (if ws1 (byte_of c) then trim_end_rev (b # a # s)
      else if ws2 (byte_of b) (byte_of c) then trim_end_rev (a # s)
      else if ws3 (byte_of a) (byte_of b) (byte_of c) then trim_end_rev s
      else c # b # a # s)"

definition trim :: "string \<Rightarrow> string" where
  "trim s = rev (trim_end_rev (rev (trim_start s)))"

lemma split_once_None [str_simps]: "split_once c s = None \<longleftrightarrow> c \<notin> set s"
  by (induction s) (auto split: option.splits)

lemma split_once_append [simp]: "c \<notin> set a \<Longrightarrow> split_once c (a @ c # b) = Some (a, b)"
  by (induction a) auto

lemma split_once_SomeD: "split_once c s = Some (a, b) \<Longrightarrow> s = a @ c # b \<and> c \<notin> set a"
  by (induction s arbitrary: a) (auto split: option.splits if_splits)

lemma split_once_Some [str_simps]:
  "split_once c s = Some (a, b) \<longleftrightarrow> s = a @ c # b \<and> c \<notin> set a"
  using split_once_SomeD [of c s a b] by auto

lemma contains_char_iff [str_simps]: "contains_char s c \<longleftrightarrow> c \<in> set s"
  by (simp add: contains_char_def)

lemma strip_suffix_char_Some [str_simps]:
  "strip_suffix_char c s = Some p \<longleftrightarrow> s = p @ [c]"
  by (cases s rule: rev_cases) (auto simp: strip_suffix_char_def)

lemma strip_suffix_char_None [str_simps]:
  "strip_suffix_char c s = None \<longleftrightarrow> (\<forall>p. s \<noteq> p @ [c])"
  by (cases s rule: rev_cases) (auto simp: strip_suffix_char_def)

lemma strip_suffix_char_snoc [simp]: "strip_suffix_char c (p @ [c]) = Some p"
  by (simp add: strip_suffix_char_def)

lemma starts_with_prefix [str_simps]: "starts_with s p \<longleftrightarrow> prefix p s"
  by (metis append_eq_conv_conj append_take_drop_id prefix_def starts_with_def)

lemma starts_with_Nil [simp]: "starts_with s []"
  by (simp add: starts_with_def)

lemma starts_with_trans: "starts_with s p \<Longrightarrow> starts_with p q \<Longrightarrow> starts_with s q"
  by (auto simp: starts_with_prefix)


section \<open>Hash maps\<close>

text \<open>
  A Rust \<^verbatim>\<open>HashMap\<close> is an association list with distinct keys; the order of
  the list is not observable through \<open>hm_get\<close>, and a result that iterates a
  map is only ever compared as a set.
\<close>

type_synonym ('k, 'v) hash_map = "('k \<times> 'v) list"

definition hm_get :: "('k, 'v) hash_map \<Rightarrow> 'k \<Rightarrow> 'v option" where
  "hm_get m k = map_of m k"

definition hm_insert :: "'k \<Rightarrow> 'v \<Rightarrow> ('k, 'v) hash_map \<Rightarrow> ('k, 'v) hash_map" where
  "hm_insert k v m = AList.update k v m"

definition hm_remove :: "'k \<Rightarrow> ('k, 'v) hash_map \<Rightarrow> ('k, 'v) hash_map" where
  "hm_remove k m = AList.delete k m"

definition hm_values :: "('k, 'v) hash_map \<Rightarrow> 'v list" where
  "hm_values m = map snd m"

definition hm_keys :: "('k, 'v) hash_map \<Rightarrow> 'k list" where
  "hm_keys m = map fst m"

definition hm_wf :: "('k, 'v) hash_map \<Rightarrow> bool" where
  "hm_wf m \<longleftrightarrow> distinct (map fst m)"

lemma hm_get_empty [simp]: "hm_get [] k = None"
  by (simp add: hm_get_def)

lemma hm_get_insert [simp]:
  "hm_get (hm_insert k v m) k' = (if k' = k then Some v else hm_get m k')"
  by (simp add: hm_get_def hm_insert_def update_conv')

lemma hm_get_remove [simp]:
  "hm_get (hm_remove k m) k' = (if k' = k then None else hm_get m k')"
  by (simp add: hm_get_def hm_remove_def delete_conv')

lemma hm_wf_empty [simp]: "hm_wf []"
  by (simp add: hm_wf_def)

lemma hm_wf_insert [simp, intro]: "hm_wf m \<Longrightarrow> hm_wf (hm_insert k v m)"
  by (simp add: hm_wf_def hm_insert_def distinct_update)

lemma hm_wf_remove [simp, intro]: "hm_wf m \<Longrightarrow> hm_wf (hm_remove k m)"
  by (simp add: hm_wf_def hm_remove_def distinct_delete)

lemma hm_get_iff_mem: "hm_wf m \<Longrightarrow> hm_get m k = Some v \<longleftrightarrow> (k, v) \<in> set m"
  by (simp add: hm_get_def hm_wf_def)

lemma hm_values_iff: "hm_wf m \<Longrightarrow> v \<in> set (hm_values m) \<longleftrightarrow> (\<exists>k. hm_get m k = Some v)"
  by (auto simp: hm_values_def hm_get_iff_mem image_iff intro: bexI [rotated])

lemma hm_keys_iff: "k \<in> set (hm_keys m) \<longleftrightarrow> (\<exists>v. hm_get m k = Some v)"
  using dom_map_of_conv_image_fst [of m] by (auto simp: hm_keys_def hm_get_def dom_def)


section \<open>Tables\<close>

text \<open>
  A relational table is the list of its rows.  \<open>tbl_find\<close> is
  \<^verbatim>\<open>find().filter(..).one(db)\<close>; a column \<open>f\<close> with a unique constraint
  is \<open>unique_on f\<close>, where a nullable column only compares the rows that
  have a value, as SQL does.
\<close>

definition tbl_find :: "('r \<Rightarrow> bool) \<Rightarrow> 'r list \<Rightarrow> 'r option" where
  "tbl_find P rs = List.find P rs"

definition tbl_update :: "('r \<Rightarrow> bool) \<Rightarrow> ('r \<Rightarrow> 'r) \<Rightarrow> 'r list \<Rightarrow> 'r list" where
  "tbl_update P f rs = map (\<lambda>r. if P r then f r else r) rs"

definition tbl_delete :: "('r \<Rightarrow> bool) \<Rightarrow> 'r list \<Rightarrow> 'r list" where
  "tbl_delete P rs = filter (\<lambda>r. \<not> P r) rs"

definition unique_on :: "('r \<Rightarrow> 'k option) \<Rightarrow> 'r list \<Rightarrow> bool" where
  "unique_on f rs \<longleftrightarrow> distinct (List.map_filter f rs)"

lemma tbl_find_Some: "tbl_find P rs = Some r \<Longrightarrow> r \<in> set rs \<and> P r"
  by (auto simp: tbl_find_def find_Some_iff)

lemma tbl_find_None [tbl_simps]: "tbl_find P rs = None \<longleftrightarrow> (\<forall>r\<in>set rs. \<not> P r)"
  by (auto simp: tbl_find_def find_None_iff)

lemma tbl_find_append [tbl_simps]:
  "tbl_find P (xs @ ys) = (case tbl_find P xs of None \<Rightarrow> tbl_find P ys | Some x \<Rightarrow> Some x)"
  by (induction xs) (simp_all add: tbl_find_def)

lemma tbl_find_simps [simp]:
  "tbl_find P [] = None" "tbl_find P (x # xs) = (if P x then Some x else tbl_find P xs)"
  by (simp_all add: tbl_find_def)

lemma set_tbl_delete [simp]: "set (tbl_delete P rs) = {r \<in> set rs. \<not> P r}"
  by (auto simp: tbl_delete_def)

lemma set_tbl_update [simp]:
  "set (tbl_update P f rs) = (\<lambda>r. if P r then f r else r) ` set rs"
  by (auto simp: tbl_update_def)

lemma unique_on_Nil [simp]: "unique_on f []"
  by (simp add: unique_on_def List.map_filter_simps)

lemma set_map_filter: "set (List.map_filter f xs) = {y. \<exists>x\<in>set xs. f x = Some y}"
  by (induction xs) (auto simp: List.map_filter_simps split: option.splits)

lemma unique_on_Cons:
  "unique_on f (r # rs) \<longleftrightarrow>
     unique_on f rs \<and> (f r = None \<or> (\<forall>r'\<in>set rs. f r' \<noteq> f r))"
  by (cases "f r") (auto simp: unique_on_def List.map_filter_simps set_map_filter)

lemma unique_on_snoc:
  "unique_on f (rs @ [r]) \<longleftrightarrow>
     unique_on f rs \<and> (f r = None \<or> (\<forall>r'\<in>set rs. f r' \<noteq> f r))"
  by (induction rs) (auto simp: unique_on_Cons)

lemma unique_on_delete [intro]: "unique_on f rs \<Longrightarrow> unique_on f (tbl_delete P rs)"
  by (induction rs) (auto simp: tbl_delete_def unique_on_Cons)

lemma unique_on_update:
  assumes "\<And>r. r \<in> set rs \<Longrightarrow> P r \<Longrightarrow> f (g r) = f r"
  shows "unique_on f (tbl_update P g rs) = unique_on f rs"
proof -
  have "List.map_filter f (tbl_update P g rs) = List.map_filter f rs"
    using assms by (induction rs) (auto simp: tbl_update_def List.map_filter_simps split: option.splits)
  then show ?thesis by (simp add: unique_on_def)
qed

lemma unique_onD:
  "unique_on f rs \<Longrightarrow> r \<in> set rs \<Longrightarrow> r' \<in> set rs \<Longrightarrow> f r = Some k \<Longrightarrow> f r' = Some k \<Longrightarrow> r = r'"
  by (induction rs) (auto simp: unique_on_Cons)

lemma tbl_find_unique:
  assumes "unique_on f rs" "r \<in> set rs" "f r = Some k"
  shows "tbl_find (\<lambda>r. f r = Some k) rs = Some r"
proof (cases "tbl_find (\<lambda>r. f r = Some k) rs")
  case None
  with assms show ?thesis by (auto simp: tbl_find_None)
next
  case (Some r')
  then have "r' \<in> set rs" "f r' = Some k" by (auto dest: tbl_find_Some)
  then have "r' = r" by (rule unique_onD [OF assms(1) _ assms(2) _ assms(3)])
  with Some show ?thesis by (simp only:)
qed

lemma tbl_find_rev_unique:
  assumes "unique_on f rs"
  shows "tbl_find (\<lambda>r. f r = Some k) (rev rs) = tbl_find (\<lambda>r. f r = Some k) rs"
proof (cases "tbl_find (\<lambda>r. f r = Some k) rs")
  case None
  then have "tbl_find (\<lambda>r. f r = Some k) (rev rs) = None" by (simp add: tbl_find_None)
  with None show ?thesis by simp
next
  case (Some r)
  then obtain r' where r': "tbl_find (\<lambda>r. f r = Some k) (rev rs) = Some r'"
    by (cases "tbl_find (\<lambda>r. f r = Some k) (rev rs)")
       (use tbl_find_Some [OF Some] in \<open>auto simp: tbl_find_None\<close>)
  from tbl_find_Some [OF this] tbl_find_Some [OF Some] have "r' = r"
    using unique_onD [OF assms] by auto
  with r' Some show ?thesis by (simp only:)
qed



section \<open>Keyed stores\<close>

text \<open>
  The contract of a store addressed by keys: hash maps and tables with a unique
  key both meet it.  A sequence of writes and deletions acts on the lookups as it
  does on a partial function.
\<close>

datatype ('k, 'v) store_op = Put 'k 'v | Del 'k

primrec map_op :: "('k, 'v) store_op \<Rightarrow> ('k \<rightharpoonup> 'v) \<Rightarrow> ('k \<rightharpoonup> 'v)" where
  "map_op (Put k v) m = m(k \<mapsto> v)"
| "map_op (Del k) m = m(k := None)"

locale keyed_store =
  fixes lookup :: "'t \<Rightarrow> 'k \<Rightarrow> 'v option"
    and put :: "'k \<Rightarrow> 'v \<Rightarrow> 't \<Rightarrow> 't"
    and del :: "'k \<Rightarrow> 't \<Rightarrow> 't"
    and wf :: "'t \<Rightarrow> bool"
  assumes lookup_put: "wf t \<Longrightarrow> lookup (put k v t) k' = (if k' = k then Some v else lookup t k')"
    and lookup_del: "wf t \<Longrightarrow> lookup (del k t) k' = (if k' = k then None else lookup t k')"
    and wf_put: "wf t \<Longrightarrow> wf (put k v t)"
    and wf_del: "wf t \<Longrightarrow> wf (del k t)"
begin

definition apply_op :: "('k, 'v) store_op \<Rightarrow> 't \<Rightarrow> 't" where
  "apply_op oper t = (case oper of Put k v \<Rightarrow> put k v t | Del k \<Rightarrow> del k t)"

lemma apply_op_refines: "wf t \<Longrightarrow> lookup (apply_op oper t) = map_op oper (lookup t) \<and> wf (apply_op oper t)"
  by (cases oper) (auto simp: apply_op_def lookup_put lookup_del wf_put wf_del fun_eq_iff)

lemma apply_ops_refine:
  "wf t \<Longrightarrow> lookup (fold apply_op ops t) = fold map_op ops (lookup t) \<and> wf (fold apply_op ops t)"
proof (induction ops arbitrary: t)
  case (Cons oper ops)
  with apply_op_refines [of t oper] Cons.IH [of "apply_op oper t"] show ?case by simp
qed simp

lemma put_other: "wf t \<Longrightarrow> k' \<noteq> k \<Longrightarrow> lookup (put k v t) k' = lookup t k'"
  by (simp add: lookup_put)

lemma put_twice: "wf t \<Longrightarrow> lookup (put k v (put k u t)) = lookup (put k v t)"
  by (simp add: lookup_put wf_put fun_eq_iff)

end

interpretation hash_map_store: keyed_store hm_get hm_insert hm_remove hm_wf
  by unfold_locales simp_all

end
