(* ===== verification/Core.thy ===== *)
theory Core
  imports Prelude
begin

text \<open>
  The crate \<^verbatim>\<open>ng-core\<close> below the permission types: \<^verbatim>\<open>NodegetError\<close> with its
  codes and messages, the conversion of every error into the JSON-RPC error of
  the response, JSON values, the corrected clock, and the credentials
  \<^verbatim>\<open>TokenOrAuth\<close>.
\<close>


section \<open>Errors\<close>

datatype nodeget_error =
    ParseError string
  | InvalidInput string
  | PermissionDenied string
  | DatabaseError string
  | AgentConnectionError string
  | AgentOffline string
  | NotFound string
  | UuidNotFound string
  | ConfigNotFound string
  | SerializationError string
  | IoError string
  | Other string

text \<open>The \<^verbatim>\<open>#[error(..)]\<close> attributes: what \<^verbatim>\<open>to_string\<close> prints.\<close>

primrec nodeget_display :: "nodeget_error \<Rightarrow> string" where
  "nodeget_display (ParseError m) = ''Parse error: '' @ m"
| "nodeget_display (InvalidInput m) = ''Invalid input: '' @ m"
| "nodeget_display (PermissionDenied m) = ''Permission denied: '' @ m"
| "nodeget_display (DatabaseError m) = ''Database error: '' @ m"
| "nodeget_display (AgentConnectionError m) = ''Unable to connect agent: '' @ m"
| "nodeget_display (AgentOffline m) = m"
| "nodeget_display (NotFound m) = ''Not found in database: '' @ m"
| "nodeget_display (UuidNotFound m) = ''UUID not found: '' @ m"
| "nodeget_display (ConfigNotFound m) = ''Config not found: '' @ m"
| "nodeget_display (SerializationError m) = ''Serialization error: '' @ m"
| "nodeget_display (IoError m) = ''IO error: '' @ m"
| "nodeget_display (Other m) = ''Other error: '' @ m"

primrec error_code :: "nodeget_error \<Rightarrow> int" where
  "error_code (InvalidInput _) = 108"
| "error_code (PermissionDenied _) = 102"
| "error_code (DatabaseError _) = 103"
| "error_code (AgentConnectionError _) = 104"
| "error_code (NotFound _) = 105"
| "error_code (UuidNotFound _) = 106"
| "error_code (ConfigNotFound _) = 107"
| "error_code (AgentOffline _) = 109"
| "error_code (Other _) = 999"
| "error_code (ParseError _) = 101"
| "error_code (SerializationError _) = 101"
| "error_code (IoError _) = 101"

text \<open>
  \<^verbatim>\<open>anyhow::Error\<close> holds a \<^verbatim>\<open>NodegetError\<close> or an error of another type, of
  which only the message is left.
\<close>

datatype anyhow_error = Nodeget nodeget_error | Foreign string

primrec anyhow_display :: "anyhow_error \<Rightarrow> string" where
  "anyhow_display (Nodeget e) = nodeget_display e"
| "anyhow_display (Foreign m) = m"

primrec anyhow_to_nodeget_error :: "anyhow_error \<Rightarrow> nodeget_error" where
  "anyhow_to_nodeget_error (Nodeget e) = e"
| "anyhow_to_nodeget_error (Foreign m) = Other m"

record json_error =
  error_id :: int
  error_message :: string

definition to_json_error :: "nodeget_error \<Rightarrow> json_error" where
  "to_json_error e = \<lparr> error_id = error_code e, error_message = nodeget_display e \<rparr>"

text \<open>The JSON-RPC error object: code and message (\<^verbatim>\<open>as i32\<close> keeps every code).\<close>

record rpc_error =
  rpc_code :: int
  rpc_message :: string

definition to_rpc_error :: "anyhow_error \<Rightarrow> rpc_error" where
  "to_rpc_error e =
     (let ne = anyhow_to_nodeget_error e
      in \<lparr> rpc_code = error_code ne, rpc_message = nodeget_display ne \<rparr>)"

type_synonym 'a any_result = "anyhow_error + 'a"
type_synonym 'a rpc_result = "rpc_error + 'a"

abbreviation err :: "nodeget_error \<Rightarrow> 'a any_result" where
  "err e \<equiv> Inl (Nodeget e)"


text \<open>
  \<^verbatim>\<open>sea_orm::DbErr\<close>: the code only tells a violated unique constraint from
  the rest (\<^verbatim>\<open>sql_err()\<close>) and builds one connection error itself; how an error
  prints is a parameter of the operations that print it.
\<close>

datatype db_err = UniqueConstraintViolation string | ConnInternal string | OtherDbErr string

definition is_unique_violation :: "db_err \<Rightarrow> bool" where
  "is_unique_violation e = (case e of UniqueConstraintViolation _ \<Rightarrow> True | _ \<Rightarrow> False)"


section \<open>JSON values\<close>

text \<open>
  \<^verbatim>\<open>serde_json::Value\<close>; a number is a non-negative or negative integer or the
  bit pattern of a double.
\<close>

datatype json_number = PosInt nat | NegInt int | FloatBits "64 word"

datatype json =
    JNull
  | JBool bool
  | JNumber json_number
  | JString string
  | JArray "json list"
  | JObject "(string \<times> json) list"


section \<open>The clock\<close>

text \<open>
  \<^verbatim>\<open>get_local_timestamp_ms\<close>: the system clock (an error text when it is
  before the epoch, the milliseconds otherwise) corrected by the NTP offset.
\<close>

definition i64_max :: int where "i64_max = 9223372036854775807"
definition i64_min :: int where "i64_min = - 9223372036854775808"

definition saturating_add_i64 :: "int \<Rightarrow> int \<Rightarrow> int" where
  "saturating_add_i64 a b = min i64_max (max i64_min (a + b))"

definition try_from_int_error :: string where
  "try_from_int_error = ''out of range integral type conversion attempted''"

type_synonym system_time = "string + nat"

definition get_local_timestamp_ms :: "system_time \<Rightarrow> int \<Rightarrow> nat any_result" where
  "get_local_timestamp_ms now offset =
     (case now of
        Inl e \<Rightarrow> err (Other (''System time error: '' @ e))
      | Inr ms \<Rightarrow>
          if int ms > i64_max
          then err (Other (''Timestamp conversion error: '' @ try_from_int_error))
          else
            let millis = saturating_add_i64 (int ms) offset
            in if millis < 0
               then err (Other ''Timestamp underflow after NTP offset'')
               else Inr (nat millis))"

definition get_local_timestamp_ms_i64 :: "system_time \<Rightarrow> int \<Rightarrow> int any_result" where
  "get_local_timestamp_ms_i64 now offset =
     rbind (get_local_timestamp_ms now offset) (\<lambda>ts.
       if int ts > i64_max
       then err (Other (''Timestamp conversion error: '' @ try_from_int_error))
       else Inr (int ts))"

lemma get_local_timestamp_ms_range:
  "get_local_timestamp_ms now offset = Inr ts \<Longrightarrow> int ts \<le> i64_max"
  by (auto simp: get_local_timestamp_ms_def saturating_add_i64_def i64_max_def i64_min_def Let_def
      split: sum.splits if_splits)

lemma get_local_timestamp_ms_i64_range:
  "get_local_timestamp_ms_i64 now offset = Inr ts \<Longrightarrow> 0 \<le> ts \<and> ts \<le> i64_max"
  by (auto simp: get_local_timestamp_ms_i64_def result_simps split: if_splits)


section \<open>Credentials\<close>

datatype token_or_auth = Token string string | Auth string string

definition from_full_token :: "string \<Rightarrow> string + token_or_auth" where
  "from_full_token full_token =
     (case split_once (CHR '':'') full_token of
        Some (key, secret) \<Rightarrow> Inr (Token key secret)
      | None \<Rightarrow>
          (case split_once (CHR ''|'') full_token of
             Some (username, password) \<Rightarrow> Inr (Auth username password)
           | None \<Rightarrow> Inl (''Invalid token format: must be 'key:secret' or 'username|password'' @ [CHR 0x27])))"

primrec token_key_of :: "token_or_auth \<Rightarrow> string option" where
  "token_key_of (Token key _) = Some key"
| "token_key_of (Auth _ _) = None"

primrec token_secret_of :: "token_or_auth \<Rightarrow> string option" where
  "token_secret_of (Token _ secret) = Some secret"
| "token_secret_of (Auth _ _) = None"

primrec username_of :: "token_or_auth \<Rightarrow> string option" where
  "username_of (Token _ _) = None"
| "username_of (Auth username _) = Some username"

primrec password_of :: "token_or_auth \<Rightarrow> string option" where
  "password_of (Token _ _) = None"
| "password_of (Auth _ password) = Some password"

primrec is_token :: "token_or_auth \<Rightarrow> bool" where
  "is_token (Token _ _) = True"
| "is_token (Auth _ _) = False"

primrec is_auth :: "token_or_auth \<Rightarrow> bool" where
  "is_auth (Token _ _) = False"
| "is_auth (Auth _ _) = True"

lemma from_full_token_Token:
  "from_full_token s = Inr (Token k x) \<longleftrightarrow> s = k @ CHR '':'' # x \<and> CHR '':'' \<notin> set k"
  by (auto simp: from_full_token_def split_once_Some [symmetric] split: option.splits)

lemma from_full_token_Auth:
  "from_full_token s = Inr (Auth u p) \<longleftrightarrow>
     (s = u @ CHR ''|'' # p \<and> CHR ''|'' \<notin> set u) \<and> CHR '':'' \<notin> set s"
proof (cases "split_once (CHR '':'') s")
  case None
  then show ?thesis
    by (auto simp: from_full_token_def split_once_None dest: split_once_SomeD split: option.splits)
next
  case (Some ab)
  then have "CHR '':'' \<in> set s" by (metis option.distinct(1) split_once_None)
  with Some show ?thesis by (auto simp: from_full_token_def split: prod.splits)
qed

lemma from_full_token_error:
  "\<not> is_ok (from_full_token s) \<longleftrightarrow> CHR '':'' \<notin> set s \<and> CHR ''|'' \<notin> set s"
  by (auto simp: from_full_token_def str_simps split: option.splits)

end
