(* ===== verification/Permission.thy ===== *)
theory Permission
  imports Core
begin

text \<open>
  The RBAC model of \<^verbatim>\<open>ng-core/permission\<close> (tokens, limits, scopes and
  permissions) and the matching rules of \<^verbatim>\<open>ng-token/src/get.rs\<close> that decide
  whether a list of limits covers a requested scope and permission.
\<close>


section \<open>Data\<close>

type_synonym uuid = "128 word"

datatype static_data_query_field = StaticCpu | StaticSystem | StaticGpu

datatype dynamic_data_query_field =
    DynamicCpu | DynamicRam | DynamicLoad | DynamicSystem | DynamicDisk | DynamicNetwork | DynamicGpu

datatype nodeget_perm = NodeGet_ListAllAgentUuid | NodeGet_GetRtPool | NodeGet_DeleteAgentUuid
  | NodeGet_ExecSql | NodeGet_GetDatabaseType

datatype monitoring_uuid_perm = MonitoringUuid_List | MonitoringUuid_Delete

datatype static_monitoring_perm =
    StaticMonitoring_Read static_data_query_field | StaticMonitoring_Write | StaticMonitoring_Delete

datatype dynamic_monitoring_perm =
    DynamicMonitoring_Read dynamic_data_query_field | DynamicMonitoring_Write
  | DynamicMonitoring_Delete

datatype dynamic_monitoring_summary_perm =
    DynamicMonitoringSummary_Read | DynamicMonitoringSummary_Write
  | DynamicMonitoringSummary_Delete

datatype task_perm =
    Task_Create string | Task_Read string | Task_Write string | Task_Delete string | Task_Listen

datatype crontab_perm = Crontab_Read | Crontab_Write | Crontab_Delete

datatype crontab_result_perm = CrontabResult_Read string | CrontabResult_Delete string

datatype kv_perm =
    Kv_ListAllNamespace | Kv_ListAllKeys | Kv_Read string | Kv_Write string | Kv_Delete string

datatype terminal_perm = Terminal_Connect

datatype js_worker_perm = JsWorker_ListAllJsWorker | JsWorker_Create | JsWorker_Read
  | JsWorker_Write | JsWorker_Delete | JsWorker_RunDefinedJsWorker | JsWorker_RunRawJsWorker

datatype js_result_perm = JsResult_Read string | JsResult_Delete string

datatype static_bucket_perm = StaticBucket_Read | StaticBucket_Write | StaticBucket_Delete

datatype static_bucket_file_perm =
    StaticBucketFile_Read | StaticBucketFile_Write | StaticBucketFile_Delete
  | StaticBucketFile_List

datatype db_perm = Db_List | Db_Read | Db_Create | Db_Update | Db_Delete | Db_ExecSql

datatype permission =
    PStaticMonitoring static_monitoring_perm
  | PDynamicMonitoring dynamic_monitoring_perm
  | PTask task_perm
  | PCrontab crontab_perm
  | PCrontabResult crontab_result_perm
  | PKv kv_perm
  | PTerminal terminal_perm
  | PNodeGet nodeget_perm
  | PMonitoringUuid monitoring_uuid_perm
  | PJsWorker js_worker_perm
  | PJsResult js_result_perm
  | PDynamicMonitoringSummary dynamic_monitoring_summary_perm
  | PStaticBucket static_bucket_perm
  | PStaticBucketFile static_bucket_file_perm
  | PDb db_perm

datatype scope =
    Global
  | AgentUuid uuid
  | KvNamespace string
  | JsWorker string
  | StaticBucket string
  | Db string

record limit =
  scopes :: "scope list"
  permissions :: "permission list"

record token =
  version :: int
  token_key :: string
  timestamp_from :: "int option"
  timestamp_to :: "int option"
  token_limit :: "limit list"
  username :: "string option"

record token_creation_request =
  req_username :: "string option"
  req_password :: "string option"
  req_timestamp_from :: "int option"
  req_timestamp_to :: "int option"
  req_version :: "int option"
  req_token_limit :: "limit list"


section \<open>Matching\<close>

definition wildcard_matches_pattern :: "string \<Rightarrow> string \<Rightarrow> bool" where
  "wildcard_matches_pattern val pattern =
     (case strip_suffix_char (CHR ''*'') pattern of
        None \<Rightarrow> val = pattern
      | Some pfx \<Rightarrow> starts_with val pfx)"

definition permission_matches :: "permission \<Rightarrow> permission \<Rightarrow> bool" where
  "permission_matches granted required =
     (if granted = required then True
      else
        (case (granted, required) of
           (PKv (Kv_Read pattern), PKv (Kv_Read key)) \<Rightarrow> wildcard_matches_pattern key pattern
         | (PKv (Kv_Write pattern), PKv (Kv_Write key)) \<Rightarrow> wildcard_matches_pattern key pattern
         | (PKv (Kv_Delete pattern), PKv (Kv_Delete key)) \<Rightarrow> wildcard_matches_pattern key pattern
         | (PCrontabResult (CrontabResult_Read pattern), PCrontabResult (CrontabResult_Read cron_name)) \<Rightarrow> wildcard_matches_pattern cron_name pattern
         | (PCrontabResult (CrontabResult_Delete pattern), PCrontabResult (CrontabResult_Delete cron_name)) \<Rightarrow> wildcard_matches_pattern cron_name pattern
         | (PJsResult (JsResult_Read pattern), PJsResult (JsResult_Read worker_name)) \<Rightarrow> wildcard_matches_pattern worker_name pattern
         | (PJsResult (JsResult_Delete pattern), PJsResult (JsResult_Delete worker_name)) \<Rightarrow> wildcard_matches_pattern worker_name pattern
         | (PTask (Task_Create pattern), PTask (Task_Create task_name)) \<Rightarrow> wildcard_matches_pattern task_name pattern
         | (PTask (Task_Read pattern), PTask (Task_Read task_name)) \<Rightarrow> wildcard_matches_pattern task_name pattern
         | (PTask (Task_Write pattern), PTask (Task_Write task_name)) \<Rightarrow> wildcard_matches_pattern task_name pattern
         | (PTask (Task_Delete pattern), PTask (Task_Delete task_name)) \<Rightarrow> wildcard_matches_pattern task_name pattern
         | _ \<Rightarrow> False))"

fun scope_matches :: "scope \<Rightarrow> scope \<Rightarrow> bool" where
  "scope_matches Global _ = True"
| "scope_matches (AgentUuid limit_id) (AgentUuid req_id) = (limit_id = req_id)"
| "scope_matches (KvNamespace limit_ns) (KvNamespace req_ns) = (limit_ns = req_ns)"
| "scope_matches (JsWorker limit_name) (JsWorker req_name) =
     wildcard_matches_pattern req_name limit_name"
| "scope_matches (StaticBucket limit_name) (StaticBucket req_name) =
     wildcard_matches_pattern req_name limit_name"
| "scope_matches (Db limit_name) (Db req_name) = wildcard_matches_pattern req_name limit_name"
| "scope_matches _ _ = False"

fun check_limits_cover :: "limit list \<Rightarrow> scope \<Rightarrow> permission \<Rightarrow> bool" where
  "check_limits_cover [] req_scope req_perm = False"
| "check_limits_cover (limit # limits) req_scope req_perm =
     (let scope_covered = list_ex (\<lambda>limit_scope. scope_matches limit_scope req_scope) (scopes limit)
      in if \<not> scope_covered then check_limits_cover limits req_scope req_perm
         else if list_ex (\<lambda>perm. permission_matches perm req_perm) (permissions limit) then True
         else check_limits_cover limits req_scope req_perm)"


section \<open>Facts\<close>

lemma wildcard_refl [simp]: "wildcard_matches_pattern s s"
  by (auto simp: wildcard_matches_pattern_def str_simps split: option.splits)

lemma wildcard_star [simp]: "wildcard_matches_pattern s ''*''"
  by (simp add: wildcard_matches_pattern_def strip_suffix_char_def)

lemma wildcard_snoc: "wildcard_matches_pattern val (p @ ''*'') \<longleftrightarrow> prefix p val"
  by (simp add: wildcard_matches_pattern_def starts_with_prefix)

lemma wildcard_exact:
  "last p \<noteq> CHR ''*'' \<Longrightarrow> p \<noteq> [] \<Longrightarrow> wildcard_matches_pattern val p \<longleftrightarrow> val = p"
  by (simp add: wildcard_matches_pattern_def strip_suffix_char_def)

lemma wildcard_iff:
  "wildcard_matches_pattern val pattern \<longleftrightarrow>
     val = pattern \<or> (\<exists>p. pattern = p @ ''*'' \<and> prefix p val)"
  by (auto simp: wildcard_matches_pattern_def str_simps split: option.splits)

lemma permission_matches_refl [simp]: "permission_matches p p"
  by (simp add: permission_matches_def)

lemma permission_matches_kv [simp]:
  "permission_matches (PKv (Kv_Read a)) (PKv (Kv_Read b)) = wildcard_matches_pattern b a"
  "permission_matches (PKv (Kv_Write a)) (PKv (Kv_Write b)) = wildcard_matches_pattern b a"
  "permission_matches (PKv (Kv_Delete a)) (PKv (Kv_Delete b)) = wildcard_matches_pattern b a"
  by (auto simp: permission_matches_def)

lemma scope_matches_Global_iff [simp]: "scope_matches l Global \<longleftrightarrow> l = Global"
  by (cases l) auto

lemma scope_matches_ns_iff: "scope_matches l (KvNamespace n) \<longleftrightarrow> l = Global \<or> l = KvNamespace n"
  by (cases l) auto

lemma check_limits_cover_iff:
  "check_limits_cover limits s p \<longleftrightarrow>
     (\<exists>l\<in>set limits. (\<exists>ls\<in>set (scopes l). scope_matches ls s)
        \<and> (\<exists>lp\<in>set (permissions l). permission_matches lp p))"
  by (induction limits) (auto simp: Let_def list_ex_iff)

lemma check_limits_cover_append:
  "check_limits_cover (xs @ ys) s p \<longleftrightarrow> check_limits_cover xs s p \<or> check_limits_cover ys s p"
  by (auto simp: check_limits_cover_iff)

lemma cover_mono:
  assumes "check_limits_cover limits s p"
    and "\<And>l. scope_matches l s \<Longrightarrow> scope_matches l s'"
    and "\<And>q. permission_matches q p \<Longrightarrow> permission_matches q p'"
  shows "check_limits_cover limits s' p'"
  using assms unfolding check_limits_cover_iff by meson

end
