(* ===== verification/Infra.thy ===== *)
theory Infra
  imports Permission
begin

text \<open>
  The crate \<^verbatim>\<open>ng-infra\<close>: \<^verbatim>\<open>load_from_db\<close>, the functions
  \<^verbatim>\<open>make_global_cache!\<close> generates for a \<^verbatim>\<open>DbBackedCache\<close>, and
  \<^verbatim>\<open>ScopedPermission\<close>.  The trait is the locale \<open>db_backed_cache\<close>; the
  caches that implement it interpret the locale.
\<close>


section \<open>Loading a table\<close>

text \<open>
  A query fails with the text of its \<^verbatim>\<open>DbErr\<close>, or not at all.  The handle of
  the main database is set once at start-up (\<open>ready\<close>).
\<close>

definition load_from_db :: "bool \<Rightarrow> string option \<Rightarrow> 'm list \<Rightarrow> 'm list any_result" where
  "load_from_db ready fault rows =
     (if \<not> ready then err (ConfigNotFound ''Database connection not initialized'')
      else
        (case fault of
           Some e \<Rightarrow> Inl (Foreign (''Failed to load from DB: '' @ e))
         | None \<Rightarrow> Inr rows))"

lemma load_from_db_ok [simp]:
  "load_from_db ready fault rows = Inr ms \<longleftrightarrow> ready \<and> fault = None \<and> ms = rows"
  by (auto simp: load_from_db_def split: option.splits)


section \<open>Global caches\<close>

text \<open>
  \<open>is_set\<close> is \<^verbatim>\<open>OnceLock::get().is_some()\<close>, \<open>put\<close> the successful
  \<^verbatim>\<open>OnceLock::set\<close>, \<open>build\<close> and \<open>reload_from\<close> are
  \<^verbatim>\<open>build_cache\<close> and \<^verbatim>\<open>reload_from_models\<close> of the implementing type;
  \<open>load\<close> is its \<^verbatim>\<open>load_all\<close>.
\<close>

definition cache_reload ::
  "('w \<Rightarrow> bool) \<Rightarrow> ('w \<Rightarrow> 'm list any_result) \<Rightarrow> ('m list \<Rightarrow> 'w \<Rightarrow> 'w) \<Rightarrow> 'w \<Rightarrow> unit any_result \<times> 'w"
where
  "cache_reload is_set load reload_from w =
     (if \<not> is_set w then (Inr (), w)
      else
        (case load w of
           Inl e \<Rightarrow> (Inl e, w)
         | Inr models \<Rightarrow> (Inr (), reload_from models w)))"

definition cache_init ::
  "('w \<Rightarrow> bool) \<Rightarrow> ('w \<Rightarrow> 'm list any_result) \<Rightarrow> ('m list \<Rightarrow> 'w \<Rightarrow> 'c \<times> 'w)
     \<Rightarrow> ('c \<Rightarrow> 'w \<Rightarrow> 'w) \<Rightarrow> ('m list \<Rightarrow> 'w \<Rightarrow> 'w) \<Rightarrow> 'w \<Rightarrow> unit any_result \<times> 'w"
where
  "cache_init is_set load build put reload_from w =
     (case load w of
        Inl e \<Rightarrow> (Inl e, w)
      | Inr models \<Rightarrow>
          let (inst, w1) = build models w
          in if is_set w1 then cache_reload is_set load reload_from w1
             else (Inr (), put inst w1))"

text \<open>
  What an implementation promises: a loaded cache is exactly the image of the
  loaded rows (\<open>coherent\<close>), and filling the cache does not touch the table.
\<close>

locale db_backed_cache =
  fixes is_set :: "'w \<Rightarrow> bool"
    and rows :: "'w \<Rightarrow> 'm list"
    and load :: "'w \<Rightarrow> 'm list any_result"
    and build :: "'m list \<Rightarrow> 'w \<Rightarrow> 'c \<times> 'w"
    and put :: "'c \<Rightarrow> 'w \<Rightarrow> 'w"
    and reload_from :: "'m list \<Rightarrow> 'w \<Rightarrow> 'w"
    and coherent :: "'m list \<Rightarrow> 'w \<Rightarrow> bool"
  assumes load_rows: "load w = Inr ms \<Longrightarrow> ms = rows w"
    and load_build: "load (snd (build ms w)) = load w"
    and is_set_build: "is_set (snd (build ms w)) = is_set w"
    and rows_build: "rows (snd (build ms w)) = rows w"
    and rows_put: "rows (put c w) = rows w"
    and rows_reload: "rows (reload_from ms w) = rows w"
    and put_coherent: "build ms w = (c, w1) \<Longrightarrow> coherent ms (put c w1)"
    and reload_coherent: "is_set w \<Longrightarrow> coherent ms (reload_from ms w)"
    and coherent_set: "coherent ms w \<Longrightarrow> is_set w"
begin

lemma reload_ok:
  assumes "cache_reload is_set load reload_from w = (Inr (), w')" "is_set w"
  shows "coherent (rows w') w' \<and> rows w' = rows w"
  using assms
  by (auto simp: cache_reload_def rows_reload reload_coherent dest: load_rows split: sum.splits)

lemma reload_failed:
  "cache_reload is_set load reload_from w = (Inl e, w') \<Longrightarrow> w' = w \<and> load w = Inl e"
  by (auto simp: cache_reload_def split: sum.splits if_splits)

lemma reload_rows: "rows (snd (cache_reload is_set load reload_from w)) = rows w"
  by (simp add: cache_reload_def rows_reload split: sum.splits)

lemma init_ok:
  assumes "cache_init is_set load build put reload_from w = (Inr (), w')"
  shows "coherent (rows w') w' \<and> rows w' = rows w"
proof -
  obtain ms where ms: "load w = Inr ms"
    using assms by (auto simp: cache_init_def split: sum.splits)
  obtain c w1 where b: "build ms w = (c, w1)" by fastforce
  have w1: "load w1 = Inr ms" "is_set w1 = is_set w" "rows w1 = rows w"
    using load_build [of ms w] is_set_build [of ms w] rows_build [of ms w] b ms by simp_all
  show ?thesis
  proof (cases "is_set w1")
    case True
    then have "cache_reload is_set load reload_from w1 = (Inr (), w')"
      using assms ms b by (simp add: cache_init_def)
    with True w1 show ?thesis by (metis reload_ok)
  next
    case False
    then have "w' = put c w1" using assms ms b by (simp add: cache_init_def)
    with put_coherent [OF b] rows_put [of c w1] load_rows [OF ms] w1(3) show ?thesis by simp
  qed
qed

lemma init_idempotent:
  assumes "cache_init is_set load build put reload_from w = (Inr (), w')"
  shows "is_set w'"
  using init_ok [OF assms] coherent_set by blast

end


section \<open>Scoped permissions\<close>

datatype 'a scoped_permission = All | Scoped "'a list"

primrec is_allowed :: "'a scoped_permission \<Rightarrow> 'a \<Rightarrow> bool" where
  "is_allowed All item = True"
| "is_allowed (Scoped items) item = List.member items item"

primrec is_all :: "'a scoped_permission \<Rightarrow> bool" where
  "is_all All = True"
| "is_all (Scoped items) = False"

primrec as_scoped :: "'a scoped_permission \<Rightarrow> 'a list option" where
  "as_scoped All = None"
| "as_scoped (Scoped items) = Some items"

lemma is_allowed_as_scoped:
  "is_allowed p x \<longleftrightarrow> is_all p \<or> (\<exists>items. as_scoped p = Some items \<and> x \<in> set items)"
  by (cases p) auto

end
