(* ===== verification/Kv_Store.thy ===== *)
theory Kv_Store
  imports Infra "HOL-Library.Multiset" "HOL-Library.Char_ord" "HOL-Library.List_Lexorder"
begin

text \<open>
  \<^verbatim>\<open>ng-kv/src/kv.rs\<close>, \<^verbatim>\<open>db.rs\<close> and \<^verbatim>\<open>reserved.rs\<close>: the in-memory
  \<^verbatim>\<open>KVStore\<close>, the single table that holds every namespace, and the operations on
  it.  A namespace exists when the table has a row of it; creating one writes a
  marker row.
\<close>


section \<open>The in-memory store\<close>

record kv_store =
  kvs_namespace :: string
  kvs_kv :: "(string, json) hash_map"

definition kvs_new :: "string \<Rightarrow> kv_store" where
  "kvs_new ns = \<lparr> kvs_namespace = ns, kvs_kv = [] \<rparr>"

definition kvs_get :: "kv_store \<Rightarrow> string \<Rightarrow> json option" where
  "kvs_get s key = hm_get (kvs_kv s) key"

definition kvs_set :: "string \<Rightarrow> json \<Rightarrow> kv_store \<Rightarrow> kv_store" where
  "kvs_set key v s = s\<lparr> kvs_kv := hm_insert key v (kvs_kv s) \<rparr>"

definition kvs_remove :: "string \<Rightarrow> kv_store \<Rightarrow> json option \<times> kv_store" where
  "kvs_remove key s = (hm_get (kvs_kv s) key, s\<lparr> kvs_kv := hm_remove key (kvs_kv s) \<rparr>)"

definition kvs_contains_key :: "kv_store \<Rightarrow> string \<Rightarrow> bool" where
  "kvs_contains_key s key = (hm_get (kvs_kv s) key \<noteq> None)"

definition kvs_keys :: "kv_store \<Rightarrow> string list" where
  "kvs_keys s = hm_keys (kvs_kv s)"

definition kvs_values :: "kv_store \<Rightarrow> json list" where
  "kvs_values s = hm_values (kvs_kv s)"

definition kvs_len :: "kv_store \<Rightarrow> nat" where
  "kvs_len s = length (kvs_kv s)"

definition kvs_is_empty :: "kv_store \<Rightarrow> bool" where
  "kvs_is_empty s = (kvs_kv s = [])"

definition kvs_clear :: "kv_store \<Rightarrow> kv_store" where
  "kvs_clear s = s\<lparr> kvs_kv := [] \<rparr>"


section \<open>The table\<close>

record kv_row =
  r_id :: int
  r_namespace :: string
  r_key :: string
  r_value :: json

definition kv_table_ok :: "kv_row list \<Rightarrow> bool" where
  "kv_table_ok rows \<longleftrightarrow> unique_on (\<lambda>r. Some (r_namespace r, r_key r)) rows"

record kv_world =
  kv_ready :: bool
  kv_rows :: "kv_row list"

datatype kv_site =
    NsExists string | InsertMarker string | FindOne string string | UpsertKey | DeleteKey
  | DeleteNs | SelectKeys | SelectStore string | ListNs

text \<open>
  What the database supplies: the failures of the queries, how an error prints,
  the order of \<^verbatim>\<open>ORDER BY .. ASC\<close> under the backend's collation, and the id of a
  new row.
\<close>

record kv_env =
  kv_fault :: "kv_site \<Rightarrow> db_err option"
  kv_db_err_display :: "db_err \<Rightarrow> string"
  kv_order_asc :: "string list \<Rightarrow> string list"
  kv_new_id :: int

definition kv_env_ok :: "kv_env \<Rightarrow> bool" where
  "kv_env_ok D \<longleftrightarrow> (\<forall>xs. mset (kv_order_asc D xs) = mset xs)"

definition kv_query :: "kv_env \<Rightarrow> kv_site \<Rightarrow> 'a \<Rightarrow> 'a any_result" where
  "kv_query D site r =
     (case kv_fault D site of Some e \<Rightarrow> Inl (Foreign (kv_db_err_display D e)) | None \<Rightarrow> Inr r)"

definition NAMESPACE_MARKER_KEY :: string where
  "NAMESPACE_MARKER_KEY = ''__nodeget_namespace_marker__''"

definition get_db_conn :: "kv_world \<Rightarrow> unit any_result" where
  "get_db_conn w = (if kv_ready w then Inr () else Inl (Foreign ''DB not initialized''))"

definition quoted :: "string \<Rightarrow> string" where
  "quoted s = [CHR 0x27] @ s @ [CHR 0x27]"

definition namespace_exists :: "kv_env \<Rightarrow> kv_world \<Rightarrow> string \<Rightarrow> bool any_result" where
  "namespace_exists D w ns =
     kv_query D (NsExists ns) (tbl_find (\<lambda>r. r_namespace r = ns) (kv_rows w) \<noteq> None)"

definition ensure_namespace_exists :: "kv_env \<Rightarrow> kv_world \<Rightarrow> string \<Rightarrow> unit any_result" where
  "ensure_namespace_exists D w ns =
     rbind (namespace_exists D w ns) (\<lambda>ex.
       if ex then Inr () else err (DatabaseError (''Namespace '' @ quoted ns @ '' not found'')))"

definition row_of :: "kv_row list \<Rightarrow> string \<Rightarrow> string \<Rightarrow> kv_row option" where
  "row_of rows ns key = tbl_find (\<lambda>r. r_namespace r = ns \<and> r_key r = key) rows"

definition create_kv :: "kv_env \<Rightarrow> string \<Rightarrow> kv_world \<Rightarrow> kv_store any_result \<times> kv_world" where
  "create_kv D ns w =
     (case rbind (get_db_conn w) (\<lambda>_. namespace_exists D w ns) of
        Inl e \<Rightarrow> (Inl e, w)
      | Inr True \<Rightarrow>
          (err (DatabaseError (''Namespace '' @ quoted ns @ '' already exists'')), w)
      | Inr False \<Rightarrow>
          (case kv_query D (InsertMarker ns) () of
             Inl e \<Rightarrow> (Inl e, w)
           | Inr _ \<Rightarrow>
               (Inr (kvs_new ns),
                w\<lparr> kv_rows := kv_rows w @
                    [\<lparr> r_id = kv_new_id D, r_namespace = ns, r_key = NAMESPACE_MARKER_KEY,
                       r_value = JNull \<rparr>] \<rparr>)))"

definition get_v_from_kv_lenient :: "kv_env \<Rightarrow> kv_world \<Rightarrow> string \<Rightarrow> string \<Rightarrow> json option any_result" where
  "get_v_from_kv_lenient D w ns key =
     (if key = NAMESPACE_MARKER_KEY then Inr None
      else
        rbind (get_db_conn w) (\<lambda>_.
          kv_query D (FindOne ns key) (map_option r_value (row_of (kv_rows w) ns key))))"

definition get_v_from_kv :: "kv_env \<Rightarrow> kv_world \<Rightarrow> string \<Rightarrow> string \<Rightarrow> json option any_result" where
  "get_v_from_kv D w ns key =
     (if key = NAMESPACE_MARKER_KEY then Inr None
      else
        rbind (get_db_conn w) (\<lambda>_.
        rbind (ensure_namespace_exists D w ns) (\<lambda>_.
          kv_query D (FindOne ns key) (map_option r_value (row_of (kv_rows w) ns key)))))"

text \<open>\<^verbatim>\<open>INSERT .. ON CONFLICT (namespace, key) DO UPDATE SET value\<close>.\<close>

definition upsert_row :: "int \<Rightarrow> string \<Rightarrow> string \<Rightarrow> json \<Rightarrow> kv_row list \<Rightarrow> kv_row list" where
  "upsert_row new_id ns key v rows =
     (if row_of rows ns key \<noteq> None
      then tbl_update (\<lambda>r. r_namespace r = ns \<and> r_key r = key) (\<lambda>r. r\<lparr> r_value := v \<rparr>) rows
      else rows @ [\<lparr> r_id = new_id, r_namespace = ns, r_key = key, r_value = v \<rparr>])"

definition set_v_to_kv ::
  "kv_env \<Rightarrow> string \<Rightarrow> string \<Rightarrow> json \<Rightarrow> kv_world \<Rightarrow> unit any_result \<times> kv_world" where
  "set_v_to_kv D ns key v w =
     (case rbind (get_db_conn w) (\<lambda>_. rbind (ensure_namespace_exists D w ns) (\<lambda>_.
             kv_query D UpsertKey ())) of
        Inl e \<Rightarrow> (Inl e, w)
      | Inr _ \<Rightarrow> (Inr (), w\<lparr> kv_rows := upsert_row (kv_new_id D) ns key v (kv_rows w) \<rparr>))"

definition delete_key_from_kv ::
  "kv_env \<Rightarrow> string \<Rightarrow> string \<Rightarrow> kv_world \<Rightarrow> unit any_result \<times> kv_world" where
  "delete_key_from_kv D ns key w =
     (if key = NAMESPACE_MARKER_KEY
      then (err (InvalidInput (''Cannot delete namespace marker key '' @ quoted NAMESPACE_MARKER_KEY)), w)
      else
        (case rbind (get_db_conn w) (\<lambda>_. rbind (ensure_namespace_exists D w ns) (\<lambda>_.
                kv_query D DeleteKey ())) of
           Inl e \<Rightarrow> (Inl e, w)
         | Inr _ \<Rightarrow>
             (Inr (), w\<lparr> kv_rows :=
                tbl_delete (\<lambda>r. r_namespace r = ns \<and> r_key r = key) (kv_rows w) \<rparr>)))"

definition delete_kv :: "kv_env \<Rightarrow> string \<Rightarrow> kv_world \<Rightarrow> unit any_result \<times> kv_world" where
  "delete_kv D ns w =
     (case rbind (get_db_conn w) (\<lambda>_. rbind (ensure_namespace_exists D w ns) (\<lambda>_.
             kv_query D DeleteNs ())) of
        Inl e \<Rightarrow> (Inl e, w)
      | Inr _ \<Rightarrow> (Inr (), w\<lparr> kv_rows := tbl_delete (\<lambda>r. r_namespace r = ns) (kv_rows w) \<rparr>))"

definition visible_rows :: "kv_row list \<Rightarrow> string \<Rightarrow> kv_row list" where
  "visible_rows rows ns =
     filter (\<lambda>r. r_namespace r = ns \<and> r_key r \<noteq> NAMESPACE_MARKER_KEY) rows"

definition get_keys_from_kv :: "kv_env \<Rightarrow> kv_world \<Rightarrow> string \<Rightarrow> string list any_result" where
  "get_keys_from_kv D w ns =
     rbind (get_db_conn w) (\<lambda>_.
     rbind (ensure_namespace_exists D w ns) (\<lambda>_.
       kv_query D SelectKeys (kv_order_asc D (map r_key (visible_rows (kv_rows w) ns)))))"

text \<open>
  The rows arrive ordered by key, and each is put into the map of the store;
  the order is not observable in the map.
\<close>

definition load_store :: "kv_row list \<Rightarrow> string \<Rightarrow> kv_store" where
  "load_store rows ns =
     fold (\<lambda>r s. kvs_set (r_key r) (r_value r) s) (visible_rows rows ns) (kvs_new ns)"

definition get_kv_store :: "kv_env \<Rightarrow> kv_world \<Rightarrow> string \<Rightarrow> kv_store any_result" where
  "get_kv_store D w ns =
     rbind (get_db_conn w) (\<lambda>_.
     rbind (ensure_namespace_exists D w ns) (\<lambda>_.
       kv_query D (SelectStore ns) (load_store (kv_rows w) ns)))"

definition get_kv_store_optional :: "kv_env \<Rightarrow> kv_world \<Rightarrow> string \<Rightarrow> kv_store option any_result" where
  "get_kv_store_optional D w ns =
     rbind (get_db_conn w) (\<lambda>_.
     rbind (namespace_exists D w ns) (\<lambda>ex.
       if \<not> ex then Inr None
       else kv_query D (SelectStore ns) (Some (load_store (kv_rows w) ns))))"

definition get_or_create_kv :: "kv_env \<Rightarrow> string \<Rightarrow> kv_world \<Rightarrow> kv_store any_result \<times> kv_world" where
  "get_or_create_kv D ns w =
     (case rbind (get_db_conn w) (\<lambda>_. namespace_exists D w ns) of
        Inl e \<Rightarrow> (Inl e, w)
      | Inr True \<Rightarrow> (get_kv_store D w ns, w)
      | Inr False \<Rightarrow> create_kv D ns w)"

definition list_all_namespaces :: "kv_env \<Rightarrow> kv_world \<Rightarrow> string list any_result" where
  "list_all_namespaces D w =
     rbind (get_db_conn w) (\<lambda>_.
       kv_query D ListNs (kv_order_asc D (remdups (map r_namespace (kv_rows w)))))"


section \<open>Reserved namespaces\<close>

definition RESERVED_NAMESPACE_PREFIX :: string where
  "RESERVED_NAMESPACE_PREFIX = ''__''"

definition is_reserved_namespace :: "string \<Rightarrow> bool" where
  "is_reserved_namespace ns = starts_with ns RESERVED_NAMESPACE_PREFIX"

definition ensure_namespace_writable :: "string \<Rightarrow> unit any_result" where
  "ensure_namespace_writable ns =
     (if is_reserved_namespace ns
      then err (PermissionDenied (''namespace `'' @ ns
             @ ''` is reserved for server-internal use and cannot be written via RPC''))
      else Inr ())"



section \<open>The table as a keyed store\<close>

definition kv_lookup :: "kv_row list \<Rightarrow> string \<times> string \<Rightarrow> json option" where
  "kv_lookup rows p = map_option r_value (row_of rows (fst p) (snd p))"

definition kv_put :: "int \<Rightarrow> string \<times> string \<Rightarrow> json \<Rightarrow> kv_row list \<Rightarrow> kv_row list" where
  "kv_put new_id p v rows = upsert_row new_id (fst p) (snd p) v rows"

definition kv_del :: "string \<times> string \<Rightarrow> kv_row list \<Rightarrow> kv_row list" where
  "kv_del p rows = tbl_delete (\<lambda>r. r_namespace r = fst p \<and> r_key r = snd p) rows"

lemma row_of_Some: "row_of rows ns key = Some r \<Longrightarrow> r \<in> set rows \<and> r_namespace r = ns \<and> r_key r = key"
  by (auto simp: row_of_def dest: tbl_find_Some)

lemma row_of_None: "row_of rows ns key = None \<longleftrightarrow> (\<forall>r\<in>set rows. \<not> (r_namespace r = ns \<and> r_key r = key))"
  by (auto simp: row_of_def tbl_find_None)

lemma row_of_mem:
  "kv_table_ok rows \<Longrightarrow> r \<in> set rows \<Longrightarrow> row_of rows (r_namespace r) (r_key r) = Some r"
  using tbl_find_unique [of "\<lambda>r. Some (r_namespace r, r_key r)" rows r "(r_namespace r, r_key r)"]
  by (simp add: kv_table_ok_def row_of_def)

lemma row_of_append:
  "row_of (rows @ [r]) ns key =
     (case row_of rows ns key of Some x \<Rightarrow> Some x
      | None \<Rightarrow> if r_namespace r = ns \<and> r_key r = key then Some r else None)"
  by (simp add: row_of_def tbl_find_append split: option.split)

lemma row_of_update:
  "(\<And>r. r_namespace (f r) = r_namespace r \<and> r_key (f r) = r_key r) \<Longrightarrow>
     row_of (tbl_update P f rows) ns key = map_option (\<lambda>r. if P r then f r else r) (row_of rows ns key)"
  by (induction rows) (auto simp: tbl_update_def row_of_def)

lemma row_of_delete:
  "row_of (tbl_delete (\<lambda>r. P (r_namespace r) (r_key r)) rows) ns key =
     (if P ns key then None else row_of rows ns key)"
  by (induction rows) (auto simp: tbl_delete_def row_of_def)

lemma kv_lookup_put:
  "kv_lookup (kv_put i k v rows) k' = (if k' = k then Some v else kv_lookup rows k')"
proof (cases "row_of rows (fst k) (snd k)")
  case None
  then show ?thesis
    by (cases k; cases k')
       (auto simp: kv_lookup_def kv_put_def upsert_row_def row_of_append split: option.split)
next
  case (Some r)
  have "row_of rows (fst k') (snd k') = Some r' \<Longrightarrow>
      (r_namespace r' = fst k \<and> r_key r' = snd k) = (k' = k)" for r'
    by (auto dest!: row_of_Some simp: prod_eq_iff)
  with Some show ?thesis
    by (cases "row_of rows (fst k') (snd k')")
       (auto simp: kv_lookup_def kv_put_def upsert_row_def row_of_update)
qed

lemma kv_lookup_del: "kv_lookup (kv_del k rows) k' = (if k' = k then None else kv_lookup rows k')"
  using row_of_delete [of "\<lambda>a b. a = fst k \<and> b = snd k" rows "fst k'" "snd k'"]
  by (auto simp: kv_lookup_def kv_del_def prod_eq_iff)

lemma kv_put_ok: "kv_table_ok rows \<Longrightarrow> kv_table_ok (kv_put i k v rows)"
  by (auto simp: kv_table_ok_def kv_put_def upsert_row_def unique_on_snoc unique_on_update row_of_None)

lemma kv_del_ok: "kv_table_ok rows \<Longrightarrow> kv_table_ok (kv_del k rows)"
  by (auto simp: kv_table_ok_def kv_del_def)

interpretation kv_table: keyed_store kv_lookup "kv_put i" kv_del kv_table_ok
  by unfold_locales (simp_all add: kv_lookup_put kv_lookup_del kv_put_ok kv_del_ok)


text \<open>
  The invariant of the table: one row per namespace and key, and every namespace
  that has a row has its marker.
\<close>

definition kv_inv :: "kv_row list \<Rightarrow> bool" where
  "kv_inv rows \<longleftrightarrow>
     kv_table_ok rows
     \<and> list_all (\<lambda>r. row_of rows (r_namespace r) NAMESPACE_MARKER_KEY \<noteq> None) rows"

lemma kv_inv_marker:
  "kv_inv rows \<Longrightarrow> row_of rows ns key = Some r \<Longrightarrow> row_of rows ns NAMESPACE_MARKER_KEY \<noteq> None"
  by (auto simp: kv_inv_def list_all_iff dest!: row_of_Some)

lemma row_of_namespace:
  "row_of rows ns key \<noteq> None \<Longrightarrow> tbl_find (\<lambda>r. r_namespace r = ns) rows \<noteq> None"
  unfolding tbl_find_None using row_of_Some by blast

lemma kv_inv_namespace:
  assumes "kv_inv rows"
  shows "tbl_find (\<lambda>r. r_namespace r = ns) rows \<noteq> None \<longleftrightarrow> row_of rows ns NAMESPACE_MARKER_KEY \<noteq> None"
proof
  assume "tbl_find (\<lambda>r. r_namespace r = ns) rows \<noteq> None"
  then obtain r where "r \<in> set rows" "r_namespace r = ns" by (auto simp: tbl_find_None)
  with assms show "row_of rows ns NAMESPACE_MARKER_KEY \<noteq> None"
    by (auto simp: kv_inv_def list_all_iff)
qed (rule row_of_namespace)

lemma kv_inv_put:
  assumes "kv_inv rows" "tbl_find (\<lambda>r. r_namespace r = ns) rows \<noteq> None"
  shows "kv_inv (upsert_row i ns key v rows)"
proof -
  have ok: "kv_table_ok (upsert_row i ns key v rows)"
    using kv_put_ok [of rows i "(ns, key)" v] assms(1) by (simp add: kv_inv_def kv_put_def)
  have keep: "row_of rows n m \<noteq> None \<Longrightarrow> row_of (upsert_row i ns key v rows) n m \<noteq> None" for n m
    by (auto simp: upsert_row_def row_of_update row_of_append split: option.splits)
  have marker: "row_of rows ns NAMESPACE_MARKER_KEY \<noteq> None"
    using assms kv_inv_namespace [OF assms(1), of ns] by blast
  have "row_of rows (r_namespace r) NAMESPACE_MARKER_KEY \<noteq> None"
    if "r \<in> set (upsert_row i ns key v rows)" for r
  proof -
    from that have "r_namespace r = ns \<or> (\<exists>q\<in>set rows. r_namespace r = r_namespace q)"
      by (auto simp: upsert_row_def split: if_splits)
    with marker assms(1) show ?thesis by (auto simp: kv_inv_def list_all_iff)
  qed
  with keep ok show ?thesis by (auto simp: kv_inv_def list_all_iff)
qed

lemma kv_inv_new:
  assumes "kv_inv rows" "tbl_find (\<lambda>r. r_namespace r = ns) rows = None"
  shows "kv_inv (rows @ [\<lparr> r_id = i, r_namespace = ns, r_key = NAMESPACE_MARKER_KEY, r_value = v \<rparr>])"
  using assms
  by (auto simp: kv_inv_def kv_table_ok_def unique_on_snoc tbl_find_None list_all_iff row_of_append
      split: option.splits)

lemma kv_inv_delete:
  assumes "kv_inv rows"
    and "\<And>ns key. P ns key \<Longrightarrow> key \<noteq> NAMESPACE_MARKER_KEY \<or> (\<forall>key'. P ns key')"
  shows "kv_inv (tbl_delete (\<lambda>r. P (r_namespace r) (r_key r)) rows)"
proof -
  have "row_of rows (r_namespace r) NAMESPACE_MARKER_KEY \<noteq> None
      \<and> \<not> P (r_namespace r) NAMESPACE_MARKER_KEY"
    if "r \<in> set rows" "\<not> P (r_namespace r) (r_key r)" for r
    using assms that by (auto simp: kv_inv_def list_all_iff)
  then show ?thesis
    using assms(1) by (auto simp: kv_inv_def kv_table_ok_def list_all_iff row_of_delete)
qed

lemma kvs_get_simps [simp]:
  "kvs_get (kvs_new ns) key = None"
  "kvs_get (kvs_set k v s) key = (if key = k then Some v else kvs_get s key)"
  by (simp_all add: kvs_get_def kvs_new_def kvs_set_def)

lemma kvs_get_fold:
  "kvs_get (fold (\<lambda>r s. kvs_set (r_key r) (r_value r) s) rs s) key =
     (case tbl_find (\<lambda>r. r_key r = key) (rev rs) of None \<Rightarrow> kvs_get s key | Some r \<Rightarrow> Some (r_value r))"
proof (induction rs arbitrary: s)
  case (Cons r rs)
  show ?case
    by (auto simp: Cons tbl_find_append split: option.split)
qed simp

lemma kvs_get_load_store:
  assumes "kv_table_ok rows"
  shows "kvs_get (load_store rows ns) key =
     (if key = NAMESPACE_MARKER_KEY then None else kv_lookup rows (ns, key))"
proof -
  let ?vs = "visible_rows rows ns"
  have "unique_on (\<lambda>r. Some (r_key r)) ?vs"
    using assms unfolding kv_table_ok_def visible_rows_def
    by (induction rows) (auto simp: unique_on_Cons)
  from tbl_find_rev_unique [OF this, of key]
  have "tbl_find (\<lambda>r. r_key r = key) (rev ?vs) = tbl_find (\<lambda>r. r_key r = key) ?vs" by simp
  moreover have "tbl_find (\<lambda>r. r_key r = key) ?vs =
      (if key = NAMESPACE_MARKER_KEY then None else row_of rows ns key)"
    unfolding visible_rows_def row_of_def by (induction rows) auto
  ultimately show ?thesis
    by (auto simp: load_store_def kvs_get_fold kv_lookup_def split: option.split)
qed

end
