(* ===== verification/Token_Cache.thy ===== *)
theory Token_Cache
  imports Infra
begin

text \<open>
  \<^verbatim>\<open>ng-token/src/cache.rs\<close>, \<^verbatim>\<open>lib.rs\<close> and the parsing half of
  \<^verbatim>\<open>get.rs\<close>: the token table, the hashes, the in-memory cache built from the
  table and authentication against it.  SHA-256, \<^verbatim>\<open>hex::encode\<close>, the
  constant-time comparison of \<^verbatim>\<open>subtle\<close> and the serde conversions of
  \<^verbatim>\<open>Limit\<close> are the fields of \<open>extern\<close>.
\<close>


section \<open>Third-party functions\<close>

type_synonym byte = "8 word"

record extern =
  sha256 :: "string \<Rightarrow> byte list"
  hex_encode :: "byte list \<Rightarrow> string"
  ct_eq :: "byte list \<Rightarrow> byte list \<Rightarrow> bool"
  limits_from_value :: "json \<Rightarrow> string + limit list"
  permission_from_value :: "json \<Rightarrow> string + permission"
  limits_to_value :: "limit list \<Rightarrow> string + json"
  db_err_display :: "db_err \<Rightarrow> string"

text \<open>
  Their documented behaviour: a digest has 32 bytes, \<^verbatim>\<open>hex::encode\<close> prints
  each byte as two lower-case digits, \<^verbatim>\<open>ct_eq\<close> is equality of byte strings,
  and a serialised list of limits parses back to itself.
\<close>

definition hex_digit :: "nat \<Rightarrow> char" where
  "hex_digit n = (if n < 10 then char_of (48 + n) else char_of (87 + n))"

definition lower_hex :: "byte list \<Rightarrow> string" where
  "lower_hex bs = concat (map (\<lambda>b. [hex_digit (unat b div 16), hex_digit (unat b mod 16)]) bs)"

definition extern_ok :: "extern \<Rightarrow> bool" where
  "extern_ok E \<longleftrightarrow>
     (\<forall>s. length (sha256 E s) = 32)
     \<and> (\<forall>bs. hex_encode E bs = lower_hex bs)
     \<and> (\<forall>a b. ct_eq E a b = (a = b))
     \<and> (\<forall>ls j. limits_to_value E ls = Inr j \<longrightarrow> limits_from_value E j = Inr ls)"


section \<open>Hashes\<close>

definition bytes_of :: "string \<Rightarrow> byte list" where
  "bytes_of s = map of_char s"

definition hash_to_bytes :: "extern \<Rightarrow> string \<Rightarrow> byte list" where
  "hash_to_bytes E need_hash = sha256 E (''NODEGET'' @ need_hash)"

definition hash_string :: "extern \<Rightarrow> string \<Rightarrow> string" where
  "hash_string E need_hash = hex_encode E (hash_to_bytes E need_hash)"

definition hex_nibble :: "byte \<Rightarrow> byte option" where
  "hex_nibble b =
     (if 48 \<le> b \<and> b \<le> 57 then Some (b - 48)
      else if 97 \<le> b \<and> b \<le> 102 then Some (b - 97 + 10)
      else if 65 \<le> b \<and> b \<le> 70 then Some (b - 65 + 10)
      else None)"

text \<open>The loop over the 32 bytes; \<open>i\<close> counts up, a bad nibble ends it.\<close>

fun hex_to_bytes_loop :: "byte list \<Rightarrow> nat \<Rightarrow> nat \<Rightarrow> byte list option" where
  "hex_to_bytes_loop hs i 0 = Some []"
| "hex_to_bytes_loop hs i (Suc n) =
     (if i * 2 + 1 < length hs then
        (case (hex_nibble (hs ! (i * 2)), hex_nibble (hs ! (i * 2 + 1))) of
           (Some hi, Some lo) \<Rightarrow>
             (case hex_to_bytes_loop hs (Suc i) n of
                None \<Rightarrow> None
              | Some bs \<Rightarrow> Some (or (push_bit 4 hi) lo # bs))
         | _ \<Rightarrow> None)
      else None)"

definition hex_to_bytes :: "string \<Rightarrow> byte list option" where
  "hex_to_bytes hex_str =
     (if length hex_str \<noteq> 64 then None else hex_to_bytes_loop (bytes_of hex_str) 0 32)"


section \<open>The table and the limits column\<close>

record token_model =
  m_id :: int
  m_version :: int
  m_token_key :: string
  m_token_hash :: string
  m_time_stamp_from :: "int option"
  m_time_stamp_to :: "int option"
  m_token_limit :: json
  m_username :: "string option"
  m_password_hash :: "string option"

text \<open>The unique constraints of the migration: primary key, token key, user name.\<close>

definition token_table_ok :: "token_model list \<Rightarrow> bool" where
  "token_table_ok rows \<longleftrightarrow>
     unique_on (\<lambda>m. Some (m_id m)) rows
     \<and> unique_on (\<lambda>m. Some (m_token_key m)) rows
     \<and> unique_on m_username rows"

definition retain_permissions :: "extern \<Rightarrow> json \<Rightarrow> json" where
  "retain_permissions E limit =
     (case limit of
        JObject kvs \<Rightarrow>
          (case map_of kvs ''permissions'' of
             Some (JArray perms) \<Rightarrow>
               JObject (AList.update ''permissions''
                 (JArray (filter (\<lambda>p. is_ok (permission_from_value E p)) perms)) kvs)
           | _ \<Rightarrow> limit)
      | _ \<Rightarrow> limit)"

definition drop_unknown_permissions :: "extern \<Rightarrow> json \<Rightarrow> json" where
  "drop_unknown_permissions E token_limit_value =
     (case token_limit_value of
        JArray limits \<Rightarrow> JArray (map (retain_permissions E) limits)
      | _ \<Rightarrow> token_limit_value)"

definition parse_token_limit_with_compat :: "extern \<Rightarrow> json \<Rightarrow> limit list any_result" where
  "parse_token_limit_with_compat E token_limit_value =
     (case limits_from_value E token_limit_value of
        Inr v \<Rightarrow> Inr v
      | Inl original_err \<Rightarrow>
          map_err (\<lambda>e. Nodeget (SerializationError
              (''Failed to parse token permissions: '' @ e @ ''; original error: '' @ original_err)))
            (limits_from_value E (drop_unknown_permissions E token_limit_value)))"


section \<open>The cache\<close>

record cached_token =
  model :: token_model
  parsed_limits :: "limit list"
  token_hash_bytes :: "byte list"
  password_hash_bytes :: "byte list option"

record token_cache =
  by_key :: "(string, cached_token) hash_map"
  by_username :: "(string, cached_token) hash_map"

definition cached_of :: "extern \<Rightarrow> token_model \<Rightarrow> cached_token" where
  "cached_of E m =
     \<lparr> model = m,
       parsed_limits =
         (case parse_token_limit_with_compat E (m_token_limit m) of Inl _ \<Rightarrow> [] | Inr v \<Rightarrow> v),
       token_hash_bytes =
         (case hex_to_bytes (m_token_hash m) of None \<Rightarrow> replicate 32 0 | Some bs \<Rightarrow> bs),
       password_hash_bytes = Option.bind (m_password_hash m) hex_to_bytes \<rparr>"

fun build_maps_loop ::
  "extern \<Rightarrow> token_model list
     \<Rightarrow> (string, cached_token) hash_map \<times> (string, cached_token) hash_map \<times> cached_token option
     \<Rightarrow> (string, cached_token) hash_map \<times> (string, cached_token) hash_map \<times> cached_token option"
where
  "build_maps_loop E [] acc = acc"
| "build_maps_loop E (m # ms) (bk, bu, st) =
     (let cached = cached_of E m;
          st' = (if m_id (model cached) = 1 then Some cached else st);
          bk' = hm_insert (m_token_key (model cached)) cached bk;
          bu' = (case m_username (model cached) of
                   None \<Rightarrow> bu | Some uname \<Rightarrow> hm_insert uname cached bu)
      in build_maps_loop E ms (bk', bu', st'))"

definition build_maps ::
  "extern \<Rightarrow> token_model list
     \<Rightarrow> (string, cached_token) hash_map \<times> (string, cached_token) hash_map \<times> cached_token option"
where
  "build_maps E all_tokens = build_maps_loop E all_tokens ([], [], None)"

text \<open>
  The state the crate works on: the database handle and the table, the
  \<^verbatim>\<open>OnceLock\<close> with the two maps, and \<^verbatim>\<open>SUPER_TOKEN_GLOBAL\<close>.
\<close>

record token_world =
  db_ready :: bool
  token_rows :: "token_model list"
  cache_global :: "token_cache option"
  super_token_global :: "cached_token option"

text \<open>The places where the crate queries the database, each of which may fail.\<close>

datatype token_site =
    LoadAll | InsertToken | UpdateToken | FindSuper | DeleteByKey | DeleteByUsername
  | FindByKey string | FindByUsername string | TxnDeleteSuper | TxnInsertSuper | TxnCommit

type_synonym token_faults = "token_site \<Rightarrow> db_err option"

definition build_cache :: "extern \<Rightarrow> token_model list \<Rightarrow> token_world \<Rightarrow> token_cache \<times> token_world" where
  "build_cache E models w =
     (let (bk, bu, st) = build_maps E models
      in (\<lparr> by_key = bk, by_username = bu \<rparr>, w\<lparr> super_token_global := st \<rparr>))"

definition reload_from_models :: "extern \<Rightarrow> token_model list \<Rightarrow> token_world \<Rightarrow> token_world" where
  "reload_from_models E models w =
     (let (bk, bu, st) = build_maps E models;
          w1 = w\<lparr> cache_global :=
                  map_option (\<lambda>c. c\<lparr> by_key := bk, by_username := bu \<rparr>) (cache_global w) \<rparr>
      in w1\<lparr> super_token_global := st \<rparr>)"

definition load_all :: "extern \<Rightarrow> token_faults \<Rightarrow> token_world \<Rightarrow> token_model list any_result" where
  "load_all E flt w =
     load_from_db (db_ready w) (map_option (db_err_display E) (flt LoadAll)) (token_rows w)"

definition cache_is_set :: "token_world \<Rightarrow> bool" where
  "cache_is_set w = (cache_global w \<noteq> None)"

definition cache_put :: "token_cache \<Rightarrow> token_world \<Rightarrow> token_world" where
  "cache_put c w = w\<lparr> cache_global := Some c \<rparr>"

definition token_cache_init :: "extern \<Rightarrow> token_faults \<Rightarrow> token_world \<Rightarrow> unit any_result \<times> token_world" where
  "token_cache_init E flt =
     cache_init cache_is_set (load_all E flt) (build_cache E) cache_put (reload_from_models E)"

definition token_cache_reload :: "extern \<Rightarrow> token_faults \<Rightarrow> token_world \<Rightarrow> unit any_result \<times> token_world" where
  "token_cache_reload E flt = cache_reload cache_is_set (load_all E flt) (reload_from_models E)"

definition find_by_key :: "token_cache \<Rightarrow> string \<Rightarrow> cached_token option" where
  "find_by_key c key = hm_get (by_key c) key"

definition find_by_username :: "token_cache \<Rightarrow> string \<Rightarrow> cached_token option" where
  "find_by_username c uname = hm_get (by_username c) uname"

definition get_super_token :: "token_world \<Rightarrow> cached_token option" where
  "get_super_token w = super_token_global w"

definition get_all :: "token_cache \<Rightarrow> cached_token list" where
  "get_all c = hm_values (by_key c)"

definition AUTH_FAILED_MESSAGE :: string where
  "AUTH_FAILED_MESSAGE = ''Invalid credentials''"

definition authenticate ::
  "extern \<Rightarrow> token_world \<Rightarrow> token_cache \<Rightarrow> token_or_auth \<Rightarrow> (cached_token \<times> bool) any_result"
where
  "authenticate E w self token_or_auth =
     rbind (ok_or (Nodeget (NotFound ''Super Token record (ID 1) not found in cache''))
              (get_super_token w)) (\<lambda>super_entry.
       case token_or_auth of
         Token key secret \<Rightarrow>
           if ct_eq E (bytes_of key) (bytes_of (m_token_key (model super_entry)))
           then (if ct_eq E (hash_to_bytes E secret) (token_hash_bytes super_entry)
                 then Inr (super_entry, True)
                 else err (PermissionDenied AUTH_FAILED_MESSAGE))
           else
             (case hm_get (by_key self) key of
                Some cached \<Rightarrow>
                  if ct_eq E (hash_to_bytes E secret) (token_hash_bytes cached)
                  then Inr (cached, False)
                  else err (PermissionDenied AUTH_FAILED_MESSAGE)
              | None \<Rightarrow> err (PermissionDenied AUTH_FAILED_MESSAGE))
       | Auth uname password \<Rightarrow>
           if (case m_username (model super_entry) of
                 None \<Rightarrow> False | Some u \<Rightarrow> ct_eq E (bytes_of u) (bytes_of uname))
           then
             (case password_hash_bytes super_entry of
                Some stored \<Rightarrow>
                  if ct_eq E (hash_to_bytes E password) stored then Inr (super_entry, True)
                  else err (PermissionDenied AUTH_FAILED_MESSAGE)
              | None \<Rightarrow> err (PermissionDenied AUTH_FAILED_MESSAGE))
           else
             (case hm_get (by_username self) uname of
                Some cached \<Rightarrow>
                  (case password_hash_bytes cached of
                     None \<Rightarrow> err (PermissionDenied AUTH_FAILED_MESSAGE)
                   | Some stored \<Rightarrow>
                       if ct_eq E (hash_to_bytes E password) stored then Inr (cached, False)
                       else err (PermissionDenied AUTH_FAILED_MESSAGE))
              | None \<Rightarrow> err (PermissionDenied AUTH_FAILED_MESSAGE)))"


section \<open>Hexadecimal round trip\<close>

lemma of_char_char_of_byte: "n < 256 \<Longrightarrow> (of_char (char_of n) :: byte) = of_nat n"
  by (subst of_nat_of_char [symmetric]) simp

lemma le_of_nat_byte: "n < 256 \<Longrightarrow> m < 256 \<Longrightarrow> (of_nat n :: byte) \<le> of_nat m \<longleftrightarrow> n \<le> m"
  by (simp add: word_le_nat_alt unsigned_of_nat take_bit_nat_eq_self)

lemma hex_nibble_digit:
  assumes "n < 16"
  shows "hex_nibble (of_char (hex_digit n)) = Some (of_nat n)"
proof (cases "n < 10")
  case True
  then have "(48::byte) \<le> of_nat (48 + n)" "of_nat (48 + n) \<le> (57::byte)"
    using le_of_nat_byte [of 48 "48 + n"] le_of_nat_byte [of "48 + n" 57] by simp_all
  with True show ?thesis by (simp add: hex_digit_def hex_nibble_def of_char_char_of_byte)
next
  case False
  then have "(97::byte) \<le> of_nat (87 + n)" "of_nat (87 + n) \<le> (102::byte)"
    "\<not> of_nat (87 + n) \<le> (57::byte)"
    using assms le_of_nat_byte [of 97 "87 + n"] le_of_nat_byte [of "87 + n" 102]
      le_of_nat_byte [of "87 + n" 57] by simp_all
  with assms False show ?thesis by (simp add: hex_digit_def hex_nibble_def of_char_char_of_byte)
qed

lemma nibbles_join:
  "or (push_bit 4 (of_nat (unat b div 16))) (of_nat (unat b mod 16)) = (b :: byte)"
proof -
  have "unat b div 16 = unat (drop_bit 4 b)"
    by (simp add: unat_drop_bit_eq) (simp add: drop_bit_eq_div)
  moreover have "unat b mod 16 = unat (take_bit 4 b)"
    by (simp add: unsigned_take_bit_eq) (simp add: take_bit_eq_mod)
  moreover have "or (push_bit 4 (drop_bit 4 b)) (take_bit 4 b) = b"
    by (rule bit_word_eqI) (auto simp: bit_simps)
  ultimately show ?thesis by simp
qed

lemma length_lower_hex [simp]: "length (lower_hex bs) = 2 * length bs"
  by (induction bs) (simp_all add: lower_hex_def)

lemma lower_hex_Cons:
  "lower_hex (b # bs) = hex_digit (unat b div 16) # hex_digit (unat b mod 16) # lower_hex bs"
  by (simp add: lower_hex_def)

lemma hex_to_bytes_loop_append:
  "hex_to_bytes_loop (a # b # hs) (Suc i) n = hex_to_bytes_loop hs i n"
  by (induction n arbitrary: i) (auto split: option.splits)

lemma hex_to_bytes_loop_lower_hex:
  "hex_to_bytes_loop (bytes_of (lower_hex bs)) 0 (length bs) = Some bs"
proof (induction bs)
  case (Cons b bs)
  have "unat b div 16 < 16" using unsigned_less [of b, where ?'a = nat] by simp
  then show ?case
    using Cons nibbles_join [of b]
    by (simp add: lower_hex_Cons bytes_of_def hex_to_bytes_loop_append hex_nibble_digit)
qed (simp add: lower_hex_def bytes_of_def)

lemma hex_to_bytes_lower_hex: "length bs = 32 \<Longrightarrow> hex_to_bytes (lower_hex bs) = Some bs"
  using hex_to_bytes_loop_lower_hex [of bs] by (simp add: hex_to_bytes_def)

lemma length_hex_to_bytes_loop: "hex_to_bytes_loop hs i n = Some bs \<Longrightarrow> length bs = n"
  by (induction n arbitrary: i bs) (auto split: option.splits if_splits)

lemma length_hex_to_bytes: "hex_to_bytes s = Some bs \<Longrightarrow> length bs = 32"
  by (auto simp: hex_to_bytes_def length_hex_to_bytes_loop split: if_splits)

lemma hex_to_bytes_hash_string [simp]:
  "extern_ok E \<Longrightarrow> hex_to_bytes (hash_string E s) = Some (hash_to_bytes E s)"
  by (simp add: extern_ok_def hash_string_def hash_to_bytes_def hex_to_bytes_lower_hex)

lemma ct_eq_ok [simp]: "extern_ok E \<Longrightarrow> ct_eq E a b \<longleftrightarrow> a = b"
  by (simp add: extern_ok_def)

lemma bytes_of_inj [simp]: "bytes_of a = bytes_of b \<longleftrightarrow> a = b"
proof -
  have "inj (of_char :: char \<Rightarrow> byte)"
  proof (rule injI)
    fix x y :: char
    assume "(of_char x :: byte) = of_char y"
    then have "unat (word_of_nat (of_char x) :: byte) = unat (word_of_nat (of_char y) :: byte)"
      by (simp only: of_nat_of_char)
    moreover have "(of_char x :: nat) < 2 ^ 8" "(of_char y :: nat) < 2 ^ 8"
      using of_char_mod_256 [of x, where ?'a = nat] of_char_mod_256 [of y, where ?'a = nat]
      by (simp_all add: mod_eq_self_iff_div_eq_0)
    ultimately show "x = y" by (simp add: unsigned_of_nat take_bit_nat_eq_self)
  qed
  then show ?thesis by (simp add: bytes_of_def inj_map_eq_map)
qed


section \<open>The cache is the image of the table\<close>

lemma model_cached_of [simp]: "model (cached_of E m) = m"
  by (simp add: cached_of_def)

lemma build_maps_loop_maps:
  "build_maps_loop E ms (bk, bu, st) = (bk', bu', st') \<Longrightarrow>
     hm_get bk' k = (case tbl_find (\<lambda>m. m_token_key m = k) (rev ms) of
                       None \<Rightarrow> hm_get bk k | Some m \<Rightarrow> Some (cached_of E m))
     \<and> hm_get bu' u = (case tbl_find (\<lambda>m. m_username m = Some u) (rev ms) of
                       None \<Rightarrow> hm_get bu u | Some m \<Rightarrow> Some (cached_of E m))
     \<and> st' = (case tbl_find (\<lambda>m. m_id m = 1) (rev ms) of
                       None \<Rightarrow> st | Some m \<Rightarrow> Some (cached_of E m))"
proof (induction ms arbitrary: bk bu st)
  case (Cons m ms)
  show ?case
    using Cons.IH [OF Cons.prems [unfolded build_maps_loop.simps Let_def]]
    by (auto simp: tbl_find_append split: option.splits if_splits)
qed simp

lemma build_maps_loop_wf:
  "build_maps_loop E ms (bk, bu, st) = (bk', bu', st') \<Longrightarrow> hm_wf bk \<Longrightarrow> hm_wf bk'"
  by (induction ms arbitrary: bk bu st) (auto simp: Let_def)

text \<open>Lookups in a cache filled from a table with its unique constraints are queries of the table.\<close>

definition row_by_key :: "token_model list \<Rightarrow> string \<Rightarrow> token_model option" where
  "row_by_key rows k = tbl_find (\<lambda>m. m_token_key m = k) rows"

definition row_by_username :: "token_model list \<Rightarrow> string \<Rightarrow> token_model option" where
  "row_by_username rows u = tbl_find (\<lambda>m. m_username m = Some u) rows"

definition row_super :: "token_model list \<Rightarrow> token_model option" where
  "row_super rows = tbl_find (\<lambda>m. m_id m = 1) rows"

definition token_coherent :: "extern \<Rightarrow> token_model list \<Rightarrow> token_world \<Rightarrow> bool" where
  "token_coherent E rows w \<longleftrightarrow>
     (case build_maps E rows of (bk, bu, st) \<Rightarrow>
        cache_global w = Some \<lparr> by_key = bk, by_username = bu \<rparr> \<and> super_token_global w = st)"

lemma build_maps_queries:
  assumes "token_table_ok rows" "build_maps E rows = (bk, bu, st)"
  shows "hm_get bk k = map_option (cached_of E) (row_by_key rows k)"
    and "hm_get bu u = map_option (cached_of E) (row_by_username rows u)"
    and "st = map_option (cached_of E) (row_super rows)"
    and "hm_wf bk"
proof -
  note * = build_maps_loop_maps [OF assms(2) [unfolded build_maps_def]]
  have un: "unique_on (\<lambda>m. Some (m_token_key m)) rows" "unique_on m_username rows"
    "unique_on (\<lambda>m. Some (m_id m)) rows"
    using assms(1) by (simp_all add: token_table_ok_def)
  have rev1: "tbl_find (\<lambda>m. m_token_key m = k) (rev rows) = row_by_key rows k"
    using tbl_find_rev_unique [OF un(1), of k] by (simp add: row_by_key_def)
  have rev2: "tbl_find (\<lambda>m. m_username m = Some u) (rev rows) = row_by_username rows u"
    using tbl_find_rev_unique [OF un(2), of u] by (simp add: row_by_username_def)
  have rev3: "tbl_find (\<lambda>m. m_id m = 1) (rev rows) = row_super rows"
    using tbl_find_rev_unique [OF un(3), of 1] by (simp add: row_super_def)
  show "hm_get bk k = map_option (cached_of E) (row_by_key rows k)"
    using * [of k u] rev1 by (simp split: option.splits)
  show "hm_get bu u = map_option (cached_of E) (row_by_username rows u)"
    using * [of k u] rev2 by (simp split: option.splits)
  show "st = map_option (cached_of E) (row_super rows)"
    using * [of k u] rev3 by (simp split: option.splits)
  show "hm_wf bk"
    using build_maps_loop_wf [OF assms(2) [unfolded build_maps_def]] by simp
qed

lemma token_coherentD:
  assumes "token_coherent E rows w" "token_table_ok rows"
  obtains c where "cache_global w = Some c"
    and "\<And>k. hm_get (by_key c) k = map_option (cached_of E) (row_by_key rows k)"
    and "\<And>u. hm_get (by_username c) u = map_option (cached_of E) (row_by_username rows u)"
    and "super_token_global w = map_option (cached_of E) (row_super rows)"
    and "hm_wf (by_key c)"
proof -
  obtain bk bu st where b: "build_maps E rows = (bk, bu, st)" by (metis prod_cases3)
  have "cache_global w = Some \<lparr> by_key = bk, by_username = bu \<rparr>" "super_token_global w = st"
    using assms(1) b by (simp_all add: token_coherent_def)
  then show thesis
    using build_maps_queries [OF assms(2) b]
    by (intro that [of "\<lparr> by_key = bk, by_username = bu \<rparr>"]) simp_all
qed

interpretation token_db_cache: db_backed_cache
  cache_is_set token_rows "load_all E flt" "build_cache E" cache_put "reload_from_models E"
  "token_coherent E"
proof unfold_locales
  fix ms :: "token_model list" and w w1 :: token_world and c :: token_cache
  show "load_all E flt w = Inr ms \<Longrightarrow> ms = token_rows w"
    by (simp add: load_all_def)
  show "load_all E flt (snd (build_cache E ms w)) = load_all E flt w"
    "cache_is_set (snd (build_cache E ms w)) = cache_is_set w"
    "token_rows (snd (build_cache E ms w)) = token_rows w"
    by (auto simp: build_cache_def load_all_def cache_is_set_def split: prod.splits)
  show "token_rows (cache_put c w) = token_rows w"
    by (simp add: cache_put_def)
  show "token_rows (reload_from_models E ms w) = token_rows w"
    by (auto simp: reload_from_models_def Let_def split: prod.splits)
  show "build_cache E ms w = (c, w1) \<Longrightarrow> token_coherent E ms (cache_put c w1)"
    by (auto simp: build_cache_def token_coherent_def cache_put_def split: prod.splits)
  show "cache_is_set w \<Longrightarrow> token_coherent E ms (reload_from_models E ms w)"
    by (auto simp: reload_from_models_def token_coherent_def cache_is_set_def Let_def
        split: prod.splits)
  show "token_coherent E ms w \<Longrightarrow> cache_is_set w"
    by (auto simp: token_coherent_def cache_is_set_def split: prod.splits)
qed

end
