(* ===== verification/Token_Check.thy ===== *)
theory Token_Check
  imports Token_Cache
begin

text \<open>
  \<^verbatim>\<open>ng-token/src/get.rs\<close> and \<^verbatim>\<open>check_super_token\<close> of
  \<^verbatim>\<open>super_token.rs\<close>: who a credential is and what it may do.  The trait
  \<^verbatim>\<open>PermissionChecker\<close> through which the other crates ask is the locale
  \<open>permission_checker\<close>.
\<close>


section \<open>Operations\<close>

definition cache_of :: "token_world \<Rightarrow> token_cache any_result" where
  "cache_of w = ok_or (Nodeget (ConfigNotFound ''TokenCache not initialized'')) (cache_global w)"

definition token_of_cached :: "cached_token \<Rightarrow> token" where
  "token_of_cached c =
     \<lparr> version = m_version (model c), token_key = m_token_key (model c),
       timestamp_from = m_time_stamp_from (model c), timestamp_to = m_time_stamp_to (model c),
       token_limit = parsed_limits c, username = m_username (model c) \<rparr>"

definition get_token :: "extern \<Rightarrow> token_world \<Rightarrow> token_or_auth \<Rightarrow> token any_result" where
  "get_token E w token_or_auth =
     rbind (cache_of w) (\<lambda>cache.
     rbind (case token_or_auth of
         Token key secret \<Rightarrow>
           rbind (ok_or (Nodeget (PermissionDenied AUTH_FAILED_MESSAGE)) (find_by_key cache key))
             (\<lambda>entry.
               if \<not> ct_eq E (hash_to_bytes E secret) (token_hash_bytes entry)
               then err (PermissionDenied AUTH_FAILED_MESSAGE) else Inr entry)
       | Auth uname password \<Rightarrow>
           rbind (ok_or (Nodeget (PermissionDenied AUTH_FAILED_MESSAGE))
                    (find_by_username cache uname))
             (\<lambda>entry.
               case password_hash_bytes entry of
                 None \<Rightarrow> err (PermissionDenied AUTH_FAILED_MESSAGE)
               | Some stored \<Rightarrow>
                   if \<not> ct_eq E (hash_to_bytes E password) stored
                   then err (PermissionDenied AUTH_FAILED_MESSAGE) else Inr entry))
       (\<lambda>cached_token. Inr (token_of_cached cached_token)))"

definition get_token_by_key_or_username :: "token_world \<Rightarrow> string \<Rightarrow> token any_result" where
  "get_token_by_key_or_username w identifier =
     rbind (cache_of w) (\<lambda>cache.
     rbind (case find_by_key cache identifier of
              Some entry \<Rightarrow> Inr entry
            | None \<Rightarrow>
                ok_or (Nodeget (NotFound (''Token not found by key/username: '' @ identifier)))
                  (find_by_username cache identifier))
       (\<lambda>cached_token. Inr (token_of_cached cached_token)))"

definition check_super_token :: "extern \<Rightarrow> token_world \<Rightarrow> token_or_auth \<Rightarrow> bool any_result" where
  "check_super_token E w token_or_auth =
     rbind (cache_of w) (\<lambda>_.
     rbind (ok_or (Nodeget (NotFound ''Super Token record (ID 1) not found in cache''))
              (get_super_token w)) (\<lambda>super_entry.
       case token_or_auth of
         Token key secret \<Rightarrow>
           if \<not> ct_eq E (bytes_of key) (bytes_of (m_token_key (model super_entry))) then Inr False
           else Inr (ct_eq E (hash_to_bytes E secret) (token_hash_bytes super_entry))
       | Auth uname password \<Rightarrow>
           if \<not> (case m_username (model super_entry) of
                    None \<Rightarrow> False | Some u \<Rightarrow> ct_eq E (bytes_of u) (bytes_of uname))
           then Inr False
           else
             (case password_hash_bytes super_entry of
                None \<Rightarrow> Inr False
              | Some stored \<Rightarrow> Inr (ct_eq E (hash_to_bytes E password) stored))))"

text \<open>The two early returns of the validity window.\<close>

definition in_window :: "int \<Rightarrow> token \<Rightarrow> bool" where
  "in_window now t =
     (if (case timestamp_from t of None \<Rightarrow> False | Some from \<Rightarrow> now < from) then False
      else if (case timestamp_to t of None \<Rightarrow> False | Some to \<Rightarrow> now > to) then False
      else True)"

definition check_token_limit ::
  "extern \<Rightarrow> system_time \<Rightarrow> int \<Rightarrow> token_world \<Rightarrow> token_or_auth \<Rightarrow> scope list \<Rightarrow> permission list
     \<Rightarrow> bool any_result"
where
  "check_token_limit E clock ntp w token_or_auth req_scopes req_permissions =
     rbind (map_err (\<lambda>e. Nodeget (PermissionDenied (anyhow_display e)))
              (check_super_token E w token_or_auth)) (\<lambda>is_super_token.
       if is_super_token then Inr True
       else
         rbind (get_token E w token_or_auth) (\<lambda>token.
         rbind (get_local_timestamp_ms_i64 clock ntp) (\<lambda>now.
           if \<not> in_window now token then Inr False
           else
             Inr (list_all (\<lambda>req_scope.
                    list_all (\<lambda>req_perm. check_limits_cover (token_limit token) req_scope req_perm)
                      req_permissions)
                  req_scopes))))"


section \<open>What a credential is\<close>

text \<open>
  The reading of a credential off the table: the row it names, provided the
  stored hash is that of the given secret or password.
\<close>

definition credential_row :: "extern \<Rightarrow> token_model list \<Rightarrow> token_or_auth \<Rightarrow> token_model option" where
  "credential_row E rows cred =
     (case cred of
        Token key secret \<Rightarrow>
          Option.bind (row_by_key rows key) (\<lambda>m.
            if hash_to_bytes E secret = token_hash_bytes (cached_of E m) then Some m else None)
      | Auth uname password \<Rightarrow>
          Option.bind (row_by_username rows uname) (\<lambda>m.
            if password_hash_bytes (cached_of E m) = Some (hash_to_bytes E password)
            then Some m else None))"

lemma row_by_key_Some: "row_by_key rows k = Some m \<Longrightarrow> m \<in> set rows \<and> m_token_key m = k"
  by (auto simp: row_by_key_def dest: tbl_find_Some)

lemma row_by_username_Some:
  "row_by_username rows u = Some m \<Longrightarrow> m \<in> set rows \<and> m_username m = Some u"
  by (auto simp: row_by_username_def dest: tbl_find_Some)

lemma row_super_Some: "row_super rows = Some m \<Longrightarrow> m \<in> set rows \<and> m_id m = 1"
  by (auto simp: row_super_def dest: tbl_find_Some)

lemma row_by_key_mem:
  "token_table_ok rows \<Longrightarrow> m \<in> set rows \<Longrightarrow> row_by_key rows (m_token_key m) = Some m"
  using tbl_find_unique [of "\<lambda>m. Some (m_token_key m)" rows m "m_token_key m"]
  by (simp add: token_table_ok_def row_by_key_def)

lemma row_by_username_mem:
  "token_table_ok rows \<Longrightarrow> m \<in> set rows \<Longrightarrow> m_username m = Some u \<Longrightarrow> row_by_username rows u = Some m"
  using tbl_find_unique [of m_username rows m u]
  by (simp add: token_table_ok_def row_by_username_def)

lemma row_super_mem:
  "token_table_ok rows \<Longrightarrow> m \<in> set rows \<Longrightarrow> m_id m = 1 \<Longrightarrow> row_super rows = Some m"
  using tbl_find_unique [of "\<lambda>m. Some (m_id m)" rows m 1]
  by (simp add: token_table_ok_def row_super_def)

lemma super_id_unique:
  assumes "token_table_ok rows" "row_super rows = Some s" "m \<in> set rows"
  shows "m_id m = 1 \<longleftrightarrow> m = s"
proof
  assume "m_id m = 1"
  from row_super_mem [OF assms(1,3) this] assms(2) show "m = s" by simp
qed (use row_super_Some [OF assms(2)] in simp)

lemma credential_row_mem: "credential_row E rows cred = Some m \<Longrightarrow> m \<in> set rows"
  by (auto simp: credential_row_def bind_eq_Some_conv dest: row_by_key_Some row_by_username_Some
      split: token_or_auth.splits if_splits)

text \<open>
  The invariant of the crate's state: the constraints of the table, a super
  token, and a cache that was filled from the table as it is now.
\<close>

definition token_world_ok :: "extern \<Rightarrow> token_world \<Rightarrow> bool" where
  "token_world_ok E w \<longleftrightarrow>
     token_table_ok (token_rows w)
     \<and> row_super (token_rows w) \<noteq> None
     \<and> token_coherent E (token_rows w) w"

lemma token_world_view:
  assumes "token_world_ok E w"
  obtains c s where "cache_global w = Some c"
    and "row_super (token_rows w) = Some s"
    and "\<And>k. hm_get (by_key c) k = map_option (cached_of E) (row_by_key (token_rows w) k)"
    and "\<And>u. hm_get (by_username c) u = map_option (cached_of E) (row_by_username (token_rows w) u)"
    and "super_token_global w = Some (cached_of E s)"
    and "hm_wf (by_key c)"
proof -
  from assms obtain s where s: "row_super (token_rows w) = Some s"
    by (auto simp: token_world_ok_def)
  have "token_coherent E (token_rows w) w" "token_table_ok (token_rows w)"
    using assms by (simp_all add: token_world_ok_def)
  then show thesis
    by (rule token_coherentD) (rule that, assumption, rule s, simp_all add: s)
qed


definition token_of_row :: "extern \<Rightarrow> token_model \<Rightarrow> token" where
  "token_of_row E m = token_of_cached (cached_of E m)"

lemma token_hash_32: "length (token_hash_bytes (cached_of E m)) = 32"
  by (auto simp: cached_of_def length_hex_to_bytes split: option.splits)

lemma check_super_token_spec:
  assumes "extern_ok E" "token_world_ok E w"
  shows "check_super_token E w cred =
     Inr (case credential_row E (token_rows w) cred of None \<Rightarrow> False | Some m \<Rightarrow> m_id m = 1)"
proof -
  obtain c s where v: "cache_global w = Some c" "row_super (token_rows w) = Some s"
    "super_token_global w = Some (cached_of E s)"
    using token_world_view [OF assms(2)] by metis
  have tab: "token_table_ok (token_rows w)" using assms(2) by (simp add: token_world_ok_def)
  note s = row_super_Some [OF v(2)]
  note un = super_id_unique [OF tab v(2)]
  show ?thesis
  proof (cases cred)
    case (Token key secret)
    show ?thesis
    proof (cases "key = m_token_key s")
      case True
      with row_by_key_mem [OF tab] s have "row_by_key (token_rows w) key = Some s" by simp
      with True Token v s assms(1) show ?thesis
        by (simp add: check_super_token_def cache_of_def get_super_token_def credential_row_def)
    next
      case False
      then have "row_by_key (token_rows w) key = Some m \<Longrightarrow> m_id m \<noteq> 1" for m
        using un row_by_key_Some by blast
      with False Token v assms(1) show ?thesis
        by (auto simp: check_super_token_def cache_of_def get_super_token_def credential_row_def
            split: option.splits Option.bind_splits)
    qed
  next
    case (Auth uname password)
    show ?thesis
    proof (cases "m_username s = Some uname")
      case True
      with row_by_username_mem [OF tab] s have "row_by_username (token_rows w) uname = Some s" by simp
      with True Auth v s assms(1) show ?thesis
        by (auto simp: check_super_token_def cache_of_def get_super_token_def credential_row_def
            split: option.splits)
    next
      case False
      then have "row_by_username (token_rows w) uname = Some m \<Longrightarrow> m_id m \<noteq> 1" for m
        using un row_by_username_Some by blast
      with False Auth v assms(1) show ?thesis
        by (auto simp: check_super_token_def cache_of_def get_super_token_def credential_row_def
            split: option.splits Option.bind_splits)
    qed
  qed
qed

lemma get_token_spec:
  assumes "extern_ok E" "token_world_ok E w"
  shows "get_token E w cred =
     (case credential_row E (token_rows w) cred of
        None \<Rightarrow> err (PermissionDenied AUTH_FAILED_MESSAGE)
      | Some m \<Rightarrow> Inr (token_of_row E m))"
proof -
  obtain c where v: "cache_global w = Some c"
    "\<And>k. hm_get (by_key c) k = map_option (cached_of E) (row_by_key (token_rows w) k)"
    "\<And>u. hm_get (by_username c) u = map_option (cached_of E) (row_by_username (token_rows w) u)"
    using token_world_view [OF assms(2)] by metis
  show ?thesis
    using assms(1)
    by (cases cred)
       (auto simp: get_token_def cache_of_def v find_by_key_def find_by_username_def
          credential_row_def token_of_row_def ok_or_def split: option.splits Option.bind_splits)
qed

lemma authenticate_spec:
  assumes "extern_ok E" "token_world_ok E w" "cache_global w = Some c"
  shows "authenticate E w c cred =
     (case credential_row E (token_rows w) cred of
        None \<Rightarrow> err (PermissionDenied AUTH_FAILED_MESSAGE)
      | Some m \<Rightarrow> Inr (cached_of E m, m_id m = 1))"
proof -
  obtain s where v: "row_super (token_rows w) = Some s"
    "\<And>k. hm_get (by_key c) k = map_option (cached_of E) (row_by_key (token_rows w) k)"
    "\<And>u. hm_get (by_username c) u = map_option (cached_of E) (row_by_username (token_rows w) u)"
    "super_token_global w = Some (cached_of E s)"
    using token_world_view [OF assms(2)] assms(3) by (metis option.sel)
  have tab: "token_table_ok (token_rows w)" using assms(2) by (simp add: token_world_ok_def)
  note s = row_super_Some [OF v(1)]
  note un = super_id_unique [OF tab v(1)]
  show ?thesis
  proof (cases cred)
    case (Token key secret)
    have r: "row_by_key (token_rows w) key = Some m \<Longrightarrow> m_id m = 1 \<longleftrightarrow> key = m_token_key s" for m
      using un row_by_key_Some row_by_key_mem [OF tab] s by (metis option.inject)
    have "key = m_token_key s \<Longrightarrow> row_by_key (token_rows w) key = Some s"
      using row_by_key_mem [OF tab] s by simp
    with r Token v s assms(1) show ?thesis
      by (auto simp: authenticate_def get_super_token_def credential_row_def
          split: option.splits Option.bind_splits)
  next
    case (Auth uname password)
    have r: "row_by_username (token_rows w) uname = Some m \<Longrightarrow> m_id m = 1 \<longleftrightarrow> m_username s = Some uname" for m
      using un row_by_username_Some row_by_username_mem [OF tab] s by (metis option.inject)
    have "m_username s = Some uname \<Longrightarrow> row_by_username (token_rows w) uname = Some s"
      using row_by_username_mem [OF tab] s by simp
    with r Auth v s assms(1) show ?thesis
      by (auto simp: authenticate_def get_super_token_def credential_row_def
          split: option.splits Option.bind_splits)
  qed
qed


section \<open>What a credential may do\<close>

definition limits_grant :: "token \<Rightarrow> scope list \<Rightarrow> permission list \<Rightarrow> bool" where
  "limits_grant t ss ps \<longleftrightarrow> (\<forall>s\<in>set ss. \<forall>p\<in>set ps. check_limits_cover (token_limit t) s p)"

lemma in_window_iff:
  "in_window now t \<longleftrightarrow>
     (\<forall>a. timestamp_from t = Some a \<longrightarrow> a \<le> now) \<and> (\<forall>b. timestamp_to t = Some b \<longrightarrow> now \<le> b)"
  by (auto simp: in_window_def split: option.splits)

lemma check_token_limit_cases:
  "check_token_limit E clock ntp w cred ss ps =
     (case check_super_token E w cred of
        Inl e \<Rightarrow> err (PermissionDenied (anyhow_display e))
      | Inr True \<Rightarrow> Inr True
      | Inr False \<Rightarrow>
          rbind (get_token E w cred) (\<lambda>t.
          rbind (get_local_timestamp_ms_i64 clock ntp) (\<lambda>now.
            Inr (in_window now t \<and> limits_grant t ss ps))))"
  by (auto simp: check_token_limit_def limits_grant_def list_all_iff rbind_def
      split: sum.splits bool.splits)

text \<open>
  The trait \<^verbatim>\<open>PermissionChecker\<close>: what the crates that ask it rely on.  They
  never see the cache; a super token passes every check, and any other token
  passes exactly when it is authentic, inside its window and its limits cover
  every pair of a requested scope and permission.
\<close>

locale permission_checker =
  fixes chk_super :: "token_or_auth \<Rightarrow> bool any_result"
    and chk_get :: "token_or_auth \<Rightarrow> token any_result"
    and chk_now :: "int any_result"
    and chk_limit :: "token_or_auth \<Rightarrow> scope list \<Rightarrow> permission list \<Rightarrow> bool any_result"
  assumes limit_super: "chk_super c = Inr True \<Longrightarrow> chk_limit c ss ps = Inr True"
    and limit_token:
      "chk_super c = Inr False \<Longrightarrow>
         chk_limit c ss ps =
           rbind (chk_get c) (\<lambda>t. rbind chk_now (\<lambda>now. Inr (in_window now t \<and> limits_grant t ss ps)))"
    and limit_error:
      "chk_super c = Inl e \<Longrightarrow> chk_limit c ss ps = err (PermissionDenied (anyhow_display e))"
begin

lemma limit_mono:
  assumes "chk_limit c ss ps = Inr True" "set ss' \<subseteq> set ss" "set ps' \<subseteq> set ps"
  shows "chk_limit c ss' ps' = Inr True"
proof (cases "chk_super c")
  case (Inl e)
  with assms(1) limit_error show ?thesis by simp
next
  case (Inr b)
  then show ?thesis
    using assms limit_super limit_token
    by (cases b) (auto simp: result_simps limits_grant_def subset_iff)
qed

lemma limit_append:
  "chk_limit c (ss @ ss') ps = Inr True \<longleftrightarrow>
     chk_limit c ss ps = Inr True \<and> chk_limit c ss' ps = Inr True"
proof (cases "chk_super c")
  case (Inl e)
  with limit_error show ?thesis by simp
next
  case (Inr b)
  then show ?thesis
    using limit_super limit_token
    by (cases b) (auto simp: result_simps limits_grant_def)
qed

end

interpretation ng_token: permission_checker
  "check_super_token E w" "get_token E w" "get_local_timestamp_ms_i64 clock ntp"
  "check_token_limit E clock ntp w"
  by unfold_locales (simp_all add: check_token_limit_cases)

lemma check_token_limit_spec:
  assumes "extern_ok E" "token_world_ok E w" "get_local_timestamp_ms_i64 clock ntp = Inr now"
  shows "check_token_limit E clock ntp w cred ss ps =
     (case credential_row E (token_rows w) cred of
        None \<Rightarrow> err (PermissionDenied AUTH_FAILED_MESSAGE)
      | Some m \<Rightarrow> Inr (m_id m = 1 \<or>
           in_window now (token_of_row E m) \<and> limits_grant (token_of_row E m) ss ps))"
  by (cases "credential_row E (token_rows w) cred")
     (auto simp: check_token_limit_cases check_super_token_spec [OF assms(1,2)]
        get_token_spec [OF assms(1,2)] assms(3) split: bool.splits)

end
