(* ===== verification/Kv_Auth.thy ===== *)
theory Kv_Auth
  imports Kv_Store Token_Check
begin

text \<open>
  \<^verbatim>\<open>ng-kv/src/auth.rs\<close>: validation of namespaces, keys and key patterns and the
  permission checks of the key-value namespace.  Authentication is reached through
  a \<open>checker\<close>, the functions of \<^verbatim>\<open>ng-token\<close> (and of the registered
  \<^verbatim>\<open>PermissionChecker\<close>, which forwards to them) the crate calls.
\<close>


section \<open>Validation\<close>

definition validate_namespace :: "string \<Rightarrow> unit any_result" where
  "validate_namespace ns =
     (if ns = [] then err (InvalidInput ''Namespace cannot be empty'')
      else if contains_char ns (CHR ''*'')
      then err (InvalidInput (''Namespace cannot contain '' @ quoted ''*'' @ '' character''))
      else Inr ())"

definition validate_key :: "string \<Rightarrow> unit any_result" where
  "validate_key key =
     (if contains_char key (CHR ''*'')
      then err (InvalidInput (''Key cannot contain '' @ quoted ''*'' @ '' character''))
      else Inr ())"

definition validate_key_pattern :: "string \<Rightarrow> unit any_result" where
  "validate_key_pattern key =
     (if key = [] then err (InvalidInput ''Key cannot be empty'')
      else if \<not> contains_char key (CHR ''*'') then Inr ()
      else
        let star_count = length (filter (\<lambda>c. c = CHR ''*'') key)
        in if star_count \<noteq> 1 \<or> last key \<noteq> CHR ''*''
           then err (InvalidInput (''Wildcard key must contain exactly one '' @ quoted ''*''
                  @ '' and it must be at the end''))
           else Inr ())"


section \<open>Permission checks\<close>

record checker =
  ck_registered :: bool
  ck_super :: "token_or_auth \<Rightarrow> bool any_result"
  ck_get :: "token_or_auth \<Rightarrow> token any_result"
  ck_now :: "int any_result"

text \<open>\<open>ck_limit\<close> is the method \<^verbatim>\<open>check_token_limit\<close>, for the callers that use it.\<close>

record limit_checker = checker +
  ck_limit :: "token_or_auth \<Rightarrow> scope list \<Rightarrow> permission list \<Rightarrow> bool any_result"

datatype kv_token_state = Granted | Denied | TokenState token

definition parse_token :: "string \<Rightarrow> token_or_auth any_result" where
  "parse_token t =
     map_err (\<lambda>e. Nodeget (ParseError (''Failed to parse token: '' @ e))) (from_full_token t)"

definition resolve_token_for_kv_check :: "checker \<Rightarrow> token_or_auth \<Rightarrow> kv_token_state any_result" where
  "resolve_token_for_kv_check C cred =
     rbind (map_err (\<lambda>e. Nodeget (PermissionDenied (anyhow_display e))) (ck_super C cred))
       (\<lambda>is_super_token.
          if is_super_token then Inr Granted
          else
            rbind (ck_get C cred) (\<lambda>token.
            rbind (ck_now C) (\<lambda>now.
              if (case timestamp_from token of None \<Rightarrow> False | Some from \<Rightarrow> now < from) then Inr Denied
              else if (case timestamp_to token of None \<Rightarrow> False | Some to \<Rightarrow> now > to) then Inr Denied
              else Inr (TokenState token))))"

definition limits_cover_global_or_specific ::
  "limit list \<Rightarrow> scope \<Rightarrow> permission \<Rightarrow> permission \<Rightarrow> bool" where
  "limits_cover_global_or_specific limits sc global_perm specific_perm =
     (check_limits_cover limits sc global_perm \<or> check_limits_cover limits sc specific_perm)"

text \<open>
  The common tail of the checks: a super token passes, a token outside its
  window is denied, any other is asked for coverage.
\<close>

definition kv_decide :: "checker \<Rightarrow> string \<Rightarrow> string \<Rightarrow> (limit list \<Rightarrow> bool) \<Rightarrow> unit any_result" where
  "kv_decide C tok denied covered =
     rbind (parse_token tok) (\<lambda>cred.
     rbind (resolve_token_for_kv_check C cred) (\<lambda>st.
       case st of
         Granted \<Rightarrow> Inr ()
       | Denied \<Rightarrow> err (PermissionDenied denied)
       | TokenState t \<Rightarrow>
           if covered (token_limit t) then Inr () else err (PermissionDenied denied)))"

definition no_key_permission :: "string \<Rightarrow> string \<Rightarrow> string \<Rightarrow> string" where
  "no_key_permission what key ns =
     ''No '' @ what @ '' permission for key '' @ quoted key @ '' in namespace '' @ quoted ns"

definition check_kv_read_permission :: "checker \<Rightarrow> string \<Rightarrow> string \<Rightarrow> string \<Rightarrow> unit any_result" where
  "check_kv_read_permission C tok ns key =
     rbind (validate_namespace ns) (\<lambda>_.
     rbind (validate_key key) (\<lambda>_.
       kv_decide C tok (no_key_permission ''read'' key ns) (\<lambda>limits.
         limits_cover_global_or_specific limits (KvNamespace ns)
           (PKv (Kv_Read ''*'')) (PKv (Kv_Read key)))))"

definition check_kv_read_permission_with_pattern ::
  "checker \<Rightarrow> string \<Rightarrow> string \<Rightarrow> string \<Rightarrow> unit any_result" where
  "check_kv_read_permission_with_pattern C tok ns key_pattern =
     rbind (validate_namespace ns) (\<lambda>_.
     rbind (validate_key_pattern key_pattern) (\<lambda>_.
       kv_decide C tok (no_key_permission ''read'' key_pattern ns) (\<lambda>limits.
         limits_cover_global_or_specific limits (KvNamespace ns)
           (PKv (Kv_Read ''*'')) (PKv (Kv_Read key_pattern)))))"

definition check_kv_write_permission :: "checker \<Rightarrow> string \<Rightarrow> string \<Rightarrow> string \<Rightarrow> unit any_result" where
  "check_kv_write_permission C tok ns key =
     rbind (validate_namespace ns) (\<lambda>_.
     rbind (validate_key key) (\<lambda>_.
       kv_decide C tok (no_key_permission ''write'' key ns) (\<lambda>limits.
         limits_cover_global_or_specific limits (KvNamespace ns)
           (PKv (Kv_Write ''*'')) (PKv (Kv_Write key)))))"

definition check_kv_delete_permission :: "checker \<Rightarrow> string \<Rightarrow> string \<Rightarrow> string \<Rightarrow> unit any_result" where
  "check_kv_delete_permission C tok ns key =
     rbind (validate_namespace ns) (\<lambda>_.
     rbind (validate_key key) (\<lambda>_.
       kv_decide C tok (no_key_permission ''delete'' key ns) (\<lambda>limits.
         limits_cover_global_or_specific limits (KvNamespace ns)
           (PKv (Kv_Delete ''*'')) (PKv (Kv_Delete key)))))"

definition check_kv_delete_namespace_permission :: "checker \<Rightarrow> string \<Rightarrow> string \<Rightarrow> unit any_result" where
  "check_kv_delete_namespace_permission C tok ns =
     rbind (validate_namespace ns) (\<lambda>_.
       kv_decide C tok (''No permission to delete namespace '' @ quoted ns) (\<lambda>limits.
         check_limits_cover limits (KvNamespace ns) (PKv (Kv_Delete ''*''))))"

definition check_kv_list_keys_permission :: "checker \<Rightarrow> string \<Rightarrow> string \<Rightarrow> unit any_result" where
  "check_kv_list_keys_permission C tok ns =
     rbind (validate_namespace ns) (\<lambda>_.
       kv_decide C tok (''No permission to list keys in namespace '' @ quoted ns) (\<lambda>limits.
         check_limits_cover limits (KvNamespace ns) (PKv Kv_ListAllKeys)))"

definition get_checker :: "checker \<Rightarrow> unit any_result" where
  "get_checker C =
     (if ck_registered C then Inr ()
      else err (ConfigNotFound ''PermissionChecker not initialized''))"

datatype kv_namespace_list_permission = NsAll | NsScoped "string list"

text \<open>
  The two nested loops over limits and scopes collect the allowed namespaces into
  a set; a global scope leaves both loops at once (\<^const>\<open>None\<close>).
\<close>

fun collect_scopes :: "scope list \<Rightarrow> string list \<Rightarrow> string list option" where
  "collect_scopes [] acc = Some acc"
| "collect_scopes (Global # scs) acc = None"
| "collect_scopes (KvNamespace ns # scs) acc = collect_scopes scs (List.insert ns acc)"
| "collect_scopes (sc # scs) acc = collect_scopes scs acc"

fun collect_namespaces :: "limit list \<Rightarrow> string list \<Rightarrow> string list option" where
  "collect_namespaces [] acc = Some acc"
| "collect_namespaces (limit # limits) acc =
     (if \<not> list_ex (\<lambda>perm. perm = PKv Kv_ListAllNamespace) (permissions limit)
      then collect_namespaces limits acc
      else
        (case collect_scopes (scopes limit) acc of
           None \<Rightarrow> None
         | Some acc' \<Rightarrow> collect_namespaces limits acc'))"

definition resolve_kv_list_namespace_permission ::
  "checker \<Rightarrow> string \<Rightarrow> kv_namespace_list_permission any_result" where
  "resolve_kv_list_namespace_permission C tok =
     rbind (get_checker C) (\<lambda>_.
     rbind (parse_token tok) (\<lambda>cred.
     rbind (map_err (\<lambda>e. Nodeget (PermissionDenied (anyhow_display e))) (ck_super C cred))
       (\<lambda>is_super_token.
          if is_super_token then Inr NsAll
          else
            rbind (ck_get C cred) (\<lambda>token.
            rbind (ck_now C) (\<lambda>now.
              if (case timestamp_from token of None \<Rightarrow> False | Some from \<Rightarrow> now < from)
              then err (PermissionDenied ''Token is not yet valid for listing KV namespaces'')
              else if (case timestamp_to token of None \<Rightarrow> False | Some to \<Rightarrow> now > to)
              then err (PermissionDenied ''Token has expired for listing KV namespaces'')
              else
                (case collect_namespaces (token_limit token) [] of
                   None \<Rightarrow> Inr NsAll
                 | Some allowed \<Rightarrow>
                     if allowed \<noteq> [] then Inr (NsScoped allowed)
                     else err (PermissionDenied ''No permission to list KV namespaces'')))))))"

definition check_kv_create_permission :: "checker \<Rightarrow> string \<Rightarrow> unit any_result" where
  "check_kv_create_permission C tok =
     rbind (get_checker C) (\<lambda>_.
     rbind (parse_token tok) (\<lambda>cred.
     rbind (map_err (\<lambda>e. Nodeget (PermissionDenied (anyhow_display e))) (ck_super C cred))
       (\<lambda>is_super_token.
          if is_super_token then Inr ()
          else err (PermissionDenied ''Only SuperToken can create KV namespace''))))"


section \<open>What the checks decide\<close>

definition kv_grants :: "checker \<Rightarrow> token_or_auth \<Rightarrow> (limit list \<Rightarrow> bool) \<Rightarrow> bool" where
  "kv_grants C cred covered \<longleftrightarrow>
     ck_super C cred = Inr True \<or>
     ck_super C cred = Inr False \<and>
       (\<exists>t now. ck_get C cred = Inr t \<and> ck_now C = Inr now \<and> in_window now t
          \<and> covered (token_limit t))"

lemma resolve_token_cases:
  "resolve_token_for_kv_check C cred =
     (case ck_super C cred of
        Inl e \<Rightarrow> err (PermissionDenied (anyhow_display e))
      | Inr True \<Rightarrow> Inr Granted
      | Inr False \<Rightarrow>
          rbind (ck_get C cred) (\<lambda>t. rbind (ck_now C) (\<lambda>now.
            Inr (if in_window now t then TokenState t else Denied))))"
  by (auto simp: resolve_token_for_kv_check_def in_window_def rbind_def
      split: sum.splits bool.splits option.splits)

lemma parse_token_Inr: "parse_token t = Inr c \<longleftrightarrow> from_full_token t = Inr c"
  by (simp add: parse_token_def result_simps)

lemma kv_decide_Inr:
  "kv_decide C tok denied covered = Inr () \<longleftrightarrow>
     (\<exists>cred. from_full_token tok = Inr cred \<and> kv_grants C cred covered)"
proof (cases "from_full_token tok")
  case (Inr cred)
  then have p: "parse_token tok = Inr cred" by (simp add: parse_token_Inr)
  show ?thesis
  proof (cases "ck_super C cred")
    case (Inr b)
    then show ?thesis
      using p \<open>from_full_token tok = Inr cred\<close>
      by (cases b; cases "ck_get C cred"; cases "ck_now C")
         (auto simp: kv_decide_def resolve_token_cases kv_grants_def)
  qed (use p \<open>from_full_token tok = Inr cred\<close> in
      \<open>simp add: kv_decide_def resolve_token_cases kv_grants_def\<close>)
qed (simp add: kv_decide_def parse_token_def)

lemma kv_grants_mono:
  "kv_grants C cred P \<Longrightarrow> (\<And>ls. P ls \<Longrightarrow> Q ls) \<Longrightarrow> kv_grants C cred Q"
  by (auto simp: kv_grants_def)

lemma kv_grants_disj:
  "kv_grants C cred (\<lambda>ls. P ls \<or> Q ls) \<longleftrightarrow> kv_grants C cred P \<or> kv_grants C cred Q"
  by (auto simp: kv_grants_def)

lemmas kv_check_defs = check_kv_read_permission_def check_kv_write_permission_def
  check_kv_delete_permission_def check_kv_read_permission_with_pattern_def
  check_kv_delete_namespace_permission_def check_kv_list_keys_permission_def

definition client_checker ::
  "(token_or_auth \<Rightarrow> bool any_result) \<Rightarrow> (token_or_auth \<Rightarrow> token any_result) \<Rightarrow> int any_result \<Rightarrow> checker" where
  "client_checker super get now = \<lparr> ck_registered = True, ck_super = super, ck_get = get, ck_now = now \<rparr>"

text \<open>
  The checks take the token once and match in memory; by the contract of the
  permission checker this is the same as asking it about the global permission and
  then about the specific one.
\<close>

context permission_checker
begin

lemma grants_limit:
  "kv_grants (client_checker chk_super chk_get chk_now) c (\<lambda>ls. check_limits_cover ls sc p) \<longleftrightarrow>
     chk_limit c [sc] [p] = Inr True"
proof (cases "chk_super c")
  case (Inl e)
  with limit_error [OF Inl] show ?thesis by (simp add: kv_grants_def client_checker_def)
next
  case (Inr b)
  then show ?thesis
    using limit_super limit_token
    by (cases b) (auto simp: kv_grants_def client_checker_def result_simps limits_grant_def)
qed

lemma decide_specific:
  "kv_decide (client_checker chk_super chk_get chk_now) tok denied
       (\<lambda>ls. limits_cover_global_or_specific ls sc p q) = Inr () \<longleftrightarrow>
     (\<exists>c. from_full_token tok = Inr c
        \<and> (chk_limit c [sc] [p] = Inr True \<or> chk_limit c [sc] [q] = Inr True))"
  by (simp add: kv_decide_Inr limits_cover_global_or_specific_def kv_grants_disj grants_limit)

end

definition token_checker :: "extern \<Rightarrow> system_time \<Rightarrow> int \<Rightarrow> token_world \<Rightarrow> checker" where
  "token_checker E clock ntp w =
     client_checker (check_super_token E w) (get_token E w) (get_local_timestamp_ms_i64 clock ntp)"

lemma validate_namespace_Inr: "validate_namespace ns = Inr () \<longleftrightarrow> ns \<noteq> [] \<and> CHR ''*'' \<notin> set ns"
  by (auto simp: validate_namespace_def contains_char_iff)

lemma validate_key_Inr: "validate_key k = Inr () \<longleftrightarrow> CHR ''*'' \<notin> set k"
  by (auto simp: validate_key_def contains_char_iff)

lemma validate_key_pattern_Inr:
  "validate_key_pattern k = Inr () \<longleftrightarrow>
     k \<noteq> [] \<and> (CHR ''*'' \<notin> set k \<or> (\<exists>p. k = p @ ''*'' \<and> CHR ''*'' \<notin> set p))"
proof (cases k rule: rev_cases)
  case (snoc p c)
  have "length (filter (\<lambda>c. c = CHR ''*'') p) = 0 \<longleftrightarrow> CHR ''*'' \<notin> set p"
    by (induction p) auto
  with snoc show ?thesis
    by (auto simp: validate_key_pattern_def contains_char_iff Let_def)
qed (simp add: validate_key_pattern_def)

lemma collect_scopes_spec:
  "collect_scopes scs acc =
     (if Global \<in> set scs then None
      else Some (fold (\<lambda>sc acc. case sc of KvNamespace ns \<Rightarrow> List.insert ns acc | _ \<Rightarrow> acc) scs acc))"
  by (induction scs acc rule: collect_scopes.induct) auto

lemma set_collect_scopes:
  "collect_scopes scs acc = Some r \<Longrightarrow> set r = set acc \<union> {ns. KvNamespace ns \<in> set scs}"
  by (induction scs acc rule: collect_scopes.induct) auto

lemma collect_namespaces_None:
  "collect_namespaces ls acc = None \<longleftrightarrow>
     (\<exists>l\<in>set ls. PKv Kv_ListAllNamespace \<in> set (permissions l) \<and> Global \<in> set (scopes l))"
  by (induction ls arbitrary: acc)
     (auto simp: collect_scopes_spec list_ex_iff split: option.splits if_splits)

lemma set_collect_namespaces:
  "collect_namespaces ls acc = Some r \<Longrightarrow>
     set r = set acc \<union>
       {ns. \<exists>l\<in>set ls. PKv Kv_ListAllNamespace \<in> set (permissions l) \<and> KvNamespace ns \<in> set (scopes l)}"
proof (induction ls arbitrary: acc)
  case (Cons l ls)
  show ?case
  proof (cases "PKv Kv_ListAllNamespace \<in> set (permissions l)")
    case True
    with Cons.prems obtain acc' where "collect_scopes (scopes l) acc = Some acc'"
      "collect_namespaces ls acc' = Some r"
      by (auto simp: list_ex_iff split: option.splits)
    with Cons.IH set_collect_scopes True show ?thesis by fastforce
  next
    case False
    with Cons show ?thesis by (auto simp: list_ex_iff split: if_splits)
  qed
qed simp

lemma permission_matches_list_ns:
  "permission_matches q (PKv Kv_ListAllNamespace) \<longleftrightarrow> q = PKv Kv_ListAllNamespace"
  by (cases q) (auto simp: permission_matches_def
      split: kv_perm.splits task_perm.splits crontab_result_perm.splits js_result_perm.splits)

lemma list_ns_cover:
  "check_limits_cover ls (KvNamespace ns) (PKv Kv_ListAllNamespace) \<longleftrightarrow>
     (case collect_namespaces ls [] of None \<Rightarrow> True | Some allowed \<Rightarrow> ns \<in> set allowed)"
proof (cases "collect_namespaces ls []")
  case None
  with collect_namespaces_None [of ls "[]"] show ?thesis
    by (auto simp: check_limits_cover_iff permission_matches_list_ns scope_matches_ns_iff)
next
  case (Some r)
  with set_collect_namespaces [OF Some] collect_namespaces_None [of ls "[]"] show ?thesis
    by (auto simp: check_limits_cover_iff permission_matches_list_ns scope_matches_ns_iff)
qed

end
