(* ===== verification/Token_Admin.thy ===== *)
theory Token_Admin
  imports Token_Check
begin

text \<open>
  The operations that change the token table: \<^verbatim>\<open>generate_token.rs\<close>,
  \<^verbatim>\<open>super_token.rs\<close> and the handlers of \<^verbatim>\<open>ng-token/src/rpc\<close>.  Random
  strings and the identifier the database assigns to a new row are arguments;
  every query consults the fault plan first.
\<close>


section \<open>Table statements\<close>

definition row_conflict :: "token_model \<Rightarrow> token_model list \<Rightarrow> bool" where
  "row_conflict m rows =
     list_ex (\<lambda>r. m_id r = m_id m \<or> m_token_key r = m_token_key m
                  \<or> m_username m \<noteq> None \<and> m_username r = m_username m) rows"

definition insert_row ::
  "token_faults \<Rightarrow> token_site \<Rightarrow> token_model \<Rightarrow> token_model list \<Rightarrow> db_err + token_model list"
where
  "insert_row flt site m rows =
     (case flt site of
        Some e \<Rightarrow> Inl e
      | None \<Rightarrow>
          if row_conflict m rows then Inl (UniqueConstraintViolation ''token'')
          else Inr (rows @ [m]))"

definition update_row ::
  "token_faults \<Rightarrow> (token_model \<Rightarrow> token_model) \<Rightarrow> token_model \<Rightarrow> token_model list
     \<Rightarrow> db_err + token_model \<times> token_model list"
where
  "update_row flt f target rows =
     (case flt UpdateToken of
        Some e \<Rightarrow> Inl e
      | None \<Rightarrow> Inr (f target, tbl_update (\<lambda>r. m_id r = m_id target) f rows))"

definition find_row ::
  "token_faults \<Rightarrow> token_site \<Rightarrow> (token_model \<Rightarrow> bool) \<Rightarrow> token_model list
     \<Rightarrow> db_err + token_model option"
where
  "find_row flt site P rows =
     (case flt site of Some e \<Rightarrow> Inl e | None \<Rightarrow> Inr (tbl_find P rows))"

definition db_error :: "extern \<Rightarrow> string \<Rightarrow> db_err \<Rightarrow> anyhow_error" where
  "db_error E what e = Nodeget (DatabaseError (what @ db_err_display E e))"

definition reload_logged :: "extern \<Rightarrow> token_faults \<Rightarrow> token_world \<Rightarrow> token_world" where
  "reload_logged E flt w = snd (token_cache_reload E flt w)"


section \<open>Creating tokens\<close>

definition has_separator :: "string option \<Rightarrow> bool" where
  "has_separator s =
     (case s of None \<Rightarrow> False
      | Some x \<Rightarrow> contains_char x (CHR '':'') \<or> contains_char x (CHR ''|''))"

definition separators :: string where
  "separators = [CHR 0x27, CHR '':'', CHR 0x27] @ '' or '' @ [CHR 0x27, CHR ''|'', CHR 0x27] @ '' characters''"

definition super_only :: "extern \<Rightarrow> token_world \<Rightarrow> token_or_auth \<Rightarrow> string \<Rightarrow> unit any_result" where
  "super_only E w cred msg =
     rbind (map_err (\<lambda>e. Nodeget (PermissionDenied (anyhow_display e))) (check_super_token E w cred))
       (\<lambda>is_super. if \<not> is_super then err (PermissionDenied msg) else Inr ())"

definition new_token_row ::
  "extern \<Rightarrow> int \<Rightarrow> string \<Rightarrow> string \<Rightarrow> int option \<Rightarrow> int option \<Rightarrow> json \<Rightarrow> string option
     \<Rightarrow> string option \<Rightarrow> token_model"
where
  "new_token_row E auto_id rnd_key rnd_secret ts_from ts_to limit_json uname pw =
     \<lparr> m_id = auto_id, m_version = 1, m_token_key = rnd_key,
       m_token_hash = hash_string E rnd_secret,
       m_time_stamp_from = ts_from, m_time_stamp_to = ts_to,
       m_token_limit = limit_json, m_username = uname,
       m_password_hash = map_option (hash_string E) pw \<rparr>"

definition generate_and_store_token ::
  "extern \<Rightarrow> token_faults \<Rightarrow> int \<Rightarrow> string \<Rightarrow> string \<Rightarrow> token_or_auth \<Rightarrow> int option \<Rightarrow> int option
     \<Rightarrow> limit list \<Rightarrow> string option \<Rightarrow> string option \<Rightarrow> token_world
     \<Rightarrow> (string \<times> string) any_result \<times> token_world"
where
  "generate_and_store_token E flt auto_id rnd_key rnd_secret father ts_from ts_to limits uname pw w =
     (case super_only E w father ''Permission Denied: Only Super Token can create new tokens'' of
        Inl e \<Rightarrow> (Inl e, w)
      | Inr _ \<Rightarrow>
        if \<not> db_ready w
        then (err (ConfigNotFound ''Database connection not initialized''), w)
        else if (uname \<noteq> None) \<noteq> (pw \<noteq> None)
        then (err (ParseError ''Username and Password must be both provided or both absent''), w)
        else if has_separator uname
        then (err (InvalidInput (''Username cannot contain '' @ separators)), w)
        else if has_separator pw
        then (err (InvalidInput (''Password cannot contain '' @ separators)), w)
        else
          (case limits_to_value E limits of
             Inl e \<Rightarrow> (err (SerializationError (''Failed to serialize token limits: '' @ e)), w)
           | Inr token_limit_json \<Rightarrow>
               (case insert_row flt InsertToken
                       (new_token_row E auto_id rnd_key rnd_secret ts_from ts_to token_limit_json
                          uname pw) (token_rows w) of
                  Inl e \<Rightarrow> (Inl (db_error E ''Database insert error: '' e), w)
                | Inr rows' \<Rightarrow>
                    (Inr (rnd_key, rnd_secret), reload_logged E flt (w\<lparr> token_rows := rows' \<rparr>)))))"


section \<open>The super token\<close>

definition super_row :: "extern \<Rightarrow> string \<Rightarrow> string \<Rightarrow> string \<Rightarrow> token_model" where
  "super_row E rnd_key rnd_secret raw_password =
     \<lparr> m_id = 1, m_version = 1, m_token_key = rnd_key, m_token_hash = hash_string E rnd_secret,
       m_time_stamp_from = None, m_time_stamp_to = None, m_token_limit = JArray [],
       m_username = Some ''root'', m_password_hash = Some (hash_string E raw_password) \<rparr>"

definition full_token :: "string \<Rightarrow> string \<Rightarrow> string" where
  "full_token key secret = key @ '':'' @ secret"

definition insert_new_super_token ::
  "extern \<Rightarrow> token_faults \<Rightarrow> string \<Rightarrow> string \<Rightarrow> string \<Rightarrow> token_model list
     \<Rightarrow> db_err + (string \<times> string) \<times> token_model list"
where
  "insert_new_super_token E flt rnd_key rnd_secret raw_password rows =
     rbind (insert_row flt TxnInsertSuper (super_row E rnd_key rnd_secret raw_password) rows)
       (\<lambda>rows'. Inr ((full_token rnd_key rnd_secret, raw_password), rows'))"

definition generate_super_token ::
  "extern \<Rightarrow> token_faults \<Rightarrow> string \<Rightarrow> string \<Rightarrow> string \<Rightarrow> token_world
     \<Rightarrow> (string \<times> string) option any_result \<times> token_world"
where
  "generate_super_token E flt rnd_key rnd_secret raw_password w =
     (if \<not> db_ready w
      then (err (DatabaseError ''Database connection not initialized''), w)
      else
        (case insert_new_super_token E flt rnd_key rnd_secret raw_password (token_rows w) of
           Inr (result, rows') \<Rightarrow>
             (Inr (Some result), reload_logged E flt (w\<lparr> token_rows := rows' \<rparr>))
         | Inl e \<Rightarrow>
             if is_unique_violation e then (Inr None, w)
             else (Inl (db_error E ''Failed to initialize super token: '' e), w)))"

text \<open>
  The transaction of \<^verbatim>\<open>roll_super_token\<close>: its statements work on a copy of the
  table that replaces the table when the commit succeeds.
\<close>

definition roll_txn ::
  "extern \<Rightarrow> token_faults \<Rightarrow> string \<Rightarrow> string \<Rightarrow> string \<Rightarrow> token_model list
     \<Rightarrow> db_err + (string \<times> string) \<times> token_model list"
where
  "roll_txn E flt rnd_key rnd_secret raw_password rows =
     (case flt TxnDeleteSuper of
        Some e \<Rightarrow> Inl e
      | None \<Rightarrow>
          rbind (insert_row flt TxnInsertSuper (super_row E rnd_key rnd_secret raw_password)
                   (tbl_delete (\<lambda>r. m_id r = 1) rows)) (\<lambda>rows'.
            case flt TxnCommit of
              Some e \<Rightarrow> Inl e
            | None \<Rightarrow> Inr ((full_token rnd_key rnd_secret, raw_password), rows')))"

definition roll_super_token ::
  "extern \<Rightarrow> token_faults \<Rightarrow> string \<Rightarrow> string \<Rightarrow> string \<Rightarrow> token_world
     \<Rightarrow> (string \<times> string) any_result \<times> token_world"
where
  "roll_super_token E flt rnd_key rnd_secret raw_password w =
     (if \<not> db_ready w
      then (err (DatabaseError ''Database connection not initialized''), w)
      else
        (case roll_txn E flt rnd_key rnd_secret raw_password (token_rows w) of
           Inl e \<Rightarrow> (Inl (db_error E ''Transaction failed: '' e), w)
         | Inr (result, rows') \<Rightarrow>
             (Inr result, reload_logged E flt (w\<lparr> token_rows := rows' \<rparr>))))"


section \<open>Helpers of the handlers\<close>

definition extract_target_identifier :: "string \<Rightarrow> string" where
  "extract_target_identifier identifier =
     (case split_once (CHR '':'') identifier of
        Some (k, _) \<Rightarrow> k
      | None \<Rightarrow>
          (case split_once (CHR ''|'') identifier of Some (u, _) \<Rightarrow> u | None \<Rightarrow> identifier))"

definition find_by_key_or_username ::
  "extern \<Rightarrow> token_faults \<Rightarrow> token_model list \<Rightarrow> string \<Rightarrow> token_model option any_result"
where
  "find_by_key_or_username E flt rows key_or_name =
     (case find_row flt (FindByKey key_or_name) (\<lambda>m. m_token_key m = key_or_name) rows of
        Inl e \<Rightarrow> Inl (db_error E ''DB query error: '' e)
      | Inr (Some m) \<Rightarrow> Inr (Some m)
      | Inr None \<Rightarrow>
          map_err (db_error E ''DB query error: '')
            (find_row flt (FindByUsername key_or_name) (\<lambda>m. m_username m = Some key_or_name) rows))"

fun find_candidates ::
  "extern \<Rightarrow> token_faults \<Rightarrow> token_model list \<Rightarrow> string list \<Rightarrow> token_model option any_result"
where
  "find_candidates E flt rows [] = Inr None"
| "find_candidates E flt rows (candidate # candidates) =
     rbind (find_by_key_or_username E flt rows candidate) (\<lambda>r.
       case r of
         Some m \<Rightarrow> Inr (Some m)
       | None \<Rightarrow> find_candidates E flt rows candidates)"

definition find_target_token ::
  "extern \<Rightarrow> token_faults \<Rightarrow> token_world \<Rightarrow> string \<Rightarrow> token_model any_result"
where
  "find_target_token E flt w identifier =
     (if \<not> db_ready w then err (DatabaseError ''Database connection not initialized'')
      else
        let extracted = extract_target_identifier identifier;
            candidates = identifier # (if extracted \<noteq> identifier then [extracted] else [])
        in rbind (find_candidates E flt (token_rows w) candidates)
             (ok_or (Nodeget (NotFound (''Target token not found by key/username: '' @ extracted)))))"

definition verify_supertoken :: "extern \<Rightarrow> token_world \<Rightarrow> string \<Rightarrow> unit any_result" where
  "verify_supertoken E w token =
     rbind (map_err (\<lambda>m. Nodeget (ParseError m)) (from_full_token token)) (\<lambda>cred.
       super_only E w cred ''Only SuperToken can perform this operation'')"

definition parse_credential :: "string \<Rightarrow> string \<Rightarrow> token_or_auth any_result" where
  "parse_credential what s =
     map_err (\<lambda>e. Nodeget (ParseError (''Failed to parse '' @ what @ '': '' @ e))) (from_full_token s)"


section \<open>Handlers\<close>

datatype token_reply =
    Created string string
  | Deleted string nat string
  | Edited int string
  | TokenInfo token
  | TokenList "token list"
  | Rolled string string
  | PasswordChanged

definition rpc_finish :: "'a any_result \<times> 'w \<Rightarrow> 'a rpc_result \<times> 'w" where
  "rpc_finish rw = (map_err to_rpc_error (fst rw), snd rw)"

definition token_create ::
  "extern \<Rightarrow> token_faults \<Rightarrow> int \<Rightarrow> string \<Rightarrow> string \<Rightarrow> string \<Rightarrow> token_creation_request \<Rightarrow> token_world
     \<Rightarrow> token_reply rpc_result \<times> token_world"
where
  "token_create E flt auto_id rnd_key rnd_secret father_token req w = rpc_finish (
     case parse_credential ''token'' father_token of
       Inl e \<Rightarrow> (Inl e, w)
     | Inr father \<Rightarrow>
         let (r, w') = generate_and_store_token E flt auto_id rnd_key rnd_secret father
                         (req_timestamp_from req) (req_timestamp_to req) (req_token_limit req)
                         (req_username req) (req_password req) w
         in (rbind r (\<lambda>(key, secret). Inr (Created key secret)), w'))"

definition token_change_password ::
  "extern \<Rightarrow> token_faults \<Rightarrow> string \<Rightarrow> string \<Rightarrow> string \<Rightarrow> token_world
     \<Rightarrow> token_reply rpc_result \<times> token_world"
where
  "token_change_password E flt token target_token new_password w = rpc_finish (
     case verify_supertoken E w token of
       Inl e \<Rightarrow> (Inl e, w)
     | Inr _ \<Rightarrow>
       if new_password = [] then (err (InvalidInput ''New password cannot be empty''), w)
       else if length new_password < 6
       then (err (InvalidInput ''New password must be at least 6 characters long''), w)
       else if has_separator (Some new_password)
       then (err (InvalidInput (''Password cannot contain '' @ separators)), w)
       else
         (case find_target_token E flt w target_token of
            Inl e \<Rightarrow> (Inl e, w)
          | Inr target_model \<Rightarrow>
            if \<not> db_ready w then (err (DatabaseError ''Database connection not initialized''), w)
            else
              (case update_row flt (\<lambda>r. r\<lparr> m_password_hash := Some (hash_string E new_password) \<rparr>)
                      target_model (token_rows w) of
                 Inl e \<Rightarrow> (Inl (db_error E ''Failed to update password: '' e), w)
               | Inr (updated, rows') \<Rightarrow>
                   (Inr PasswordChanged, reload_logged E flt (w\<lparr> token_rows := rows' \<rparr>)))))"

definition token_roll_secret ::
  "extern \<Rightarrow> token_faults \<Rightarrow> string \<Rightarrow> string \<Rightarrow> string \<Rightarrow> token_world
     \<Rightarrow> token_reply rpc_result \<times> token_world"
where
  "token_roll_secret E flt new_secret token target_token w = rpc_finish (
     case verify_supertoken E w token of
       Inl e \<Rightarrow> (Inl e, w)
     | Inr _ \<Rightarrow>
         (case find_target_token E flt w target_token of
            Inl e \<Rightarrow> (Inl e, w)
          | Inr target_model \<Rightarrow>
            if \<not> db_ready w then (err (DatabaseError ''Database connection not initialized''), w)
            else
              (case update_row flt (\<lambda>r. r\<lparr> m_token_hash := hash_string E new_secret \<rparr>)
                      target_model (token_rows w) of
                 Inl e \<Rightarrow> (Inl (db_error E ''Failed to update token secret: '' e), w)
               | Inr (updated, rows') \<Rightarrow>
                   (Inr (Rolled (m_token_key updated) new_secret),
                    reload_logged E flt (w\<lparr> token_rows := rows' \<rparr>)))))"

definition token_edit ::
  "extern \<Rightarrow> token_faults \<Rightarrow> string \<Rightarrow> string \<Rightarrow> limit list \<Rightarrow> token_world
     \<Rightarrow> token_reply rpc_result \<times> token_world"
where
  "token_edit E flt token_input target_token limits w = rpc_finish (
     case rbind (parse_credential ''token'' token_input)
            (\<lambda>cred. super_only E w cred ''Only SuperToken can edit token limits'') of
       Inl e \<Rightarrow> (Inl e, w)
     | Inr _ \<Rightarrow>
       if \<not> db_ready w then (err (ConfigNotFound ''Database connection not initialized''), w)
       else
         (case find_row flt (FindByKey target_token) (\<lambda>m. m_token_key m = target_token)
                 (token_rows w) of
            Inl e \<Rightarrow> (Inl (db_error E ''Database query error: '' e), w)
          | Inr by_k \<Rightarrow>
            (case (case by_k of
                     Some m \<Rightarrow> Inr (Some m)
                   | None \<Rightarrow> find_row flt (FindByUsername target_token)
                               (\<lambda>m. m_username m = Some target_token) (token_rows w)) of
               Inl e \<Rightarrow> (Inl (db_error E ''Database query error: '' e), w)
             | Inr None \<Rightarrow>
                 (err (NotFound (''Token not found by key/username: ''
                         @ extract_target_identifier target_token)), w)
             | Inr (Some m) \<Rightarrow>
                 if m_id m = 1 then (err (PermissionDenied ''SuperToken cannot be edited''), w)
                 else
                   (case limits_to_value E limits of
                      Inl e \<Rightarrow>
                        (err (SerializationError (''Failed to serialize token limit: '' @ e)), w)
                    | Inr v \<Rightarrow>
                        (case update_row flt (\<lambda>r. r\<lparr> m_token_limit := v \<rparr>) m (token_rows w) of
                           Inl e \<Rightarrow> (Inl (db_error E ''Database update error: '' e), w)
                         | Inr (updated, rows') \<Rightarrow>
                             (Inr (Edited (m_id updated) (m_token_key updated)),
                              reload_logged E flt (w\<lparr> token_rows := rows' \<rparr>)))))))"


text \<open>\<^verbatim>\<open>delete_token_by_key\<close> and \<^verbatim>\<open>delete_token_by_username\<close>: both spare the row with id 1.\<close>

definition delete_rows ::
  "extern \<Rightarrow> token_faults \<Rightarrow> token_site \<Rightarrow> (token_model \<Rightarrow> bool) \<Rightarrow> token_world
     \<Rightarrow> (db_err + nat) \<times> token_world"
where
  "delete_rows E flt site P w =
     (if \<not> db_ready w then (Inl (ConnInternal ''Database not initialized''), w)
      else
        (case flt site of
           Some e \<Rightarrow> (Inl e, w)
         | None \<Rightarrow>
             let Q = (\<lambda>r. m_id r \<noteq> 1 \<and> P r);
                 affected = length (filter Q (token_rows w));
                 w' = w\<lparr> token_rows := tbl_delete Q (token_rows w) \<rparr>
             in (Inr affected, if affected > 0 then reload_logged E flt w' else w')))"

definition delete_token_by_key ::
  "extern \<Rightarrow> token_faults \<Rightarrow> string \<Rightarrow> token_world \<Rightarrow> (db_err + nat) \<times> token_world" where
  "delete_token_by_key E flt key w = delete_rows E flt DeleteByKey (\<lambda>r. m_token_key r = key) w"

definition delete_token_by_username ::
  "extern \<Rightarrow> token_faults \<Rightarrow> string \<Rightarrow> token_world \<Rightarrow> (db_err + nat) \<times> token_world" where
  "delete_token_by_username E flt uname w =
     delete_rows E flt DeleteByUsername (\<lambda>r. m_username r = Some uname) w"

definition deleted_message :: "string \<Rightarrow> string" where
  "deleted_message target = ''Token '' @ target @ '' deleted successfully by SuperToken''"

definition delete_target ::
  "extern \<Rightarrow> token_faults \<Rightarrow> string \<Rightarrow> token_world \<Rightarrow> token_reply any_result \<times> token_world"
where
  "delete_target E flt target_token w =
     (case delete_token_by_key E flt target_token w of
        (Inl e, w1) \<Rightarrow> (Inl (db_error E [] e), w1)
      | (Inr n, w1) \<Rightarrow>
          if n > 0
          then (Inr (Deleted (deleted_message target_token) n ''token_key''), w1)
          else
            (case delete_token_by_username E flt target_token w1 of
               (Inl e, w2) \<Rightarrow> (Inl (db_error E [] e), w2)
             | (Inr n', w2) \<Rightarrow>
                 if n' > 0
                 then (Inr (Deleted (deleted_message target_token) n' ''username''), w2)
                 else (err (NotFound (''Token not found by key/username: ''
                         @ extract_target_identifier target_token)), w2)))"

definition token_delete ::
  "extern \<Rightarrow> token_faults \<Rightarrow> string \<Rightarrow> string \<Rightarrow> token_world \<Rightarrow> token_reply rpc_result \<times> token_world"
where
  "token_delete E flt token target_token w = rpc_finish (
     case rbind (parse_credential ''token'' token)
            (\<lambda>cred. super_only E w cred ''Only SuperToken can delete tokens'') of
       Inl e \<Rightarrow> (Inl e, w)
     | Inr _ \<Rightarrow>
       if trim target_token = [] then (err (InvalidInput ''target_token cannot be empty''), w)
       else if \<not> db_ready w
       then (err (DatabaseError ''Database connection not initialized''), w)
       else
         (case find_row flt FindSuper (\<lambda>m. m_id m = 1) (token_rows w) of
            Inl e \<Rightarrow> (Inl (db_error E ''Database error: '' e), w)
          | Inr None \<Rightarrow> (err (NotFound ''Super Token record (ID 1) not found in database''), w)
          | Inr (Some super_record) \<Rightarrow>
              if target_token = m_token_key super_record
                 \<or> m_username super_record = Some target_token
              then (err (PermissionDenied ''SuperToken cannot be deleted''), w)
              else delete_target E flt target_token w))"

definition token_get ::
  "extern \<Rightarrow> string \<Rightarrow> string option \<Rightarrow> token_world \<Rightarrow> token_reply rpc_result \<times> token_world"
where
  "token_get E token supertoken w = rpc_finish (
     (rbind
        (case supertoken of
           Some supertoken \<Rightarrow>
             rbind (parse_credential ''supertoken'' supertoken) (\<lambda>cred.
             rbind (super_only E w cred
                      ''Only SuperToken can query by username/token_key in token_get'') (\<lambda>_.
               case from_full_token token of
                 Inr token_or_auth \<Rightarrow> get_token E w token_or_auth
               | Inl _ \<Rightarrow> get_token_by_key_or_username w token))
         | None \<Rightarrow>
             rbind (parse_credential ''token'' token) (get_token E w))
        (\<lambda>t. Inr (TokenInfo t)), w))"

definition token_list_all ::
  "extern \<Rightarrow> string \<Rightarrow> token_world \<Rightarrow> token_reply rpc_result \<times> token_world"
where
  "token_list_all E token w = rpc_finish (
     (rbind (parse_credential ''token'' token) (\<lambda>cred.
      rbind (super_only E w cred ''Only SuperToken can list all tokens'') (\<lambda>_.
      rbind (cache_of w) (\<lambda>cache.
        Inr (TokenList (map token_of_cached (get_all cache)))))), w))"


section \<open>Running the handlers\<close>

text \<open>
  One request of the \<^verbatim>\<open>token\<close> namespace, the start of the server loop
  (\<^verbatim>\<open>init_or_skip_super_token\<close>, then \<^verbatim>\<open>TokenCache::init\<close>), or the
  subcommand \<^verbatim>\<open>roll-super-token\<close>, together with what the environment
  supplies.  The subcommand is a process of its own: it shares the table with a
  running server, and its own cache is never initialised.
\<close>

datatype token_request =
    ReqCreate int string string string token_creation_request
  | ReqChangePassword string string string
  | ReqRollSecret string string string
  | ReqEdit string string "limit list"
  | ReqDelete string string
  | ReqGet string "string option"
  | ReqListAll string
  | CliRollSuper string string string
  | ServeStart string string string

primrec token_step :: "extern \<Rightarrow> token_faults \<Rightarrow> token_request \<Rightarrow> token_world \<Rightarrow> token_world" where
  "token_step E flt (ReqCreate i k s father req) w = snd (token_create E flt i k s father req w)"
| "token_step E flt (ReqChangePassword t tgt pw) w = snd (token_change_password E flt t tgt pw w)"
| "token_step E flt (ReqRollSecret s t tgt) w = snd (token_roll_secret E flt s t tgt w)"
| "token_step E flt (ReqEdit t tgt ls) w = snd (token_edit E flt t tgt ls w)"
| "token_step E flt (ReqDelete t tgt) w = snd (token_delete E flt t tgt w)"
| "token_step E flt (ReqGet t st) w = snd (token_get E t st w)"
| "token_step E flt (ReqListAll t) w = snd (token_list_all E t w)"
| "token_step E flt (CliRollSuper k s p) w =
     w\<lparr> token_rows := token_rows (snd (roll_super_token E flt k s p
          (w\<lparr> cache_global := None, super_token_global := None \<rparr>))) \<rparr>"
| "token_step E flt (ServeStart k s p) w =
     snd (token_cache_init E flt (snd (generate_super_token E flt k s p w)))"

primrec acting_credential :: "token_request \<Rightarrow> string option" where
  "acting_credential (ReqCreate i k s father req) = Some father"
| "acting_credential (ReqChangePassword t tgt pw) = Some t"
| "acting_credential (ReqRollSecret s t tgt) = Some t"
| "acting_credential (ReqEdit t tgt ls) = Some t"
| "acting_credential (ReqDelete t tgt) = Some t"
| "acting_credential (ReqGet t st) = Some t"
| "acting_credential (ReqListAll t) = Some t"
| "acting_credential (CliRollSuper k s p) = None"
| "acting_credential (ServeStart k s p) = None"


section \<open>Effects on the table\<close>

inductive table_change :: "token_model list \<Rightarrow> token_model list \<Rightarrow> bool" where
  inserted: "\<not> row_conflict m rows \<Longrightarrow> table_change rows (rows @ [m])"
| updated: "(\<And>r. m_id (f r) = m_id r \<and> m_token_key (f r) = m_token_key r
               \<and> m_username (f r) = m_username r) \<Longrightarrow>
     (\<And>r. P r \<Longrightarrow> m_id r = 1 \<Longrightarrow> m_token_limit (f r) = m_token_limit r
               \<and> m_time_stamp_from (f r) = m_time_stamp_from r
               \<and> m_time_stamp_to (f r) = m_time_stamp_to r) \<Longrightarrow>
     table_change rows (tbl_update P f rows)"
| deleted: "(\<And>r. P r \<Longrightarrow> m_id r \<noteq> 1) \<Longrightarrow> table_change rows (tbl_delete P rows)"

lemma row_conflict_iff:
  "row_conflict m rows \<longleftrightarrow>
     (\<exists>r\<in>set rows. m_id r = m_id m \<or> m_token_key r = m_token_key m
        \<or> m_username m \<noteq> None \<and> m_username r = m_username m)"
  by (simp add: row_conflict_def list_ex_iff)

lemma token_table_ok_insert:
  "token_table_ok rows \<Longrightarrow> \<not> row_conflict m rows \<Longrightarrow> token_table_ok (rows @ [m])"
  by (auto simp: token_table_ok_def unique_on_snoc row_conflict_iff)

lemma token_table_ok_delete: "token_table_ok rows \<Longrightarrow> token_table_ok (tbl_delete P rows)"
  by (auto simp: token_table_ok_def)

lemma token_table_ok_update:
  "token_table_ok rows \<Longrightarrow>
     (\<And>r. m_id (f r) = m_id r \<and> m_token_key (f r) = m_token_key r \<and> m_username (f r) = m_username r) \<Longrightarrow>
     token_table_ok (tbl_update P f rows)"
  by (simp add: token_table_ok_def unique_on_update)

lemma table_change_ok: "table_change rows rows' \<Longrightarrow> token_table_ok rows \<Longrightarrow> token_table_ok rows'"
  by (induction rule: table_change.induct)
     (auto intro: token_table_ok_insert token_table_ok_delete token_table_ok_update)

lemma row_super_iff: "row_super rows \<noteq> None \<longleftrightarrow> (\<exists>m\<in>set rows. m_id m = 1)"
  by (auto simp: row_super_def tbl_find_None)

lemma table_change_super:
  assumes "table_change rows rows'" "row_super rows \<noteq> None"
  shows "row_super rows' \<noteq> None"
  using assms(1)
proof cases
  case (updated f P)
  then have same: "m_id (if P r then f r else r) = m_id r" for r by simp
  obtain m where "m \<in> set rows" "m_id m = 1" using assms(2) unfolding row_super_iff by blast
  with same [of m] have "m_id (if P m then f m else m) = 1" by simp
  moreover have "(if P m then f m else m) \<in> set rows'"
    using updated(1) \<open>m \<in> set rows\<close> by simp
  ultimately show ?thesis unfolding row_super_iff by blast
next
  case (inserted m)
  with assms(2) show ?thesis unfolding row_super_iff by auto
next
  case (deleted P)
  with assms(2) show ?thesis unfolding row_super_iff by auto
qed

lemma table_change_hash [intro!]:
  "table_change rows (tbl_update P (\<lambda>r. r\<lparr> m_token_hash := h \<rparr>) rows)"
  "table_change rows (tbl_update P (\<lambda>r. r\<lparr> m_password_hash := ph \<rparr>) rows)"
  "i \<noteq> 1 \<Longrightarrow> table_change rows (tbl_update (\<lambda>r. m_id r = i) (\<lambda>r. r\<lparr> m_token_limit := l \<rparr>) rows)"
  by (rule table_change.updated; simp)+

lemma table_change_super_row:
  assumes "table_change rows rows'" "token_table_ok rows" "row_super rows = Some s"
  shows "\<exists>s'. row_super rows' = Some s' \<and> m_token_key s' = m_token_key s
     \<and> m_username s' = m_username s \<and> m_token_limit s' = m_token_limit s
     \<and> m_time_stamp_from s' = m_time_stamp_from s \<and> m_time_stamp_to s' = m_time_stamp_to s"
proof -
  have ok': "token_table_ok rows'" by (rule table_change_ok [OF assms(1,2)])
  note s = row_super_Some [OF assms(3)]
  show ?thesis
    using assms(1)
  proof cases
    case (inserted m)
    with s row_super_mem [OF ok', of s] show ?thesis by auto
  next
    case (updated f P)
    define s' where "s' = (if P s then f s else s)"
    have "s' \<in> set rows'" "m_id s' = 1" using updated s by (auto simp: s'_def)
    with row_super_mem [OF ok', of s'] updated s show ?thesis by (auto simp: s'_def)
  next
    case (deleted P)
    with s row_super_mem [OF ok', of s] show ?thesis by auto
  qed
qed

lemma reload_logged_rows [simp]: "token_rows (reload_logged E flt w) = token_rows w"
  by (simp add: reload_logged_def token_cache_reload_def token_db_cache.reload_rows)

lemma reload_logged_ready [simp]: "db_ready (reload_logged E flt w) = db_ready w"
  by (auto simp: reload_logged_def token_cache_reload_def cache_reload_def reload_from_models_def
      Let_def split: sum.splits prod.splits)

lemma reload_logged_coherent:
  assumes "cache_is_set w" "db_ready w" "flt LoadAll = None"
  shows "token_coherent E (token_rows w) (reload_logged E flt w)"
proof -
  have "token_cache_reload E flt w = (Inr (), reload_logged E flt w)"
    using assms
    by (auto simp: token_cache_reload_def cache_reload_def reload_logged_def load_all_def
        load_from_db_def)
  then show ?thesis
    using token_db_cache.reload_ok [of E flt w] assms(1) by (simp add: token_cache_reload_def)
qed

definition authorised :: "extern \<Rightarrow> token_world \<Rightarrow> string \<Rightarrow> bool" where
  "authorised E w t \<longleftrightarrow>
     (\<exists>cred. from_full_token t = Inr cred \<and> check_super_token E w cred = Inr True)"

text \<open>What a handler does to the state: nothing, or one change of the table and a reload.\<close>

definition admin_effect :: "extern \<Rightarrow> token_faults \<Rightarrow> string \<Rightarrow> token_world \<Rightarrow> token_world \<Rightarrow> bool" where
  "admin_effect E flt t w w' \<longleftrightarrow>
     w' = w \<or>
     authorised E w t \<and> db_ready w \<and>
     (\<exists>rows'. table_change (token_rows w) rows'
        \<and> w' = reload_logged E flt (w\<lparr> token_rows := rows' \<rparr>))"

lemma super_only_Inr: "super_only E w cred msg = Inr u \<longleftrightarrow> check_super_token E w cred = Inr True"
  by (auto simp: super_only_def result_simps split: if_splits)

lemma snd_rpc_finish [simp]: "snd (rpc_finish rw) = snd rw"
  by (simp add: rpc_finish_def)

lemma parse_credential_Inr: "parse_credential what s = Inr c \<longleftrightarrow> from_full_token s = Inr c"
  by (simp add: parse_credential_def result_simps)

lemma insert_row_Inr:
  "insert_row flt site m rows = Inr rows' \<longleftrightarrow>
     flt site = None \<and> \<not> row_conflict m rows \<and> rows' = rows @ [m]"
  by (auto simp: insert_row_def split: option.splits)

lemma update_row_Inr:
  "update_row flt f target rows = Inr x \<longleftrightarrow>
     flt UpdateToken = None \<and> x = (f target, tbl_update (\<lambda>r. m_id r = m_id target) f rows)"
  by (auto simp: update_row_def split: option.splits)

lemma verify_supertoken_Inr: "verify_supertoken E w t = Inr u \<longleftrightarrow> authorised E w t"
  by (auto simp: verify_supertoken_def result_simps super_only_Inr authorised_def)

lemmas handler_simps = super_only_Inr parse_credential_Inr insert_row_Inr update_row_Inr
  verify_supertoken_Inr

lemma admin_effect_refl [intro!, simp]: "admin_effect E flt t w w"
  by (simp add: admin_effect_def)

lemma admin_effect_change [intro]:
  "authorised E w t \<Longrightarrow> db_ready w \<Longrightarrow> table_change (token_rows w) rows' \<Longrightarrow>
     admin_effect E flt t w (reload_logged E flt (w\<lparr> token_rows := rows' \<rparr>))"
  by (auto simp: admin_effect_def)

lemma authorisedI [intro]:
  "from_full_token t = Inr cred \<Longrightarrow> check_super_token E w cred = Inr True \<Longrightarrow> authorised E w t"
  by (auto simp: authorised_def)

lemma generate_effect:
  "from_full_token t = Inr father \<Longrightarrow>
     admin_effect E flt t w
       (snd (generate_and_store_token E flt i k x father tf tt ls un pw w))"
  unfolding generate_and_store_token_def
  by (auto simp only: handler_simps fst_conv snd_conv admin_effect_refl
      split: sum.split if_split intro!: admin_effect_change authorisedI table_change.inserted)

lemma create_effect:
  "admin_effect E flt father w (snd (token_create E flt i k x father req w))"
  by (auto simp: token_create_def parse_credential_Inr generate_effect case_prod_beta
      split: sum.split)

lemma change_password_effect:
  "admin_effect E flt t w (snd (token_change_password E flt t tgt pw w))"
  by (auto simp: token_change_password_def handler_simps split: sum.split prod.split)

lemma roll_secret_effect:
  "admin_effect E flt t w (snd (token_roll_secret E flt x t tgt w))"
  by (auto simp: token_roll_secret_def handler_simps split: sum.split prod.split)

lemma edit_effect:
  "admin_effect E flt t w (snd (token_edit E flt t tgt ls w))"
  by (auto simp: token_edit_def handler_simps result_simps split: sum.split prod.split option.split)

lemma delete_rows_none:
  assumes "delete_rows E flt site P w = (r, w')" "\<not> (\<exists>n>0. r = Inr n)"
  shows "w' = w"
proof -
  have "filter Q xs = [] \<Longrightarrow> tbl_delete Q xs = xs" for Q and xs :: "token_model list"
    by (simp add: tbl_delete_def filter_empty_conv)
  with assms show ?thesis
    by (auto simp: delete_rows_def Let_def split: option.splits if_splits)
qed

lemma delete_rows_some:
  "delete_rows E flt site P w = (Inr n, w') \<Longrightarrow> n > 0 \<Longrightarrow>
     db_ready w \<and> w' = reload_logged E flt
       (w\<lparr> token_rows := tbl_delete (\<lambda>r. m_id r \<noteq> 1 \<and> P r) (token_rows w) \<rparr>)"
  by (auto simp: delete_rows_def Let_def split: option.splits if_splits)


lemma delete_target_cases:
  assumes "db_ready w"
  obtains "snd (delete_target E flt tgt w) = w"
  | P where "snd (delete_target E flt tgt w) =
       reload_logged E flt (w\<lparr> token_rows := tbl_delete (\<lambda>r. m_id r \<noteq> 1 \<and> P r) (token_rows w) \<rparr>)"
proof -
  obtain r w1 where k: "delete_token_by_key E flt tgt w = (r, w1)" by fastforce
  show thesis
  proof (cases "\<exists>n>0. r = Inr n")
    case True
    then have "snd (delete_target E flt tgt w) = w1" using k by (auto simp: delete_target_def)
    moreover have "w1 = reload_logged E flt (w\<lparr> token_rows :=
        tbl_delete (\<lambda>r. m_id r \<noteq> 1 \<and> m_token_key r = tgt) (token_rows w) \<rparr>)"
      using True k delete_rows_some unfolding delete_token_by_key_def by blast
    ultimately show thesis using that(2) [of "\<lambda>r. m_token_key r = tgt"] by simp
  next
    case False
    then have [simp]: "w1 = w" using k delete_rows_none unfolding delete_token_by_key_def by blast
    obtain r' w2 where u: "delete_token_by_username E flt tgt w = (r', w2)" by fastforce
    show thesis
    proof (cases "\<exists>n>0. r' = Inr n")
      case True
      then have "snd (delete_target E flt tgt w) = w2 \<or> snd (delete_target E flt tgt w) = w"
        using k u False by (auto simp: delete_target_def split: sum.splits)
      moreover have "w2 = reload_logged E flt (w\<lparr> token_rows :=
          tbl_delete (\<lambda>r. m_id r \<noteq> 1 \<and> m_username r = Some tgt) (token_rows w) \<rparr>)"
        using True u delete_rows_some unfolding delete_token_by_username_def by blast
      ultimately show thesis
        using that(1) that(2) [of "\<lambda>r. m_username r = Some tgt"] by auto
    next
      case False
      then have "w2 = w" using u delete_rows_none unfolding delete_token_by_username_def by blast
      with k u \<open>\<not> (\<exists>n>0. r = Inr n)\<close> False that(1) show thesis
        by (auto simp: delete_target_def split: sum.splits)
    qed
  qed
qed

lemma delete_effect:
  "admin_effect E flt t w (snd (token_delete E flt t tgt w))"
proof -
  have "admin_effect E flt t w (snd (delete_target E flt tgt w))" if "authorised E w t" "db_ready w"
    by (rule delete_target_cases [OF that(2), of E flt tgt])
       (use that in \<open>auto intro: table_change.deleted\<close>)
  then show ?thesis
    by (auto simp: token_delete_def handler_simps result_simps split: sum.split option.split)
qed

lemma get_no_effect: "snd (token_get E t st w) = w" "snd (token_list_all E t w) = w"
  by (simp_all add: token_get_def token_list_all_def)

lemma rpc_step_effect:
  "acting_credential r = Some t \<Longrightarrow> admin_effect E flt t w (token_step E flt r w)"
  by (cases r)
     (auto simp: get_no_effect create_effect change_password_effect roll_secret_effect
        edit_effect delete_effect)

end
