(* ===== verification/Token_Props.thy ===== *)
theory Token_Props
  imports Token_Admin
begin

text \<open>
  The properties of the token crate: what authentication and the permission
  check decide, the invariant of table and cache under every request and every
  database fault, who can change the table, and what creating, rolling and
  deleting a token do to the credentials that authenticate.
\<close>


section \<open>Invariants of the state\<close>

definition token_run :: "extern \<Rightarrow> (token_faults \<times> token_request) list \<Rightarrow> token_world \<Rightarrow> token_world" where
  "token_run E reqs w = fold (\<lambda>(flt, r). token_step E flt r) reqs w"

lemma token_run_simps [simp]:
  "token_run E [] w = w"
  "token_run E ((flt, r) # reqs) w = token_run E reqs (token_step E flt r w)"
  by (simp_all add: token_run_def)

lemma world_ok_cache_set: "token_world_ok E w \<Longrightarrow> cache_is_set w"
  by (auto simp: token_world_ok_def token_coherent_def cache_is_set_def split: prod.splits)

lemma reload_world_ok:
  assumes "token_table_ok rows" "row_super rows \<noteq> None" "cache_is_set w" "db_ready w"
    "flt LoadAll = None"
  shows "token_world_ok E (reload_logged E flt (w\<lparr> token_rows := rows \<rparr>))"
  using reload_logged_coherent [of "w\<lparr> token_rows := rows \<rparr>" flt E] assms
  by (simp add: token_world_ok_def cache_is_set_def)

lemma effect_world_ok:
  assumes "admin_effect E flt t w w'" "token_world_ok E w" "flt LoadAll = None"
  shows "token_world_ok E w'"
proof (cases "w' = w")
  case False
  with assms(1) obtain rows' where r: "db_ready w" "table_change (token_rows w) rows'"
    "w' = reload_logged E flt (w\<lparr> token_rows := rows' \<rparr>)"
    by (auto simp: admin_effect_def)
  have "token_table_ok (token_rows w)" "row_super (token_rows w) \<noteq> None"
    using assms(2) by (simp_all add: token_world_ok_def)
  with r reload_world_ok [OF table_change_ok table_change_super world_ok_cache_set] assms(2,3)
  show ?thesis by blast
qed (use assms in simp)

lemma effect_table:
  assumes "admin_effect E flt t w w'"
    and "token_table_ok (token_rows w)" "row_super (token_rows w) \<noteq> None"
  shows "token_table_ok (token_rows w') \<and> row_super (token_rows w') \<noteq> None"
  using assms table_change_ok table_change_super by (auto simp: admin_effect_def)

lemma effect_ready: "admin_effect E flt t w w' \<Longrightarrow> db_ready w' = db_ready w"
  by (auto simp: admin_effect_def)

lemma generate_super_existing:
  assumes "row_super (token_rows w) \<noteq> None"
  shows "snd (generate_super_token E flt k x p w) = w"
proof -
  have "row_conflict (super_row E k x p) (token_rows w)"
    using assms unfolding row_super_iff by (auto simp: row_conflict_iff super_row_def)
  then show ?thesis
    by (auto simp: generate_super_token_def insert_new_super_token_def insert_row_def rbind_def
        split: option.splits sum.splits)
qed

lemma cache_init_rows: "token_rows (snd (token_cache_init E flt w)) = token_rows w"
  by (auto simp: token_cache_init_def cache_init_def cache_put_def build_cache_def Let_def
      token_db_cache.reload_rows split: sum.splits prod.splits)

lemma cache_init_ready: "db_ready (snd (token_cache_init E flt w)) = db_ready w"
  by (auto simp: token_cache_init_def cache_init_def cache_put_def build_cache_def
      cache_reload_def reload_from_models_def Let_def split: sum.splits prod.splits)

lemma cache_init_ok:
  assumes "db_ready w" "flt LoadAll = None"
  shows "token_coherent E (token_rows w) (snd (token_cache_init E flt w))"
proof -
  obtain r w' where r: "token_cache_init E flt w = (r, w')" by fastforce
  have "r = Inr ()"
    using assms r
    by (auto simp: token_cache_init_def cache_init_def cache_reload_def load_all_def load_from_db_def
        build_cache_def Let_def split: prod.splits if_splits)
  with r have "cache_init cache_is_set (load_all E flt) (build_cache E) cache_put
      (reload_from_models E) w = (Inr (), w')"
    by (simp add: token_cache_init_def)
  from token_db_cache.init_ok [OF this] r show ?thesis by (metis snd_conv)
qed

lemma step_not_cli:
  assumes "acting_credential r = None"
  obtains (roll) k x p where "r = CliRollSuper k x p" | (start) k x p where "r = ServeStart k x p"
  using assms by (cases r) auto

lemma roll_super_rows:
  "token_rows (snd (roll_super_token E flt k x p w)) = token_rows w \<or>
   (\<exists>m. m_id m = 1 \<and> \<not> row_conflict m (tbl_delete (\<lambda>r. m_id r = 1) (token_rows w))
      \<and> token_rows (snd (roll_super_token E flt k x p w)) =
          tbl_delete (\<lambda>r. m_id r = 1) (token_rows w) @ [m])"
  by (auto simp: roll_super_token_def roll_txn_def rbind_def insert_row_Inr super_row_def
      split: option.splits sum.splits)

lemma step_table:
  assumes "token_table_ok (token_rows w)" "row_super (token_rows w) \<noteq> None"
  shows "token_table_ok (token_rows (token_step E flt r w))
     \<and> row_super (token_rows (token_step E flt r w)) \<noteq> None"
proof (cases "acting_credential r")
  case (Some t)
  then show ?thesis using effect_table [OF rpc_step_effect [OF Some] assms] by blast
next
  case None
  then show ?thesis
  proof (cases rule: step_not_cli)
    case (roll k x p)
    show ?thesis
      using roll_super_rows [of E flt k x p "w\<lparr> cache_global := None, super_token_global := None \<rparr>"]
        assms token_table_ok_insert token_table_ok_delete
      unfolding row_super_iff by (auto simp: roll)
  next
    case (start k x p)
    with assms show ?thesis by (simp add: generate_super_existing cache_init_rows)
  qed
qed

lemma step_ready: "db_ready (token_step E flt r w) = db_ready w"
proof (cases "acting_credential r")
  case (Some t)
  then show ?thesis using effect_ready [OF rpc_step_effect [OF Some]] by blast
next
  case None
  then show ?thesis
  proof (cases rule: step_not_cli)
    case (start k x p)
    then show ?thesis
      by (auto simp: cache_init_ready generate_super_token_def insert_new_super_token_def
          split: sum.splits prod.splits)
  qed simp
qed

lemma step_world_ok:
  assumes "token_world_ok E w" "db_ready w" "flt LoadAll = None" "\<And>k x p. r \<noteq> CliRollSuper k x p"
  shows "token_world_ok E (token_step E flt r w)"
proof (cases "acting_credential r")
  case (Some t)
  then show ?thesis using effect_world_ok [of E flt t w] rpc_step_effect [OF Some] assms(1,3) by blast
next
  case None
  then show ?thesis
  proof (cases rule: step_not_cli)
    case (start k x p)
    have sup: "row_super (token_rows w) \<noteq> None" using assms(1) by (simp add: token_world_ok_def)
    with start have "token_step E flt r w = snd (token_cache_init E flt w)"
      by (simp add: generate_super_existing)
    with assms cache_init_ok [of w flt E] cache_init_rows [of E flt w]
    show ?thesis by (simp add: token_world_ok_def)
  qed (use assms(4) in blast)
qed


section \<open>Credentials after a change\<close>

lemma cached_hash [simp]:
  "extern_ok E \<Longrightarrow> m_token_hash m = hash_string E x \<Longrightarrow>
     token_hash_bytes (cached_of E m) = hash_to_bytes E x"
  "extern_ok E \<Longrightarrow> m_password_hash m = Some (hash_string E p) \<Longrightarrow>
     password_hash_bytes (cached_of E m) = Some (hash_to_bytes E p)"
  by (simp_all add: cached_of_def)

lemma parsed_limits_to_value:
  "extern_ok E \<Longrightarrow> limits_to_value E ls = Inr (m_token_limit m) \<Longrightarrow>
     parsed_limits (cached_of E m) = ls"
  by (simp add: extern_ok_def cached_of_def parse_token_limit_with_compat_def)

lemma credential_row_Token:
  assumes "extern_ok E" "token_table_ok rows" "m \<in> set rows" "m_token_hash m = hash_string E x"
  shows "credential_row E rows (Token (m_token_key m) y) =
     (if hash_to_bytes E y = hash_to_bytes E x then Some m else None)"
  using assms by (simp add: credential_row_def row_by_key_mem)

lemma credential_row_Auth:
  assumes "extern_ok E" "token_table_ok rows" "m \<in> set rows" "m_username m = Some u"
    "m_password_hash m = Some (hash_string E p)"
  shows "credential_row E rows (Auth u q) =
     (if hash_to_bytes E q = hash_to_bytes E p then Some m else None)"
  using assms by (auto simp: credential_row_def row_by_username_mem)

lemma row_queries_append:
  "row_by_key (rows @ [m]) k =
     (case row_by_key rows k of Some r \<Rightarrow> Some r | None \<Rightarrow> if m_token_key m = k then Some m else None)"
  "row_by_username (rows @ [m]) u =
     (case row_by_username rows u of Some r \<Rightarrow> Some r
      | None \<Rightarrow> if m_username m = Some u then Some m else None)"
  by (simp_all add: row_by_key_def row_by_username_def tbl_find_append split: option.split)

lemma credential_row_append:
  assumes "credential_row E rows cred = Some r"
  shows "credential_row E (rows @ [m]) cred = Some r"
proof (cases cred)
  case (Token k x)
  with assms show ?thesis
    by (cases "row_by_key rows k") (simp_all add: credential_row_def row_queries_append)
next
  case (Auth u p)
  with assms show ?thesis
    by (cases "row_by_username rows u") (simp_all add: credential_row_def row_queries_append)
qed

lemma generate_Inr:
  assumes "generate_and_store_token E flt i k x father tf tt ls un pw w = (Inr r, w')"
  shows "check_super_token E w father = Inr True \<and> db_ready w \<and> (un \<noteq> None) = (pw \<noteq> None)
     \<and> \<not> has_separator un \<and> \<not> has_separator pw \<and> r = (k, x)
     \<and> (\<exists>j. limits_to_value E ls = Inr j
          \<and> \<not> row_conflict (new_token_row E i k x tf tt j un pw) (token_rows w)
          \<and> w' = reload_logged E flt
                (w\<lparr> token_rows := token_rows w @ [new_token_row E i k x tf tt j un pw] \<rparr>))"
  using assms unfolding generate_and_store_token_def
  by (simp add: handler_simps split: sum.splits if_splits)

lemma token_create_Inr:
  assumes "token_create E flt i k x father req w = (Inr rep, w')"
  obtains cred where "from_full_token father = Inr cred" "rep = Created k x"
    "generate_and_store_token E flt i k x cred (req_timestamp_from req) (req_timestamp_to req)
       (req_token_limit req) (req_username req) (req_password req) w = (Inr (k, x), w')"
proof -
  obtain cred where c: "from_full_token father = Inr cred"
    using assms by (auto simp: token_create_def rpc_finish_def parse_credential_def map_err_eq
        split: sum.splits)
  obtain r w1 where g: "generate_and_store_token E flt i k x cred (req_timestamp_from req)
      (req_timestamp_to req) (req_token_limit req) (req_username req) (req_password req) w = (r, w1)"
    by fastforce
  have "w1 = w'" "\<exists>y. r = Inr y \<and> rep = (case y of (a, b) \<Rightarrow> Created a b)"
    using assms c g
    by (auto simp: token_create_def rpc_finish_def parse_credential_def result_simps)
  with g generate_Inr that [OF c] show thesis by fastforce
qed

text \<open>A row is addressed by its key, its user name, or \<^verbatim>\<open>key:secret\<close>/\<^verbatim>\<open>user|password\<close>.\<close>

lemma find_by_key_or_username_Inr:
  "find_by_key_or_username E flt rows s = Inr r \<Longrightarrow>
     r = (case row_by_key rows s of Some m \<Rightarrow> Some m | None \<Rightarrow> row_by_username rows s)"
  by (auto simp: find_by_key_or_username_def find_row_def row_by_key_def row_by_username_def
      map_err_eq split: sum.splits option.splits)

lemma find_candidates_mem:
  "find_candidates E flt rows cs = Inr (Some m) \<Longrightarrow> m \<in> set rows"
proof (induction cs)
  case (Cons c cs)
  then obtain r where r: "find_by_key_or_username E flt rows c = Inr r"
    by (auto simp: rbind_eq_Inr)
  show ?case
  proof (cases r)
    case None
    with Cons r show ?thesis by simp
  next
    case (Some m')
    with Cons.prems r have "m' = m" by simp
    with find_by_key_or_username_Inr [OF r] Some show ?thesis
      using row_by_key_Some row_by_username_Some by (metis option.case_eq_if option.exhaust_sel)
  qed
qed simp

lemma find_target_token_mem:
  assumes "find_target_token E flt w tgt = Inr m"
  shows "m \<in> set (token_rows w)"
proof -
  have "db_ready w" using assms by (auto simp: find_target_token_def split: if_splits)
  with assms obtain cs where "find_candidates E flt (token_rows w) cs = Inr (Some m)"
    unfolding find_target_token_def Let_def by (auto simp only: result_simps not_False_eq_True if_False simp_thms)
  then show ?thesis by (rule find_candidates_mem)
qed

lemma token_roll_secret_Inr:
  assumes "token_roll_secret E flt x t tgt w = (Inr rep, w')"
  obtains m where "authorised E w t" "find_target_token E flt w tgt = Inr m" "db_ready w"
    "rep = Rolled (m_token_key m) x"
    "w' = reload_logged E flt (w\<lparr> token_rows :=
         tbl_update (\<lambda>r. m_id r = m_id m) (\<lambda>r. r\<lparr> m_token_hash := hash_string E x \<rparr>) (token_rows w) \<rparr>)"
  using assms that
  by (auto simp: token_roll_secret_def rpc_finish_def handler_simps map_err_eq
      split: sum.splits if_splits)

lemma tbl_find_update:
  assumes "\<And>r. Q (f r) = Q r"
  shows "tbl_find Q (tbl_update P f rows) = map_option (\<lambda>r. if P r then f r else r) (tbl_find Q rows)"
  by (induction rows) (auto simp: tbl_update_def assms)

lemma row_queries_update:
  assumes "\<And>r. m_token_key (f r) = m_token_key r" "\<And>r. m_username (f r) = m_username r"
  shows "row_by_key (tbl_update P f rows) k =
           map_option (\<lambda>r. if P r then f r else r) (row_by_key rows k)"
    and "row_by_username (tbl_update P f rows) u =
           map_option (\<lambda>r. if P r then f r else r) (row_by_username rows u)"
  unfolding row_by_key_def row_by_username_def by (simp_all add: tbl_find_update assms)

lemma table_id_eq:
  assumes "token_table_ok rows" "m \<in> set rows" "r \<in> set rows"
  shows "m_id r = m_id m \<longleftrightarrow> r = m"
proof
  assume "m_id r = m_id m"
  with assms show "r = m"
    by (intro unique_onD [of "\<lambda>m. Some (m_id m)" rows r m "m_id m"]) (simp_all add: token_table_ok_def)
qed simp


lemma authorised_credential:
  assumes "extern_ok E" "token_world_ok E w"
  shows "authorised E w t \<longleftrightarrow>
     (\<exists>cred m. from_full_token t = Inr cred \<and> credential_row E (token_rows w) cred = Some m \<and> m_id m = 1)"
  by (auto simp: authorised_def check_super_token_spec [OF assms] split: option.splits)

lemma token_of_row_hash [simp]:
  "token_of_row E (m\<lparr> m_token_hash := h \<rparr>) = token_of_row E m"
  by (simp add: token_of_row_def token_of_cached_def cached_of_def)

lemma token_of_new_row:
  "extern_ok E \<Longrightarrow> limits_to_value E ls = Inr j \<Longrightarrow>
     token_of_row E (new_token_row E i k x tf tt j un pw) =
       \<lparr> version = 1, token_key = k, timestamp_from = tf, timestamp_to = tt, token_limit = ls,
         username = un \<rparr>"
  using parsed_limits_to_value [of E ls "new_token_row E i k x tf tt j un pw"]
  by (simp add: token_of_row_def token_of_cached_def new_token_row_def)

lemma token_create_succeeds:
  assumes "authorised E w father" "db_ready w" "flt InsertToken = None"
    "(req_username req = None) = (req_password req = None)"
    "\<not> has_separator (req_username req)" "\<not> has_separator (req_password req)"
    "limits_to_value E (req_token_limit req) = Inr j"
    "\<not> row_conflict (new_token_row E i k x (req_timestamp_from req) (req_timestamp_to req) j
         (req_username req) (req_password req)) (token_rows w)"
  shows "token_create E flt i k x father req w =
     (Inr (Created k x), reload_logged E flt (w\<lparr> token_rows := token_rows w @
        [new_token_row E i k x (req_timestamp_from req) (req_timestamp_to req) j
           (req_username req) (req_password req)] \<rparr>))"
proof -
  obtain cred where "from_full_token father = Inr cred" "check_super_token E w cred = Inr True"
    using assms(1) by (auto simp: authorised_def)
  with assms(2-) show ?thesis
    by (simp add: token_create_def rpc_finish_def generate_and_store_token_def parse_credential_def
        super_only_def insert_row_def)
qed

lemma credential_row_deleted:
  assumes "token_table_ok rows" "m \<in> set rows"
  shows "credential_row E (tbl_delete (\<lambda>r. r = m) rows) cred =
     (if credential_row E rows cred = Some m then None else credential_row E rows cred)"
proof -
  have find: "tbl_find (\<lambda>r. g r = Some a) (tbl_delete (\<lambda>r. r = m) rows) =
      (if tbl_find (\<lambda>r. g r = Some a) rows = Some m then None else tbl_find (\<lambda>r. g r = Some a) rows)"
    if "unique_on g rows" for g :: "token_model \<Rightarrow> string option" and a
  proof (cases "tbl_find (\<lambda>r. g r = Some a) (tbl_delete (\<lambda>r. r = m) rows)")
    case None
    then have "\<And>r. r \<in> set rows \<Longrightarrow> g r = Some a \<Longrightarrow> r = m" by (auto simp: tbl_find_None)
    with None show ?thesis
      by (cases "tbl_find (\<lambda>r. g r = Some a) rows") (auto dest: tbl_find_Some)
  next
    case (Some r)
    from tbl_find_Some [OF this] have r: "r \<in> set rows" "r \<noteq> m" "g r = Some a" by auto
    from tbl_find_unique [OF that r(1,3)] r(2) Some show ?thesis by simp
  qed
  have "unique_on (\<lambda>m. Some (m_token_key m)) rows" "unique_on m_username rows"
    using assms(1) by (simp_all add: token_table_ok_def)
  from find [OF this(1)] find [OF this(2)] show ?thesis
    by (cases cred) (auto simp: credential_row_def row_by_key_def row_by_username_def bind_eq_Some_conv
        split: Option.bind_splits)
qed


lemma distinct_rows: "token_table_ok rows \<Longrightarrow> distinct rows"
proof -
  have "unique_on (\<lambda>m. Some (m_id m)) rows \<Longrightarrow> distinct rows"
    by (induction rows) (auto simp: unique_on_Cons)
  then show "token_table_ok rows \<Longrightarrow> distinct rows" by (simp add: token_table_ok_def)
qed

lemma delete_rows_single:
  assumes "delete_rows E flt site P w = (Inr n, w')" "n > 0" "token_table_ok (token_rows w)"
    and un: "\<And>r r'. r \<in> set (token_rows w) \<Longrightarrow> r' \<in> set (token_rows w) \<Longrightarrow> P r \<Longrightarrow> P r' \<Longrightarrow> r = r'"
  shows "n = 1 \<and> (\<exists>m\<in>set (token_rows w). m_id m \<noteq> 1 \<and> P m
     \<and> w' = reload_logged E flt (w\<lparr> token_rows := tbl_delete (\<lambda>r. r = m) (token_rows w) \<rparr>))"
proof -
  let ?Q = "\<lambda>r. m_id r \<noteq> 1 \<and> P r"
  have w': "w' = reload_logged E flt (w\<lparr> token_rows := tbl_delete ?Q (token_rows w) \<rparr>)"
    using delete_rows_some [OF assms(1,2)] by simp
  have n: "n = length (filter ?Q (token_rows w))"
    using assms(1) by (auto simp: delete_rows_def Let_def split: option.splits if_splits)
  with assms(2) have "filter ?Q (token_rows w) \<noteq> []" by (metis length_greater_0_conv)
  then have "hd (filter ?Q (token_rows w)) \<in> set (filter ?Q (token_rows w))" by (rule hd_in_set)
  then obtain m where m: "m \<in> set (token_rows w)" "?Q m" unfolding set_filter by blast
  have Q: "?Q r \<longleftrightarrow> r = m" if "r \<in> set (token_rows w)" for r using m that un by blast
  then have eq: "filter ?Q (token_rows w) = filter (\<lambda>r. r = m) (token_rows w)"
    by (intro filter_cong) simp_all
  from Q have eq': "tbl_delete ?Q (token_rows w) = tbl_delete (\<lambda>r. r = m) (token_rows w)"
    unfolding tbl_delete_def by (intro filter_cong) simp_all
  have "set (filter (\<lambda>r. r = m) (token_rows w)) = {m}" using m(1) by auto
  moreover have "distinct (filter (\<lambda>r. r = m) (token_rows w))"
    using distinct_rows [OF assms(3)] by simp
  ultimately have "length (filter (\<lambda>r. r = m) (token_rows w)) = 1"
    by (metis distinct_card card.empty card.insert empty_iff finite.emptyI One_nat_def)
  with n eq have "n = 1" by metis
  with w' m show ?thesis unfolding eq' by blast
qed

lemma delete_target_Inr:
  assumes "delete_target E flt tgt w = (Inr rep, w')" "token_table_ok (token_rows w)"
  obtains m how where "m \<in> set (token_rows w)" "m_id m \<noteq> 1"
    "rep = Deleted (deleted_message tgt) 1 how"
    "how = ''token_key'' \<and> m_token_key m = tgt \<or> how = ''username'' \<and> m_username m = Some tgt"
    "w' = reload_logged E flt (w\<lparr> token_rows := tbl_delete (\<lambda>r. r = m) (token_rows w) \<rparr>)"
proof -
  have un: "unique_on (\<lambda>m. Some (m_token_key m)) (token_rows w)" "unique_on m_username (token_rows w)"
    using assms(2) by (simp_all add: token_table_ok_def)
  obtain r w1 where k: "delete_token_by_key E flt tgt w = (r, w1)" by fastforce
  then obtain n where r: "r = Inr n" using assms(1) by (cases r) (auto simp: delete_target_def)
  show thesis
  proof (cases "n > 0")
    case True
    from delete_rows_single [OF k [unfolded r delete_token_by_key_def] True assms(2)] un(1)
    have "n = 1 \<and> (\<exists>m\<in>set (token_rows w). m_id m \<noteq> 1 \<and> m_token_key m = tgt
        \<and> w1 = reload_logged E flt (w\<lparr> token_rows := tbl_delete (\<lambda>r. r = m) (token_rows w) \<rparr>))"
      by (auto dest: unique_onD)
    moreover have "rep = Deleted (deleted_message tgt) n ''token_key''" "w' = w1"
      using assms(1) True k r by (simp_all add: delete_target_def)
    ultimately show thesis using that by blast
  next
    case False
    then have w1: "w1 = w" using delete_rows_none k r unfolding delete_token_by_key_def by blast
    obtain r' w2 where u: "delete_token_by_username E flt tgt w = (r', w2)" by fastforce
    then obtain n' where r': "r' = Inr n'" "n' > 0"
      using assms(1) False k r w1 by (cases r') (auto simp: delete_target_def split: if_splits)
    from delete_rows_single [OF u [unfolded r' delete_token_by_username_def] r'(2) assms(2)] un(2)
    have "n' = 1 \<and> (\<exists>m\<in>set (token_rows w). m_id m \<noteq> 1 \<and> m_username m = Some tgt
        \<and> w2 = reload_logged E flt (w\<lparr> token_rows := tbl_delete (\<lambda>r. r = m) (token_rows w) \<rparr>))"
      by (auto dest: unique_onD)
    moreover have "rep = Deleted (deleted_message tgt) n' ''username''" "w' = w2"
      using assms(1) False k r w1 u r' by (simp_all add: delete_target_def)
    ultimately show thesis using that by blast
  qed
qed

lemma token_delete_Inr:
  assumes "token_delete E flt t tgt w = (Inr rep, w')"
  shows "authorised E w t \<and> db_ready w \<and> delete_target E flt tgt w = (Inr rep, w')"
  using assms
  by (auto simp: token_delete_def rpc_finish_def handler_simps result_simps authorised_def
      split: sum.splits if_splits option.splits prod.splits)
     (metis prod.collapse)+


section \<open>A concrete deployment\<close>

text \<open>
  Stand-ins for the third-party functions that behave as documented, and the
  state after the first start of a server on an empty table.
\<close>

definition demo_limits :: "limit list" where
  "demo_limits = [\<lparr> scopes = [KvNamespace ''ns''], permissions = [PKv (Kv_Read ''a*'')] \<rparr>]"

definition demo_extern :: extern where
  "demo_extern =
     \<lparr> sha256 = (\<lambda>s. take 32 (bytes_of s @ replicate 32 0)),
       hex_encode = lower_hex, ct_eq = (\<lambda>a b. a = b),
       limits_from_value = (\<lambda>j. if j = JArray [] then Inr []
          else if j = JString ''demo'' then Inr demo_limits else Inl ''unknown''),
       permission_from_value = (\<lambda>j. Inl ''unknown''),
       limits_to_value = (\<lambda>ls. if ls = [] then Inr (JArray [])
          else if ls = demo_limits then Inr (JString ''demo'') else Inl ''unknown''),
       db_err_display = (\<lambda>e. ''db'') \<rparr>"

definition no_fault :: token_faults where
  "no_fault site = None"

definition demo_empty :: token_world where
  "demo_empty = \<lparr> db_ready = True, token_rows = [], cache_global = None, super_token_global = None \<rparr>"

definition demo_world :: token_world where
  "demo_world = token_step demo_extern no_fault (ServeStart ''rk'' ''rs'' ''rp'') demo_empty"

definition demo_request :: token_creation_request where
  "demo_request = \<lparr> req_username = Some ''bob'', req_password = Some ''secret'',
     req_timestamp_from = Some 5, req_timestamp_to = None, req_version = None,
     req_token_limit = demo_limits \<rparr>"

lemma demo_extern_ok [simp]: "extern_ok demo_extern"
  by (auto simp: extern_ok_def demo_extern_def min_def)

lemma no_fault_simp [simp]: "no_fault site = None"
  by (simp add: no_fault_def)

lemma serve_start_fresh:
  assumes "db_ready w" "token_rows w = []" "cache_global w = None"
    "flt LoadAll = None" "flt TxnInsertSuper = None"
  shows "token_rows (token_step E flt (ServeStart k x p) w) = [super_row E k x p]
     \<and> token_world_ok E (token_step E flt (ServeStart k x p) w)"
proof -
  let ?w = "w\<lparr> token_rows := [super_row E k x p] \<rparr>"
  have "snd (generate_super_token E flt k x p w) = ?w"
    using assms
    by (simp add: generate_super_token_def insert_new_super_token_def insert_row_def
        row_conflict_def reload_logged_def token_cache_reload_def cache_reload_def cache_is_set_def)
  moreover have "token_table_ok [super_row E k x p]" "row_super [super_row E k x p] \<noteq> None"
    by (simp_all add: token_table_ok_def unique_on_Cons row_super_def super_row_def)
  ultimately show ?thesis
    using cache_init_ok [of ?w flt E] cache_init_rows [of E flt ?w] assms
    by (simp add: token_world_ok_def)
qed

lemma demo_world_facts [simp]:
  "token_rows demo_world = [super_row demo_extern ''rk'' ''rs'' ''rp'']"
  "token_world_ok demo_extern demo_world"
  using serve_start_fresh [of demo_empty no_fault demo_extern "''rk''" "''rs''" "''rp''"]
  by (simp_all add: demo_empty_def demo_world_def)

lemma demo_world_ready [simp]: "db_ready demo_world"
  by (simp add: demo_world_def step_ready demo_empty_def del: token_step.simps)

lemma demo_credential:
  "credential_row demo_extern (token_rows demo_world) (Token ''rk'' ''rs'') =
     Some (super_row demo_extern ''rk'' ''rs'' ''rp'')"
  using credential_row_Token [of demo_extern "token_rows demo_world"
      "super_row demo_extern ''rk'' ''rs'' ''rp''" "''rs''" "''rs''"]
  by (simp add: super_row_def token_table_ok_def unique_on_Cons)

lemma demo_authorised [simp]: "authorised demo_extern demo_world ''rk:rs''"
  using demo_credential
  by (auto simp: authorised_credential from_full_token_def super_row_def)

lemma demo_limits_to_value [simp]: "limits_to_value demo_extern demo_limits = Inr (JString ''demo'')"
  by (simp add: demo_extern_def demo_limits_def)

abbreviation demo_row :: token_model where
  "demo_row \<equiv> new_token_row demo_extern 2 ''ck'' ''cs'' (Some 5) None (JString ''demo'')
     (Some ''bob'') (Some ''secret'')"

lemma demo_request_facts [simp]:
  "req_username demo_request = Some ''bob''" "req_password demo_request = Some ''secret''"
  "req_timestamp_from demo_request = Some 5" "req_timestamp_to demo_request = None"
  "req_token_limit demo_request = demo_limits"
  by (simp_all add: demo_request_def)

lemma demo_no_conflict: "\<not> row_conflict demo_row (token_rows demo_world)"
  by (simp add: row_conflict_def new_token_row_def super_row_def)

lemma demo_create:
  "token_create demo_extern no_fault 2 ''ck'' ''cs'' ''rk:rs'' demo_request demo_world =
     (Inr (Created ''ck'' ''cs''), reload_logged demo_extern no_fault
        (demo_world\<lparr> token_rows := token_rows demo_world @ [demo_row] \<rparr>))"
  using token_create_succeeds [of demo_extern demo_world "''rk:rs''" no_fault demo_request
      "JString ''demo''" 2 "''ck''" "''cs''"] demo_no_conflict
  by (simp add: has_separator_def contains_char_def)


section \<open>Properties\<close>

text \<open>
  (C1) Authentication is a query of the token table.  In a state whose cache was
  filled from the table, \<^verbatim>\<open>TokenCache::authenticate\<close> accepts a credential exactly
  when the row with its key (or user name) stores the hash of its secret (or
  password), returns that row, and says it is the super token exactly when the row
  has id 1; \<^verbatim>\<open>check_super_token\<close> and \<^verbatim>\<open>get_token\<close> decide by the same row, and every
  other credential gets the one error of a failed authentication.
\<close>

theorem authentication_refines_table:
  assumes "extern_ok E" "token_world_ok E w" "cache_global w = Some c"
  shows "authenticate E w c cred =
       (case credential_row E (token_rows w) cred of
          None \<Rightarrow> err (PermissionDenied AUTH_FAILED_MESSAGE)
        | Some m \<Rightarrow> Inr (cached_of E m, m_id m = 1))
     \<and> check_super_token E w cred =
       Inr (case credential_row E (token_rows w) cred of None \<Rightarrow> False | Some m \<Rightarrow> m_id m = 1)
     \<and> get_token E w cred =
       (case credential_row E (token_rows w) cred of
          None \<Rightarrow> err (PermissionDenied AUTH_FAILED_MESSAGE)
        | Some m \<Rightarrow> Inr (token_of_row E m))"
  using authenticate_spec [OF assms] check_super_token_spec [OF assms(1,2)]
    get_token_spec [OF assms(1,2)] by simp

theorem authentication_refines_table_witness:
  "\<exists>c. cache_global demo_world = Some c
     \<and> authenticate demo_extern demo_world c (Token ''rk'' ''rs'') =
         Inr (cached_of demo_extern (super_row demo_extern ''rk'' ''rs'' ''rp''), True)"
proof -
  obtain c where c: "cache_global demo_world = Some c"
    using world_ok_cache_set [OF demo_world_facts(2)] by (auto simp: cache_is_set_def)
  from authentication_refines_table [OF demo_extern_ok demo_world_facts(2) c, of "Token ''rk'' ''rs''"]
    demo_credential c show ?thesis by (simp add: super_row_def)
qed




text \<open>
  (C7) Whatever requests, restarts and super-token rotations run, in any order
  and with any database failure, the table keeps its unique ids, keys and user
  names and never loses the row of the super token.
\<close>

theorem token_table_invariant:
  assumes "token_table_ok (token_rows w)" "row_super (token_rows w) \<noteq> None"
  shows "token_table_ok (token_rows (token_run E reqs w))
     \<and> row_super (token_rows (token_run E reqs w)) \<noteq> None"
  using assms
proof (induction reqs arbitrary: w)
  case (Cons fr reqs)
  obtain flt r where [simp]: "fr = (flt, r)" by fastforce
  show ?case using Cons.IH [of "token_step E flt r w"] step_table [OF Cons.prems, of E flt r] by simp
qed simp

theorem token_table_invariant_witness:
  "token_table_ok (token_rows (token_run demo_extern
     [(\<lambda>_. Some (OtherDbErr ''disk''), ReqDelete ''rk:rs'' ''rk''), (no_fault, CliRollSuper ''k2'' ''s2'' ''p2'')]
     demo_world))"
  using token_table_invariant [of demo_world demo_extern
      "[(\<lambda>_. Some (OtherDbErr ''disk''), ReqDelete ''rk:rs'' ''rk''), (no_fault, CliRollSuper ''k2'' ''s2'' ''p2'')]"]
    demo_world_facts(2) unfolding token_world_ok_def by blast

text \<open>
  (C3) The cache stays the image of the table: from a coherent state, after any
  sequence of token requests and restarts of the serve loop in which the table
  can be reloaded, lookups in the cache are again the queries of the table, so a
  change is visible to the next authentication.
\<close>

theorem token_cache_coherent:
  assumes "token_world_ok E w" "db_ready w"
    and "\<forall>(flt, r) \<in> set reqs. flt LoadAll = None \<and> (\<forall>k x p. r \<noteq> CliRollSuper k x p)"
  shows "token_world_ok E (token_run E reqs w)"
  using assms
proof (induction reqs arbitrary: w)
  case (Cons fr reqs)
  obtain flt r where [simp]: "fr = (flt, r)" by fastforce
  have "token_world_ok E (token_step E flt r w)" "db_ready (token_step E flt r w)"
    using Cons.prems step_world_ok [of E w flt r] step_ready [of E flt r w] by auto
  with Cons.IH [of "token_step E flt r w"] Cons.prems show ?case by auto
qed simp

theorem token_cache_coherent_witness:
  "token_world_ok demo_extern (token_run demo_extern
     [(no_fault, ReqCreate 2 ''ck'' ''cs'' ''rk:rs'' demo_request), (no_fault, ReqDelete ''rk:rs'' ''bob'')]
     demo_world)"
  by (rule token_cache_coherent) auto

text \<open>
  (C4) Only the super token changes anything: if a request of the token namespace
  leaves the state different from before, the credential it carried was that of the
  row with id 1.
\<close>

theorem only_super_token_changes_state:
  assumes "extern_ok E" "token_world_ok E w" "acting_credential r = Some t"
    and "token_step E flt r w \<noteq> w"
  shows "\<exists>cred m. from_full_token t = Inr cred
     \<and> credential_row E (token_rows w) cred = Some m \<and> m_id m = 1"
  using rpc_step_effect [OF assms(3), of E flt w] assms(4) authorised_credential [OF assms(1,2)]
  by (auto simp: admin_effect_def)

theorem only_super_token_changes_state_witness:
  "token_step demo_extern no_fault (ReqCreate 2 ''ck'' ''cs'' ''rk:rs'' demo_request) demo_world \<noteq> demo_world
   \<and> (\<exists>cred m. from_full_token ''rk:rs'' = Inr cred
     \<and> credential_row demo_extern (token_rows demo_world) cred = Some m \<and> m_id m = 1)"
proof -
  from demo_create have "length (token_rows (token_step demo_extern no_fault
      (ReqCreate 2 ''ck'' ''cs'' ''rk:rs'' demo_request) demo_world)) = 2"
    by simp
  then have "token_step demo_extern no_fault
      (ReqCreate 2 ''ck'' ''cs'' ''rk:rs'' demo_request) demo_world \<noteq> demo_world"
    using demo_world_facts(1) by auto
  with only_super_token_changes_state [OF demo_extern_ok demo_world_facts(2) _ this, of "''rk:rs''"]
  show ?thesis by simp
qed


text \<open>
  The super token cannot be taken over or crippled through the API: after any
  request of the token namespace the row with id 1 is still there with the same
  key, the same user name, the same limits and the same validity window.
\<close>

theorem super_row_protected:
  assumes "token_table_ok (token_rows w)" "row_super (token_rows w) = Some s"
    and "acting_credential r = Some t"
  shows "\<exists>s'. row_super (token_rows (token_step E flt r w)) = Some s'
     \<and> m_token_key s' = m_token_key s \<and> m_username s' = m_username s
     \<and> m_token_limit s' = m_token_limit s
     \<and> m_time_stamp_from s' = m_time_stamp_from s \<and> m_time_stamp_to s' = m_time_stamp_to s"
  using rpc_step_effect [OF assms(3), of E flt w] table_change_super_row [OF _ assms(1,2)] assms(2)
  by (auto simp: admin_effect_def)

theorem super_row_protected_witness:
  "\<exists>s'. row_super (token_rows (token_step demo_extern no_fault (ReqDelete ''rk:rs'' ''root'') demo_world)) = Some s'
     \<and> m_token_key s' = ''rk''"
  using super_row_protected [of demo_world "super_row demo_extern ''rk'' ''rs'' ''rp''"
      "ReqDelete ''rk:rs'' ''root''" "''rk:rs''" demo_extern no_fault] demo_world_facts(2)
  by (auto simp: token_world_ok_def row_super_def super_row_def simp del: token_step.simps)

text \<open>
  (C5) A created token works at once.  When the super token asks for a token with
  user name and password both given or both absent and free of the separators, and
  the drawn key and the assigned id are fresh, the request succeeds; the returned
  key and secret then authenticate as an ordinary token with exactly the requested
  limits and window, the user name and password parse and authenticate as the same
  token, and every credential that worked before still names the same row.
\<close>

theorem create_then_login:
  assumes "extern_ok E" "token_world_ok E w" "db_ready w" "authorised E w father"
    and "flt InsertToken = None" "flt LoadAll = None"
    and "(req_username req = None) = (req_password req = None)"
    and "\<not> has_separator (req_username req)" "\<not> has_separator (req_password req)"
    and "limits_to_value E (req_token_limit req) = Inr j"
    and "\<not> row_conflict (new_token_row E i k x (req_timestamp_from req) (req_timestamp_to req) j
           (req_username req) (req_password req)) (token_rows w)"
  shows "\<exists>w'. token_create E flt i k x father req w = (Inr (Created k x), w')
     \<and> token_world_ok E w'
     \<and> get_token E w' (Token k x) =
         Inr \<lparr> version = 1, token_key = k, timestamp_from = req_timestamp_from req,
               timestamp_to = req_timestamp_to req, token_limit = req_token_limit req,
               username = req_username req \<rparr>
     \<and> check_super_token E w' (Token k x) = Inr False
     \<and> (\<forall>u p. req_username req = Some u \<and> req_password req = Some p \<longrightarrow>
           from_full_token (u @ ''|'' @ p) = Inr (Auth u p)
           \<and> get_token E w' (Auth u p) = get_token E w' (Token k x))
     \<and> (\<forall>cred m. credential_row E (token_rows w) cred = Some m \<longrightarrow>
           credential_row E (token_rows w') cred = Some m)"
proof -
  let ?m = "new_token_row E i k x (req_timestamp_from req) (req_timestamp_to req) j
     (req_username req) (req_password req)"
  let ?w = "reload_logged E flt (w\<lparr> token_rows := token_rows w @ [?m] \<rparr>)"
  note created = token_create_succeeds [of E w father flt req j i k x, OF assms(4,3,5,7-11)]
  have tab: "token_table_ok (token_rows w @ [?m])"
    using assms(2,11) by (auto simp: token_world_ok_def intro: token_table_ok_insert)
  have ok: "token_world_ok E ?w"
    using effect_world_ok [of E flt father w ?w] create_effect [of E flt father w i k x req]
      created assms(2,6) by simp
  have id: "m_id ?m \<noteq> 1"
    using assms(2,11) unfolding token_world_ok_def row_super_iff row_conflict_iff by metis
  have key: "m_token_key ?m = k" "m_token_hash ?m = hash_string E x"
    "m_username ?m = req_username req" "m_password_hash ?m = map_option (hash_string E) (req_password req)"
    by (simp_all add: new_token_row_def)
  have row: "credential_row E (token_rows ?w) (Token k x) = Some ?m"
    using credential_row_Token [OF assms(1) tab _ key(2), of x] key(1) by simp
  have login: "credential_row E (token_rows ?w) (Auth u p) = Some ?m"
    if "req_username req = Some u" "req_password req = Some p" for u p
    using credential_row_Auth [OF assms(1) tab, of ?m u p p] key that by simp
  have "CHR '':'' \<notin> set (u @ ''|'' @ p)" "CHR ''|'' \<notin> set u"
    if "req_username req = Some u" "req_password req = Some p" for u p
    using that assms(8,9) by (auto simp: has_separator_def contains_char_iff)
  then have parse: "from_full_token (u @ ''|'' @ p) = Inr (Auth u p)"
    if "req_username req = Some u" "req_password req = Some p" for u p
    using that by (simp add: from_full_token_Auth)
  have get: "get_token E ?w (Token k x) =
      Inr \<lparr> version = 1, token_key = k, timestamp_from = req_timestamp_from req,
            timestamp_to = req_timestamp_to req, token_limit = req_token_limit req,
            username = req_username req \<rparr>"
    by (simp only: get_token_spec [OF assms(1) ok] row option.case token_of_new_row [OF assms(1,10)])
  have "check_super_token E ?w (Token k x) = Inr False"
    using id by (simp only: check_super_token_spec [OF assms(1) ok] row option.case)
  moreover have "get_token E ?w (Auth u p) = get_token E ?w (Token k x)"
    if "req_username req = Some u" "req_password req = Some p" for u p
    by (simp only: get_token_spec [OF assms(1) ok] row login [OF that])
  moreover have "credential_row E (token_rows ?w) cred = Some m"
    if "credential_row E (token_rows w) cred = Some m" for cred m
    using credential_row_append [OF that] by simp
  ultimately show ?thesis using created ok get parse by blast
qed

theorem create_then_login_witness:
  "\<exists>w'. token_create demo_extern no_fault 2 ''ck'' ''cs'' ''rk:rs'' demo_request demo_world =
       (Inr (Created ''ck'' ''cs''), w')
     \<and> get_token demo_extern w' (Auth ''bob'' ''secret'') = get_token demo_extern w' (Token ''ck'' ''cs'')"
  using create_then_login [of demo_extern demo_world "''rk:rs''" no_fault demo_request "JString ''demo''"
      2 "''ck''" "''cs''"] demo_no_conflict
  by (auto simp: has_separator_def contains_char_def)


lemma roll_secret_credentials:
  fixes x :: string
  assumes E: "extern_ok E" and tab: "token_table_ok rows" and m: "m \<in> set rows"
  defines "rows' \<equiv> tbl_update (\<lambda>r. m_id r = m_id m) (\<lambda>r. r\<lparr> m_token_hash := hash_string E x \<rparr>) rows"
  shows "credential_row E rows' (Token (m_token_key m) z) =
       (if hash_to_bytes E z = hash_to_bytes E x then Some (m\<lparr> m_token_hash := hash_string E x \<rparr>) else None)"
    and "key \<noteq> m_token_key m \<Longrightarrow> credential_row E rows' (Token key z) = credential_row E rows (Token key z)"
    and "map_option (token_of_row E) (credential_row E rows' (Auth u q)) =
       map_option (token_of_row E) (credential_row E rows (Auth u q))"
proof -
  let ?f = "\<lambda>r. r\<lparr> m_token_hash := hash_string E x \<rparr>"
  have k: "row_by_key rows' key = map_option (\<lambda>r. if m_id r = m_id m then ?f r else r) (row_by_key rows key)"
    and u: "row_by_username rows' u = map_option (\<lambda>r. if m_id r = m_id m then ?f r else r) (row_by_username rows u)"
    for key u by (simp_all add: rows'_def row_queries_update)
  have id: "m_id r = m_id m \<longleftrightarrow> r = m" if "r \<in> set rows" for r
    by (rule table_id_eq [OF tab m that])
  show "credential_row E rows' (Token (m_token_key m) z) =
      (if hash_to_bytes E z = hash_to_bytes E x then Some (?f m) else None)"
    using E by (simp add: credential_row_def k row_by_key_mem [OF tab m])
  show "credential_row E rows' (Token key z) = credential_row E rows (Token key z)"
    if "key \<noteq> m_token_key m"
  proof (cases "row_by_key rows key")
    case (Some r)
    with row_by_key_Some [OF Some] id [of r] that have "m_id r \<noteq> m_id m" by auto
    with Some show ?thesis by (simp add: credential_row_def k)
  qed (simp add: credential_row_def k)
  have "password_hash_bytes (cached_of E (?f r)) = password_hash_bytes (cached_of E r)" for r
    by (simp add: cached_of_def)
  then show "map_option (token_of_row E) (credential_row E rows' (Auth u q)) =
      map_option (token_of_row E) (credential_row E rows (Auth u q))"
    by (cases "row_by_username rows u") (simp_all add: credential_row_def u)
qed

text \<open>
  Rolling a secret replaces it: after a successful roll the key
  authenticates with the new secret and with nothing else (up to a collision of
  the hash), every other key and every user name and password authenticate as
  before, and the reply carries the key of the rolled token and its new secret.
\<close>

theorem roll_secret_replaces:
  assumes "extern_ok E" "token_world_ok E w" "flt LoadAll = None"
    and "token_roll_secret E flt x t tgt w = (Inr (Rolled k y), w')"
  shows "y = x \<and> token_world_ok E w'
     \<and> (\<forall>z. is_ok (get_token E w' (Token k z)) \<longleftrightarrow> hash_to_bytes E z = hash_to_bytes E x)
     \<and> (\<forall>key z. key \<noteq> k \<longrightarrow> get_token E w' (Token key z) = get_token E w (Token key z))
     \<and> (\<forall>u q. get_token E w' (Auth u q) = get_token E w (Auth u q))"
proof -
  obtain m where m: "find_target_token E flt w tgt = Inr m" "Rolled k y = Rolled (m_token_key m) x"
    "w' = reload_logged E flt (w\<lparr> token_rows :=
         tbl_update (\<lambda>r. m_id r = m_id m) (\<lambda>r. r\<lparr> m_token_hash := hash_string E x \<rparr>) (token_rows w) \<rparr>)"
    using token_roll_secret_Inr [OF assms(4)] by metis
  have ok: "token_world_ok E w'"
    using effect_world_ok [of E flt t w w'] roll_secret_effect [of E flt t w x tgt] assms by simp
  have "token_table_ok (token_rows w)" using assms(2) by (simp add: token_world_ok_def)
  note creds = roll_secret_credentials [OF assms(1) this find_target_token_mem [OF m(1)], where x = x]
  have get: "get_token E v cred =
      (case map_option (token_of_row E) (credential_row E (token_rows v) cred) of
         None \<Rightarrow> err (PermissionDenied AUTH_FAILED_MESSAGE) | Some tk \<Rightarrow> Inr tk)"
    if "token_world_ok E v" for v cred
    by (simp add: get_token_spec [OF assms(1) that] split: option.split)
  have rows: "token_rows w' =
      tbl_update (\<lambda>r. m_id r = m_id m) (\<lambda>r. r\<lparr> m_token_hash := hash_string E x \<rparr>) (token_rows w)"
    using m(3) by simp
  show ?thesis
    using m(2) ok creds
    by (auto simp: get [OF ok] get [OF assms(2)] rows split: if_splits)
qed

lemma demo_roll:
  "token_roll_secret demo_extern no_fault ''ns'' ''rk:rs'' ''root'' demo_world =
     (Inr (Rolled ''rk'' ''ns''), snd (token_roll_secret demo_extern no_fault ''ns'' ''rk:rs'' ''root'' demo_world))"
proof -
  have "verify_supertoken demo_extern demo_world ''rk:rs'' = Inr ()"
    by (simp add: verify_supertoken_Inr)
  then show ?thesis
    by (simp add: token_roll_secret_def rpc_finish_def find_target_token_def extract_target_identifier_def
        find_by_key_or_username_def find_row_def super_row_def update_row_def)
qed

theorem roll_secret_replaces_witness:
  "\<exists>w'. token_roll_secret demo_extern no_fault ''ns'' ''rk:rs'' ''root'' demo_world = (Inr (Rolled ''rk'' ''ns''), w')
     \<and> is_ok (get_token demo_extern w' (Token ''rk'' ''ns''))"
  using roll_secret_replaces [OF demo_extern_ok demo_world_facts(2) no_fault_simp demo_roll] demo_roll
  by blast

text \<open>
  (C6) Deleting a token revokes exactly that token: a successful delete removed one
  row, never the super token's, addressed by its key or else by its user name; in
  the new state every credential of that row is refused and every other credential
  names the row it named before.
\<close>

theorem delete_revokes:
  assumes "token_world_ok E w" "flt LoadAll = None"
    and "token_delete E flt t tgt w = (Inr rep, w')"
  shows "\<exists>m how. m \<in> set (token_rows w) \<and> m_id m \<noteq> 1
     \<and> rep = Deleted (deleted_message tgt) 1 how
     \<and> (how = ''token_key'' \<and> m_token_key m = tgt \<or> how = ''username'' \<and> m_username m = Some tgt)
     \<and> token_world_ok E w'
     \<and> (\<forall>cred. credential_row E (token_rows w') cred =
          (if credential_row E (token_rows w) cred = Some m then None
           else credential_row E (token_rows w) cred))"
proof -
  have tab: "token_table_ok (token_rows w)" using assms(1) by (simp add: token_world_ok_def)
  have "delete_target E flt tgt w = (Inr rep, w')" using token_delete_Inr [OF assms(3)] by simp
  from delete_target_Inr [OF this tab]
  obtain m how where m: "m \<in> set (token_rows w)" "m_id m \<noteq> 1"
    "rep = Deleted (deleted_message tgt) 1 how"
    "how = ''token_key'' \<and> m_token_key m = tgt \<or> how = ''username'' \<and> m_username m = Some tgt"
    "w' = reload_logged E flt (w\<lparr> token_rows := tbl_delete (\<lambda>r. r = m) (token_rows w) \<rparr>)"
    by blast
  from m(5) have rows: "token_rows w' = tbl_delete (\<lambda>r. r = m) (token_rows w)" by simp
  have "token_world_ok E w'"
    using effect_world_ok [of E flt t w w'] delete_effect [of E flt t w tgt] assms by simp
  with m(1-4) credential_row_deleted [OF tab m(1)] show ?thesis unfolding rows by blast
qed

lemma demo_delete:
  defines "w1 \<equiv> snd (token_create demo_extern no_fault 2 ''ck'' ''cs'' ''rk:rs'' demo_request demo_world)"
  shows "token_world_ok demo_extern w1"
    and "token_delete demo_extern no_fault ''rk:rs'' ''bob'' w1 =
     (Inr (Deleted (deleted_message ''bob'') 1 ''username''),
      snd (token_delete demo_extern no_fault ''rk:rs'' ''bob'' w1))"
proof -
  show ok: "token_world_ok demo_extern w1"
    using effect_world_ok [OF create_effect demo_world_facts(2)] by (simp add: w1_def)
  have rows: "token_rows w1 = [super_row demo_extern ''rk'' ''rs'' ''rp'', demo_row]"
    by (simp add: w1_def demo_create)
  have ready: "db_ready w1" by (simp add: w1_def demo_create)
  have "credential_row demo_extern (token_rows w1) (Token ''rk'' ''rs'') =
      Some (super_row demo_extern ''rk'' ''rs'' ''rp'')"
    using credential_row_append [OF demo_credential, of demo_row] by (simp add: rows)
  then have "check_super_token demo_extern w1 (Token ''rk'' ''rs'') = Inr True"
    by (simp add: check_super_token_spec [OF demo_extern_ok ok] super_row_def)
  then show "token_delete demo_extern no_fault ''rk:rs'' ''bob'' w1 =
     (Inr (Deleted (deleted_message ''bob'') 1 ''username''),
      snd (token_delete demo_extern no_fault ''rk:rs'' ''bob'' w1))"
    using ready
    by (simp add: token_delete_def rpc_finish_def parse_credential_def from_full_token_def super_only_def
        trim_def ws1_def ws2_def ws3_def byte_of_def find_row_def rows delete_target_def
        delete_token_by_key_def delete_token_by_username_def delete_rows_def super_row_def
        new_token_row_def tbl_delete_def)
qed

theorem delete_revokes_witness:
  "\<exists>w w' m. token_delete demo_extern no_fault ''rk:rs'' ''bob'' w =
       (Inr (Deleted (deleted_message ''bob'') 1 ''username''), w')
     \<and> m \<in> set (token_rows w) \<and> m_id m \<noteq> 1"
  using delete_revokes [OF demo_delete(1) no_fault_simp demo_delete(2)] demo_delete(2) by blast


text \<open>
  Rotating the super token is atomic: when the transaction fails at any of its
  statements or at the commit, the state is unchanged; when it succeeds, the old
  row with id 1 is gone, all other rows are kept in place, and the only row with
  id 1 is the new one, whose key, secret and password are those returned.
\<close>

theorem roll_super_atomic:
  assumes "token_table_ok (token_rows w)"
  shows "case roll_super_token E flt k x p w of
       (Inl e, w') \<Rightarrow> w' = w
     | (Inr (full, pw), w') \<Rightarrow>
         full = full_token k x \<and> pw = p \<and> token_table_ok (token_rows w')
         \<and> token_rows w' = tbl_delete (\<lambda>r. m_id r = 1) (token_rows w) @ [super_row E k x p]
         \<and> row_super (token_rows w') = Some (super_row E k x p)"
proof -
  let ?rest = "tbl_delete (\<lambda>r. m_id r = 1) (token_rows w)" and ?s = "super_row E k x p"
  have "token_table_ok (?rest @ [?s])" if "\<not> row_conflict ?s ?rest"
    by (rule token_table_ok_insert [OF token_table_ok_delete [OF assms] that])
  moreover from this have "row_super (?rest @ [?s]) = Some ?s" if "\<not> row_conflict ?s ?rest"
    using row_super_mem [of "?rest @ [?s]" ?s] that by (simp add: super_row_def)
  ultimately show ?thesis
    by (auto simp: roll_super_token_def roll_txn_def rbind_def insert_row_Inr
        split: option.splits sum.splits)
qed

theorem roll_super_atomic_witness:
  "token_table_ok (token_rows demo_world)
   \<and> snd (roll_super_token demo_extern (\<lambda>s. if s = TxnCommit then Some (OtherDbErr ''io'') else None)
        ''k2'' ''s2'' ''p2'' demo_world) = demo_world"
proof -
  have tab: "token_table_ok (token_rows demo_world)"
    using demo_world_facts(2) unfolding token_world_ok_def by blast
  let ?flt = "\<lambda>s. if s = TxnCommit then Some (OtherDbErr ''io'') else None"
  have "\<exists>e w'. roll_super_token demo_extern ?flt ''k2'' ''s2'' ''p2'' demo_world = (Inl e, w')"
    by (auto simp: roll_super_token_def roll_txn_def insert_row_def tbl_delete_def row_conflict_def)
  with roll_super_atomic [OF tab, where E = demo_extern and flt = ?flt and k = "''k2''"
      and x = "''s2''" and p = "''p2''"] tab
  show ?thesis by auto
qed

text \<open>
  A running server does not notice the subcommand \<^verbatim>\<open>roll-super-token\<close>: after
  a successful rotation by that process the server answers every super-token check
  as before, so the replaced credential keeps full access although no row of the
  table has it any more, until the cache is filled again.
\<close>

theorem cli_roll_not_noticed:
  fixes x p :: string
  assumes "extern_ok E" "token_world_ok E w" "db_ready w"
    and "flt TxnDeleteSuper = None" "flt TxnInsertSuper = None" "flt TxnCommit = None"
    and "\<forall>r\<in>set (token_rows w). m_id r \<noteq> 1 \<longrightarrow> m_token_key r \<noteq> k \<and> m_username r \<noteq> Some ''root''"
    and "credential_row E (token_rows w) (Token old y) = Some s" "m_id s = 1" "old \<noteq> k"
  defines "w' \<equiv> token_step E flt (CliRollSuper k x p) w"
  shows "check_super_token E w' (Token old y) = Inr True
     \<and> credential_row E (token_rows w') (Token old y) = None
     \<and> check_super_token E w' cred = check_super_token E w cred
     \<and> check_super_token E w' (Token k x) = Inr False"
proof -
  have tab: "token_table_ok (token_rows w)" using assms(2) by (simp add: token_world_ok_def)
  have same: "check_super_token E w' c = check_super_token E w c" for c
    by (simp add: w'_def check_super_token_def cache_of_def get_super_token_def)
  have "\<not> row_conflict (super_row E k x p) (tbl_delete (\<lambda>r. m_id r = 1) (token_rows w))"
    using assms(7) by (auto simp: row_conflict_iff super_row_def)
  then have rows: "token_rows w' = tbl_delete (\<lambda>r. m_id r = 1) (token_rows w) @ [super_row E k x p]"
    using assms(3-6) by (simp add: w'_def roll_super_token_def roll_txn_def insert_row_def)
  have s: "s \<in> set (token_rows w)" "m_token_key s = old"
    using assms(8) by (auto simp: credential_row_def bind_eq_Some_conv dest: row_by_key_Some split: if_splits)
  have "r = s" if "r \<in> set (token_rows w)" "m_token_key r = old" for r
    using row_by_key_mem [OF tab that(1)] row_by_key_mem [OF tab s(1)] that s(2) by simp
  then have gone: "row_by_key (token_rows w') old = None"
    using assms(9,10) by (auto simp: rows row_by_key_def tbl_find_None super_row_def)
  have "row_by_key (token_rows w) k = None \<or> (\<exists>r. row_by_key (token_rows w) k = Some r \<and> m_id r \<noteq> 1)"
    using super_id_unique [OF tab row_super_mem [OF tab s(1) assms(9)]] s(2) assms(9,10)
    by (cases "row_by_key (token_rows w) k") (auto dest!: row_by_key_Some)
  then have "check_super_token E w (Token k x) = Inr False"
    by (auto simp: check_super_token_spec [OF assms(1,2)] credential_row_def split: if_splits)
  then show ?thesis
    using same gone assms(8,9)
    by (simp add: check_super_token_spec [OF assms(1,2)] credential_row_def)
qed

theorem cli_roll_not_noticed_witness:
  "check_super_token demo_extern (token_step demo_extern no_fault (CliRollSuper ''k2'' ''s2'' ''p2'') demo_world)
     (Token ''rk'' ''rs'') = Inr True"
  using cli_roll_not_noticed [OF demo_extern_ok demo_world_facts(2) demo_world_ready _ _ _ _
      demo_credential, where flt = no_fault and k = "''k2''" and x = "''s2''" and p = "''p2''"
      and cred = "Token ''rk'' ''rs''"]
  by (simp add: super_row_def del: token_step.simps)

text \<open>
  What is stored for a secret is its hash, readable back: the text
  \<^verbatim>\<open>hash_string\<close> writes into the table decodes to the digest \<^verbatim>\<open>hash_to_bytes\<close>
  computes at login, so a stored secret is compared by digest; and a damaged hash
  column decodes to 32 bytes too, never to a shorter string.
\<close>

theorem stored_hash_round_trip:
  assumes "extern_ok E"
  shows "hex_to_bytes (hash_string E s) = Some (hash_to_bytes E s)
     \<and> (\<forall>m. length (token_hash_bytes (cached_of E m)) = 32)"
  using assms token_hash_32 by simp

theorem stored_hash_round_trip_witness:
  "hex_to_bytes (hash_string demo_extern ''s3cret'') = Some (hash_to_bytes demo_extern ''s3cret'')"
  using stored_hash_round_trip [OF demo_extern_ok] by blast

text \<open>
  Listing is complete and shows no secret: for the super token
  \<^verbatim>\<open>list_all_tokens\<close> returns exactly the rows of the table as tokens, the super
  token included, without their hashes; for anyone else it returns an error.
\<close>

theorem list_all_tokens_complete:
  assumes "extern_ok E" "token_world_ok E w"
  shows "(case token_list_all E t w of
       (Inr (TokenList ts), w') \<Rightarrow> authorised E w t \<and> w' = w \<and> set ts = token_of_row E ` set (token_rows w)
     | (Inr _, _) \<Rightarrow> False
     | (Inl _, w') \<Rightarrow> \<not> authorised E w t \<and> w' = w)"
proof -
  obtain c where c: "cache_global w = Some c" "hm_wf (by_key c)"
    "\<And>k. hm_get (by_key c) k = map_option (cached_of E) (row_by_key (token_rows w) k)"
    using token_world_view [OF assms(2)] by metis
  have tab: "token_table_ok (token_rows w)" using assms(2) by (simp add: token_world_ok_def)
  have "set (get_all c) = cached_of E ` set (token_rows w)"
    using row_by_key_mem [OF tab] row_by_key_Some
    by (force simp: get_all_def hm_values_iff [OF c(2)] c(3))
  then have all: "set (map token_of_cached (get_all c)) = token_of_row E ` set (token_rows w)"
    by (simp add: image_image token_of_row_def)
  show ?thesis
  proof (cases "authorised E w t")
    case True
    with all show ?thesis
      by (auto simp: authorised_def token_list_all_def rpc_finish_def parse_credential_def super_only_def
          cache_of_def c(1))
  next
    case False
    then show ?thesis
      by (auto simp: token_list_all_def rpc_finish_def authorised_def result_simps handler_simps
          split: sum.splits token_reply.splits)
  qed
qed

theorem list_all_tokens_complete_witness:
  "case token_list_all demo_extern ''rk:rs'' demo_world of
     (Inr (TokenList ts), w') \<Rightarrow>
        set ts = token_of_row demo_extern ` set (token_rows demo_world)
   | _ \<Rightarrow> False"
  using list_all_tokens_complete [OF demo_extern_ok demo_world_facts(2), of "''rk:rs''"] demo_authorised
  by (auto split: sum.splits token_reply.splits prod.splits)

end
