(* ===== verification/Kv_Rpc.thy ===== *)
theory Kv_Rpc
  imports Kv_Auth Token_Props
begin

text \<open>
  The handlers of \<^verbatim>\<open>ng-kv/src/rpc\<close> and the properties of the key-value
  component: what its permission checks decide, round trips and isolation of the
  table, and what a client can read, list and change.
\<close>


section \<open>Handlers\<close>

datatype kv_reply =
    KvCreated kv_store | KvSuccess | KvValue json | KvKeys "string list"
  | KvItems "(string \<times> string \<times> json) list"

definition kv_create :: "checker \<Rightarrow> kv_env \<Rightarrow> string \<Rightarrow> string \<Rightarrow> kv_world \<Rightarrow> kv_reply rpc_result \<times> kv_world" where
  "kv_create C D tok name w = rpc_finish (
     case rbind (ensure_namespace_writable name) (\<lambda>_. check_kv_create_permission C tok) of
       Inl e \<Rightarrow> (Inl e, w)
     | Inr _ \<Rightarrow>
         (case create_kv D name w of
            (Inl e, w') \<Rightarrow> (Inl e, w')
          | (Inr store, w') \<Rightarrow> (Inr (KvCreated store), w')))"

definition kv_delete_key ::
  "checker \<Rightarrow> kv_env \<Rightarrow> string \<Rightarrow> string \<Rightarrow> string \<Rightarrow> kv_world \<Rightarrow> kv_reply rpc_result \<times> kv_world" where
  "kv_delete_key C D tok ns key w = rpc_finish (
     case rbind (ensure_namespace_writable ns) (\<lambda>_. check_kv_delete_permission C tok ns key) of
       Inl e \<Rightarrow> (Inl e, w)
     | Inr _ \<Rightarrow>
         (case delete_key_from_kv D ns key w of
            (Inl e, w') \<Rightarrow> (Inl e, w')
          | (Inr _, w') \<Rightarrow> (Inr KvSuccess, w')))"

definition kv_delete_namespace ::
  "checker \<Rightarrow> kv_env \<Rightarrow> string \<Rightarrow> string \<Rightarrow> kv_world \<Rightarrow> kv_reply rpc_result \<times> kv_world" where
  "kv_delete_namespace C D tok ns w = rpc_finish (
     case rbind (ensure_namespace_writable ns) (\<lambda>_. check_kv_delete_namespace_permission C tok ns) of
       Inl e \<Rightarrow> (Inl e, w)
     | Inr _ \<Rightarrow>
         (case delete_kv D ns w of
            (Inl e, w') \<Rightarrow> (Inl e, w')
          | (Inr _, w') \<Rightarrow> (Inr KvSuccess, w')))"

definition kv_set_value ::
  "checker \<Rightarrow> kv_env \<Rightarrow> string \<Rightarrow> string \<Rightarrow> string \<Rightarrow> json \<Rightarrow> kv_world \<Rightarrow> kv_reply rpc_result \<times> kv_world" where
  "kv_set_value C D tok ns key v w = rpc_finish (
     case rbind (ensure_namespace_writable ns) (\<lambda>_. check_kv_write_permission C tok ns key) of
       Inl e \<Rightarrow> (Inl e, w)
     | Inr _ \<Rightarrow>
         (case set_v_to_kv D ns key v w of
            (Inl e, w') \<Rightarrow> (Inl e, w')
          | (Inr _, w') \<Rightarrow> (Inr KvSuccess, w')))"

definition or_null :: "json option \<Rightarrow> json" where
  "or_null v = (case v of Some x \<Rightarrow> x | None \<Rightarrow> JNull)"

definition kv_get_value ::
  "checker \<Rightarrow> kv_env \<Rightarrow> string \<Rightarrow> string \<Rightarrow> string \<Rightarrow> kv_world \<Rightarrow> kv_reply rpc_result \<times> kv_world" where
  "kv_get_value C D tok ns key w = rpc_finish (
     rbind (check_kv_read_permission C tok ns key) (\<lambda>_.
     rbind (get_v_from_kv D w ns key) (\<lambda>v. Inr (KvValue (or_null v)))), w)"

definition kv_get_all_keys ::
  "checker \<Rightarrow> kv_env \<Rightarrow> string \<Rightarrow> string \<Rightarrow> kv_world \<Rightarrow> kv_reply rpc_result \<times> kv_world" where
  "kv_get_all_keys C D tok ns w = rpc_finish (
     rbind (check_kv_list_keys_permission C tok ns) (\<lambda>_.
     rbind (get_keys_from_kv D w ns) (\<lambda>keys. Inr (KvKeys keys))), w)"

definition kv_list_all_namespace ::
  "checker \<Rightarrow> kv_env \<Rightarrow> string \<Rightarrow> kv_world \<Rightarrow> kv_reply rpc_result \<times> kv_world" where
  "kv_list_all_namespace C D tok w = rpc_finish (
     rbind (resolve_kv_list_namespace_permission C tok) (\<lambda>perm.
     rbind (list_all_namespaces D w) (\<lambda>namespaces.
       Inr (KvKeys (case perm of
          NsAll \<Rightarrow> namespaces
        | NsScoped allowed \<Rightarrow> filter (\<lambda>ns. List.member allowed ns) namespaces)))), w)"

definition wildcard_prefix :: "string \<Rightarrow> string option" where
  "wildcard_prefix key_pattern =
     (if \<not> contains_char key_pattern (CHR ''*'') then None
      else strip_suffix_char (CHR ''*'') key_pattern)"

fun check_items :: "checker \<Rightarrow> string \<Rightarrow> (string \<times> string) list \<Rightarrow> unit any_result" where
  "check_items C tok [] = Inr ()"
| "check_items C tok ((ns, key) # items) =
     rbind (check_kv_read_permission_with_pattern C tok ns key) (\<lambda>_. check_items C tok items)"

definition exact_value ::
  "kv_env \<Rightarrow> kv_world \<Rightarrow> (string, kv_store) hash_map \<Rightarrow> string \<Rightarrow> string \<Rightarrow> json any_result" where
  "exact_value D w cache ns key =
     (case hm_get cache ns of
        Some store \<Rightarrow> Inr (or_null (kvs_get store key))
      | None \<Rightarrow> rbind (get_v_from_kv_lenient D w ns key) (\<lambda>v. Inr (or_null v)))"

definition fill_cache ::
  "kv_env \<Rightarrow> kv_world \<Rightarrow> (string, kv_store) hash_map \<Rightarrow> string \<Rightarrow> (string, kv_store) hash_map any_result" where
  "fill_cache D w cache ns =
     (if hm_get cache ns = None
      then rbind (get_kv_store_optional D w ns) (\<lambda>st.
             Inr (case st of Some kv_store \<Rightarrow> hm_insert ns kv_store cache | None \<Rightarrow> cache))
      else Inr cache)"

definition matched_items :: "string \<Rightarrow> string \<Rightarrow> kv_store \<Rightarrow> (string \<times> string \<times> json) list" where
  "matched_items ns pfx store =
     List.map_filter (\<lambda>key. map_option (\<lambda>v. (ns, key, v)) (kvs_get store key))
       (sort (filter (\<lambda>k. starts_with k pfx) (kvs_keys store)))"

fun multi_loop ::
  "kv_env \<Rightarrow> kv_world \<Rightarrow> (string \<times> string) list \<Rightarrow> (string, kv_store) hash_map
     \<Rightarrow> (string \<times> string \<times> json) list \<Rightarrow> (string \<times> string \<times> json) list any_result"
where
  "multi_loop D w [] cache out = Inr out"
| "multi_loop D w ((ns, key_pattern) # items) cache out =
     (case wildcard_prefix key_pattern of
        None \<Rightarrow>
          rbind (exact_value D w cache ns key_pattern) (\<lambda>v.
            multi_loop D w items cache (out @ [(ns, key_pattern, v)]))
      | Some pfx \<Rightarrow>
          rbind (fill_cache D w cache ns) (\<lambda>cache'.
            case hm_get cache' ns of
              None \<Rightarrow> multi_loop D w items cache' out
            | Some store \<Rightarrow>
                multi_loop D w items cache' (out @ matched_items ns pfx store)))"

definition kv_get_multi_value ::
  "checker \<Rightarrow> kv_env \<Rightarrow> string \<Rightarrow> (string \<times> string) list \<Rightarrow> kv_world \<Rightarrow> kv_reply rpc_result \<times> kv_world" where
  "kv_get_multi_value C D tok items w = rpc_finish (
     (if items = [] then err (InvalidInput ''namespace_key cannot be empty'')
      else
        rbind (check_items C tok items) (\<lambda>_.
        rbind (multi_loop D w items [] []) (\<lambda>out. Inr (KvItems out)))), w)"

datatype kv_request =
    KvCreate string string
  | KvDeleteKey string string string
  | KvDeleteNamespace string string
  | KvSet string string string json
  | KvGet string string string
  | KvGetAllKeys string string
  | KvListNamespaces string
  | KvGetMulti string "(string \<times> string) list"

primrec kv_step :: "checker \<Rightarrow> kv_env \<Rightarrow> kv_request \<Rightarrow> kv_world \<Rightarrow> kv_world" where
  "kv_step C D (KvCreate t ns) w = snd (kv_create C D t ns w)"
| "kv_step C D (KvDeleteKey t ns k) w = snd (kv_delete_key C D t ns k w)"
| "kv_step C D (KvDeleteNamespace t ns) w = snd (kv_delete_namespace C D t ns w)"
| "kv_step C D (KvSet t ns k v) w = snd (kv_set_value C D t ns k v w)"
| "kv_step C D (KvGet t ns k) w = snd (kv_get_value C D t ns k w)"
| "kv_step C D (KvGetAllKeys t ns) w = snd (kv_get_all_keys C D t ns w)"
| "kv_step C D (KvListNamespaces t) w = snd (kv_list_all_namespace C D t w)"
| "kv_step C D (KvGetMulti t items) w = snd (kv_get_multi_value C D t items w)"

definition kv_run :: "(checker \<times> kv_env \<times> kv_request) list \<Rightarrow> kv_world \<Rightarrow> kv_world" where
  "kv_run reqs w = fold (\<lambda>(C, D, r). kv_step C D r) reqs w"


section \<open>Effects of the operations\<close>

lemma kv_query_Inr: "kv_query D site r = Inr x \<longleftrightarrow> kv_fault D site = None \<and> x = r"
  by (auto simp: kv_query_def split: option.splits)

lemma get_db_conn_Inr: "get_db_conn w = Inr u \<longleftrightarrow> kv_ready w"
  by (auto simp: get_db_conn_def)

lemma ensure_namespace_exists_Inr:
  "ensure_namespace_exists D w ns = Inr u \<longleftrightarrow>
     kv_fault D (NsExists ns) = None \<and> tbl_find (\<lambda>r. r_namespace r = ns) (kv_rows w) \<noteq> None"
  by (auto simp: ensure_namespace_exists_def namespace_exists_def kv_query_def result_simps
      split: option.splits if_splits)

lemma ensure_namespace_writable_Inr: "ensure_namespace_writable ns = Inr u \<longleftrightarrow> \<not> is_reserved_namespace ns"
  by (simp add: ensure_namespace_writable_def)

lemmas kv_simps = kv_query_Inr get_db_conn_Inr ensure_namespace_exists_Inr
  ensure_namespace_writable_Inr result_simps

lemma set_v_to_kv_cases:
  "set_v_to_kv D ns key v w = (r, w') \<Longrightarrow>
     (\<exists>e. r = Inl e) \<and> w' = w
     \<or> r = Inr () \<and> tbl_find (\<lambda>r. r_namespace r = ns) (kv_rows w) \<noteq> None
       \<and> w' = w\<lparr> kv_rows := kv_put (kv_new_id D) (ns, key) v (kv_rows w) \<rparr>"
  by (auto simp: set_v_to_kv_def kv_simps kv_put_def split: sum.splits)

lemma delete_key_cases:
  "delete_key_from_kv D ns key w = (r, w') \<Longrightarrow>
     (\<exists>e. r = Inl e) \<and> w' = w
     \<or> r = Inr () \<and> key \<noteq> NAMESPACE_MARKER_KEY \<and> w' = w\<lparr> kv_rows := kv_del (ns, key) (kv_rows w) \<rparr>"
  by (auto simp: delete_key_from_kv_def kv_simps kv_del_def split: sum.splits if_splits)

lemma delete_kv_cases:
  "delete_kv D ns w = (r, w') \<Longrightarrow>
     (\<exists>e. r = Inl e) \<and> w' = w
     \<or> r = Inr () \<and> w' = w\<lparr> kv_rows := tbl_delete (\<lambda>r. r_namespace r = ns) (kv_rows w) \<rparr>"
  by (auto simp: delete_kv_def kv_simps split: sum.splits)

lemma create_kv_cases:
  "create_kv D ns w = (r, w') \<Longrightarrow>
     (\<exists>e. r = Inl e) \<and> w' = w
     \<or> r = Inr (kvs_new ns) \<and> tbl_find (\<lambda>r. r_namespace r = ns) (kv_rows w) = None
       \<and> w' = w\<lparr> kv_rows := kv_rows w @
             [\<lparr> r_id = kv_new_id D, r_namespace = ns, r_key = NAMESPACE_MARKER_KEY, r_value = JNull \<rparr>] \<rparr>"
  by (auto simp: create_kv_def namespace_exists_def kv_simps split: sum.splits bool.splits)


text \<open>What a request can do to the table: one change inside one namespace.\<close>

inductive kv_effect :: "string \<Rightarrow> kv_row list \<Rightarrow> kv_row list \<Rightarrow> bool" where
  eff_put: "tbl_find (\<lambda>r. r_namespace r = ns) rows \<noteq> None \<Longrightarrow> kv_effect ns rows (kv_put i (ns, key) v rows)"
| eff_del: "key \<noteq> NAMESPACE_MARKER_KEY \<Longrightarrow> kv_effect ns rows (kv_del (ns, key) rows)"
| eff_drop: "kv_effect ns rows (tbl_delete (\<lambda>r. r_namespace r = ns) rows)"
| eff_new: "tbl_find (\<lambda>r. r_namespace r = ns) rows = None \<Longrightarrow>
     kv_effect ns rows (rows @ [\<lparr> r_id = i, r_namespace = ns, r_key = NAMESPACE_MARKER_KEY, r_value = JNull \<rparr>])"

lemma kv_effect_inv: "kv_effect ns rows rows' \<Longrightarrow> kv_inv rows \<Longrightarrow> kv_inv rows'"
proof (induction rule: kv_effect.induct)
  case (eff_put ns rows i key v)
  then show ?case using kv_inv_put [of rows ns i key v] by (simp add: kv_put_def)
next
  case (eff_del key ns rows)
  then show ?case
    using kv_inv_delete [of rows "\<lambda>n k. n = ns \<and> k = key"] by (simp add: kv_del_def)
next
  case (eff_drop ns rows)
  then show ?case using kv_inv_delete [of rows "\<lambda>n k. n = ns"] by simp
next
  case (eff_new ns rows i)
  then show ?case by (simp add: kv_inv_new)
qed

lemma kv_effect_other:
  "kv_effect ns rows rows' \<Longrightarrow> ns' \<noteq> ns \<Longrightarrow>
     filter (\<lambda>r. r_namespace r = ns') rows' = filter (\<lambda>r. r_namespace r = ns') rows"
proof (induction rule: kv_effect.induct)
  case (eff_put ns rows i key v)
  have "filter (\<lambda>r. r_namespace r = ns')
      (tbl_update (\<lambda>r. r_namespace r = ns \<and> r_key r = key) (\<lambda>r. r\<lparr> r_value := v \<rparr>) rows) =
      filter (\<lambda>r. r_namespace r = ns') rows"
    using eff_put(2) by (induction rows) (auto simp: tbl_update_def)
  with eff_put(2) show ?case by (simp add: kv_put_def upsert_row_def)
next
  case (eff_del key ns rows)
  then show ?case by (auto simp: kv_del_def tbl_delete_def intro: filter_cong)
next
  case (eff_drop ns rows)
  then show ?case by (auto simp: tbl_delete_def intro: filter_cong)
qed simp

lemma kv_step_effect:
  "kv_step C D r w = w
   \<or> (\<exists>ns. \<not> is_reserved_namespace ns
        \<and> kv_effect ns (kv_rows w) (kv_rows (kv_step C D r w))
        \<and> kv_ready (kv_step C D r w) = kv_ready w)"
proof (cases r)
  case (KvCreate t ns)
  obtain x w' where c: "create_kv D ns w = (x, w')" by fastforce
  from create_kv_cases [OF c] kv_effect.eff_new [of ns "kv_rows w" "kv_new_id D"] show ?thesis
    by (auto simp: KvCreate kv_create_def c kv_simps split: sum.split)
next
  case (KvDeleteKey t ns k)
  obtain x w' where c: "delete_key_from_kv D ns k w = (x, w')" by fastforce
  from delete_key_cases [OF c] kv_effect.eff_del [of k ns "kv_rows w"] show ?thesis
    by (auto simp: KvDeleteKey kv_delete_key_def c kv_simps split: sum.split)
next
  case (KvDeleteNamespace t ns)
  obtain x w' where c: "delete_kv D ns w = (x, w')" by fastforce
  from delete_kv_cases [OF c] kv_effect.eff_drop [of ns "kv_rows w"] show ?thesis
    by (auto simp: KvDeleteNamespace kv_delete_namespace_def c kv_simps split: sum.split)
next
  case (KvSet t ns k v)
  obtain x w' where c: "set_v_to_kv D ns k v w = (x, w')" by fastforce
  from set_v_to_kv_cases [OF c] kv_effect.eff_put [of ns "kv_rows w" "kv_new_id D" k v] show ?thesis
    by (auto simp: KvSet kv_set_value_def c kv_simps split: sum.split)
qed (simp_all add: kv_get_value_def kv_get_all_keys_def kv_list_all_namespace_def kv_get_multi_value_def)

lemma kv_run_simps [simp]:
  "kv_run [] w = w" "kv_run ((C, D, r) # reqs) w = kv_run reqs (kv_step C D r w)"
  by (simp_all add: kv_run_def)

lemma kv_step_inv: "kv_inv (kv_rows w) \<Longrightarrow> kv_inv (kv_rows (kv_step C D r w))"
  using kv_step_effect [of C D r w] kv_effect_inv by auto

lemma kv_step_reserved:
  "is_reserved_namespace ns \<Longrightarrow>
     filter (\<lambda>r. r_namespace r = ns) (kv_rows (kv_step C D r w)) =
     filter (\<lambda>r. r_namespace r = ns) (kv_rows w)"
  using kv_step_effect [of C D r w] kv_effect_other by metis

lemma lookup_visible: "row_of rows ns key = tbl_find (\<lambda>r. r_key r = key) (filter (\<lambda>r. r_namespace r = ns) rows)"
  unfolding row_of_def by (induction rows) auto

lemma kv_lookup_effect_other:
  "kv_effect ns rows rows' \<Longrightarrow> ns' \<noteq> ns \<Longrightarrow> kv_lookup rows' (ns', k) = kv_lookup rows (ns', k)"
  using kv_effect_other [of ns rows rows' ns'] by (simp add: kv_lookup_def lookup_visible)



section \<open>The batch read against a reference\<close>

text \<open>
  The reference reads the table once per item: an exact key gives its value or
  null, a pattern the matching visible keys in byte order.
\<close>

definition item_spec :: "kv_row list \<Rightarrow> string \<times> string \<Rightarrow> (string \<times> string \<times> json) list" where
  "item_spec rows item =
     (case item of (ns, key_pattern) \<Rightarrow>
        (case wildcard_prefix key_pattern of
           None \<Rightarrow>
             [(ns, key_pattern, or_null (if key_pattern = NAMESPACE_MARKER_KEY then None
                                         else kv_lookup rows (ns, key_pattern)))]
         | Some pfx \<Rightarrow>
             List.map_filter (\<lambda>k. map_option (\<lambda>v. (ns, k, v)) (kv_lookup rows (ns, k)))
               (sort (filter (\<lambda>k. starts_with k pfx) (map r_key (visible_rows rows ns))))))"

definition multi_spec :: "kv_row list \<Rightarrow> (string \<times> string) list \<Rightarrow> (string \<times> string \<times> json) list" where
  "multi_spec rows items = concat (map (item_spec rows) items)"

definition cache_inv :: "kv_row list \<Rightarrow> (string, kv_store) hash_map \<Rightarrow> bool" where
  "cache_inv rows cache \<longleftrightarrow> (\<forall>ns st. hm_get cache ns = Some st \<longrightarrow> st = load_store rows ns)"

lemma kvs_keys_load_store_wf: "hm_wf (kvs_kv (load_store rows ns))"
proof -
  have "hm_wf (kvs_kv (fold (\<lambda>r s. kvs_set (r_key r) (r_value r) s) rs s))" if "hm_wf (kvs_kv s)" for rs s
    using that by (induction rs arbitrary: s) (auto simp: kvs_set_def)
  from this [of "kvs_new ns" "visible_rows rows ns"] show ?thesis
    by (simp add: load_store_def kvs_new_def)
qed

lemma distinct_visible_keys:
  "kv_table_ok rows \<Longrightarrow> distinct (map r_key (visible_rows rows ns))"
  unfolding kv_table_ok_def visible_rows_def by (induction rows) (auto simp: unique_on_Cons)

lemma set_visible_keys:
  "k \<in> set (map r_key (visible_rows rows ns)) \<longleftrightarrow>
     k \<noteq> NAMESPACE_MARKER_KEY \<and> kv_lookup rows (ns, k) \<noteq> None"
proof -
  have "kv_lookup rows (ns, k) = None \<longleftrightarrow> row_of rows ns k = None" by (simp add: kv_lookup_def)
  then show ?thesis by (auto simp: visible_rows_def row_of_None)
qed

lemma store_keys_sorted:
  assumes "kv_table_ok rows"
  shows "sort (filter P (kvs_keys (load_store rows ns))) = sort (filter P (map r_key (visible_rows rows ns)))"
proof -
  have "set (kvs_keys (load_store rows ns)) = set (map r_key (visible_rows rows ns))"
    unfolding set_eq_iff set_visible_keys kvs_keys_def hm_keys_iff
    using kvs_get_load_store [OF assms, of ns] by (auto simp: kvs_get_def split: if_splits)
  moreover have "distinct (kvs_keys (load_store rows ns))"
    using kvs_keys_load_store_wf [of rows ns] by (simp add: hm_wf_def kvs_keys_def hm_keys_def)
  ultimately have "mset (kvs_keys (load_store rows ns)) = mset (map r_key (visible_rows rows ns))"
    using distinct_visible_keys [OF assms, of ns] set_eq_iff_mset_eq_distinct by blast
  then show ?thesis by (simp add: mset_filter properties_for_sort)
qed

lemma map_filter_cong:
  "(\<And>x. x \<in> set xs \<Longrightarrow> f x = g x) \<Longrightarrow> List.map_filter f xs = List.map_filter g xs"
  by (induction xs) (auto simp: List.map_filter_simps split: option.split)

lemma matched_items_spec:
  assumes "kv_table_ok rows" "wildcard_prefix key_pattern = Some pfx"
  shows "matched_items ns pfx (load_store rows ns) = item_spec rows (ns, key_pattern)"
proof -
  let ?ks = "sort (filter (\<lambda>k. starts_with k pfx) (map r_key (visible_rows rows ns)))"
  have "kvs_get (load_store rows ns) k = kv_lookup rows (ns, k)" if "k \<in> set ?ks" for k
    using that set_visible_keys [of k rows ns] kvs_get_load_store [OF assms(1), of ns k] by auto
  then have "List.map_filter (\<lambda>k. map_option (\<lambda>v. (ns, k, v)) (kvs_get (load_store rows ns) k)) ?ks =
      List.map_filter (\<lambda>k. map_option (\<lambda>v. (ns, k, v)) (kv_lookup rows (ns, k))) ?ks"
    by (intro map_filter_cong) simp
  with assms show ?thesis
    by (simp add: matched_items_def item_spec_def store_keys_sorted)
qed

lemma item_spec_missing:
  assumes "tbl_find (\<lambda>r. r_namespace r = ns) rows = None" "wildcard_prefix key_pattern = Some pfx"
  shows "item_spec rows (ns, key_pattern) = []"
proof -
  have "visible_rows rows ns = []" using assms(1) by (auto simp: visible_rows_def tbl_find_None)
  with assms(2) show ?thesis by (simp add: item_spec_def List.map_filter_simps)
qed

lemma exact_value_spec:
  assumes "kv_table_ok (kv_rows w)" "cache_inv (kv_rows w) cache"
    and "exact_value D w cache ns key = Inr v" "wildcard_prefix key = None"
  shows "[(ns, key, v)] = item_spec (kv_rows w) (ns, key)"
proof (cases "hm_get cache ns")
  case None
  with assms show ?thesis
    by (auto simp: exact_value_def get_v_from_kv_lenient_def item_spec_def kv_lookup_def kv_simps
        split: if_splits)
next
  case (Some st)
  with assms kvs_get_load_store [OF assms(1), of ns key] show ?thesis
    by (auto simp: exact_value_def cache_inv_def item_spec_def)
qed

lemma fill_cache_spec:
  assumes "cache_inv (kv_rows w) cache" "fill_cache D w cache ns = Inr cache'"
  shows "cache_inv (kv_rows w) cache'
     \<and> (case hm_get cache' ns of
          None \<Rightarrow> tbl_find (\<lambda>r. r_namespace r = ns) (kv_rows w) = None
        | Some st \<Rightarrow> st = load_store (kv_rows w) ns)"
  using assms
  by (auto simp: fill_cache_def cache_inv_def get_kv_store_optional_def namespace_exists_def kv_simps
      split: if_splits option.splits)

lemma multi_loop_spec:
  assumes "kv_table_ok (kv_rows w)"
  shows "cache_inv (kv_rows w) cache \<Longrightarrow> multi_loop D w items cache out = Inr r \<Longrightarrow>
     r = out @ multi_spec (kv_rows w) items"
proof (induction items arbitrary: cache out)
  case (Cons item items)
  obtain ns pat where item: "item = (ns, pat)" by fastforce
  show ?case
  proof (cases "wildcard_prefix pat")
    case None
    with Cons.prems item obtain v where v: "exact_value D w cache ns pat = Inr v"
      "multi_loop D w items cache (out @ [(ns, pat, v)]) = Inr r"
      by (auto simp: result_simps)
    from Cons.IH [OF Cons.prems(1) v(2)] exact_value_spec [OF assms Cons.prems(1) v(1) None]
    show ?thesis by (simp add: multi_spec_def item)
  next
    case (Some pfx)
    with Cons.prems item obtain cache' where c: "fill_cache D w cache ns = Inr cache'"
      "(case hm_get cache' ns of None \<Rightarrow> multi_loop D w items cache' out
        | Some store \<Rightarrow> multi_loop D w items cache' (out @ matched_items ns pfx store)) = Inr r"
      by (auto simp: result_simps)
    note fc = fill_cache_spec [OF Cons.prems(1) c(1)]
    show ?thesis
    proof (cases "hm_get cache' ns")
      case None
      with fc c(2) Cons.IH [of cache' out] item_spec_missing [OF _ Some] show ?thesis
        by (simp add: multi_spec_def item)
    next
      case (Some st)
      with fc c(2) Cons.IH [of cache' "out @ matched_items ns pfx st"]
        matched_items_spec [OF assms \<open>wildcard_prefix pat = Some pfx\<close>, of ns]
      show ?thesis by (simp add: multi_spec_def item)
    qed
  qed
qed (simp add: multi_spec_def)

lemma check_items_Inr:
  "check_items C tok items = Inr () \<longleftrightarrow>
     (\<forall>(ns, key)\<in>set items. check_kv_read_permission_with_pattern C tok ns key = Inr ())"
  by (induction items) (auto simp: result_simps)

end
