(* ===== verification/Kv_Props.thy ===== *)
theory Kv_Props
  imports Kv_Rpc
begin

text \<open>
  The properties of the key-value component, with a concrete deployment for their
  witnesses.
\<close>

definition demo_checker :: checker where
  "demo_checker = token_checker demo_extern (Inr 1000) 0 demo_world"

definition demo_kv_env :: kv_env where
  "demo_kv_env = \<lparr> kv_fault = (\<lambda>_. None), kv_db_err_display = (\<lambda>_. ''db''),
     kv_order_asc = sort, kv_new_id = 7 \<rparr>"

definition demo_kv :: kv_world where
  "demo_kv = \<lparr> kv_ready = True, kv_rows =
     [\<lparr> r_id = 1, r_namespace = ''ns'', r_key = NAMESPACE_MARKER_KEY, r_value = JNull \<rparr>,
      \<lparr> r_id = 2, r_namespace = ''ns'', r_key = ''ab'', r_value = JBool True \<rparr>] \<rparr>"

lemma demo_super: "ck_super demo_checker (Token ''rk'' ''rs'') = Inr True"
  using check_super_token_spec [OF demo_extern_ok demo_world_facts(2), of "Token ''rk'' ''rs''"] demo_credential
  by (simp add: demo_checker_def token_checker_def client_checker_def super_row_def)

lemma demo_decide: "kv_decide demo_checker ''rk:rs'' m P = Inr ()"
proof -
  have "from_full_token ''rk:rs'' = Inr (Token ''rk'' ''rs'')" by (simp add: from_full_token_def)
  then show ?thesis unfolding kv_decide_Inr using demo_super by (auto simp: kv_grants_def)
qed

lemma demo_env_simps [simp]:
  "kv_query demo_kv_env site r = Inr r" "kv_new_id demo_kv_env = 7" "kv_fault demo_kv_env site = None"
  by (simp_all add: demo_kv_env_def kv_query_def)

lemma demo_kv_inv: "kv_inv (kv_rows demo_kv)" "kv_table_ok (kv_rows demo_kv)"
  by (simp_all add: demo_kv_def kv_inv_def kv_table_ok_def unique_on_Cons row_of_def
      NAMESPACE_MARKER_KEY_def)

text \<open>
  (C8) The permission checks of the key-value crate take the token once and match
  its limits in memory; they pass exactly when namespace and key are well formed
  and \<^verbatim>\<open>check_token_limit\<close> grants the permission for all keys or for this key, for
  reading, writing and deleting alike.
\<close>

theorem kv_checks_are_limit_checks:
  "(check_kv_read_permission (token_checker E clock ntp w) tok ns key = Inr () \<longleftrightarrow>
     ns \<noteq> [] \<and> CHR ''*'' \<notin> set ns \<and> CHR ''*'' \<notin> set key \<and>
     (\<exists>c. from_full_token tok = Inr c \<and>
        (check_token_limit E clock ntp w c [KvNamespace ns] [PKv (Kv_Read ''*'')] = Inr True
         \<or> check_token_limit E clock ntp w c [KvNamespace ns] [PKv (Kv_Read key)] = Inr True)))
   \<and> (check_kv_write_permission (token_checker E clock ntp w) tok ns key = Inr () \<longleftrightarrow>
     ns \<noteq> [] \<and> CHR ''*'' \<notin> set ns \<and> CHR ''*'' \<notin> set key \<and>
     (\<exists>c. from_full_token tok = Inr c \<and>
        (check_token_limit E clock ntp w c [KvNamespace ns] [PKv (Kv_Write ''*'')] = Inr True
         \<or> check_token_limit E clock ntp w c [KvNamespace ns] [PKv (Kv_Write key)] = Inr True)))
   \<and> (check_kv_delete_permission (token_checker E clock ntp w) tok ns key = Inr () \<longleftrightarrow>
     ns \<noteq> [] \<and> CHR ''*'' \<notin> set ns \<and> CHR ''*'' \<notin> set key \<and>
     (\<exists>c. from_full_token tok = Inr c \<and>
        (check_token_limit E clock ntp w c [KvNamespace ns] [PKv (Kv_Delete ''*'')] = Inr True
         \<or> check_token_limit E clock ntp w c [KvNamespace ns] [PKv (Kv_Delete key)] = Inr True)))"
  unfolding token_checker_def
  by (auto simp: kv_check_defs rbind_eq_Inr ng_token.decide_specific validate_namespace_Inr validate_key_Inr)

text \<open>
  (C11) Writing is a map update: when \<^verbatim>\<open>set_value\<close> succeeds, the table holds the
  new value under that namespace and key, every other namespace and key is as
  before, and reading the key back returns the value.
\<close>

theorem kv_set_then_get:
  assumes "kv_set_value C D tok ns key v w = (Inr rep, w')" "kv_table_ok (kv_rows w)"
  shows "kv_lookup (kv_rows w') = (kv_lookup (kv_rows w))((ns, key) \<mapsto> v)
     \<and> kv_table_ok (kv_rows w')
     \<and> (key \<noteq> NAMESPACE_MARKER_KEY \<and> (\<forall>site. kv_fault D site = None)
          \<and> check_kv_read_permission C' tok' ns key = Inr () \<longrightarrow>
          kv_get_value C' D tok' ns key w' = (Inr (KvValue v), w'))"
proof -
  obtain r w1 where s: "set_v_to_kv D ns key v w = (r, w1)" by fastforce
  have "w1 = w'" "r = Inr ()"
    using assms(1) s by (auto simp: kv_set_value_def rpc_finish_def kv_simps split: sum.splits)
  with set_v_to_kv_cases [OF s] have w': "w' = w\<lparr> kv_rows := kv_put (kv_new_id D) (ns, key) v (kv_rows w) \<rparr>"
    by auto
  have ready: "kv_ready w" using s \<open>r = Inr ()\<close> by (auto simp: set_v_to_kv_def kv_simps split: sum.splits)
  have look: "kv_lookup (kv_rows w') = (kv_lookup (kv_rows w))((ns, key) \<mapsto> v)"
    by (simp add: w' kv_lookup_put fun_eq_iff)
  then have "kv_lookup (kv_rows w') (ns, key) = Some v" by simp
  then have row: "row_of (kv_rows w') ns key \<noteq> None" "map_option r_value (row_of (kv_rows w') ns key) = Some v"
    by (simp_all add: kv_lookup_def) auto
  have "kv_get_value C' D tok' ns key w' = (Inr (KvValue v), w')"
    if "key \<noteq> NAMESPACE_MARKER_KEY" "\<forall>site. kv_fault D site = None"
      "check_kv_read_permission C' tok' ns key = Inr ()"
  proof -
    have "get_db_conn w' = Inr ()" using ready by (simp add: w' get_db_conn_def)
    moreover have "ensure_namespace_exists D w' ns = Inr ()"
      using that(2) row_of_namespace [OF row(1)] by (simp add: ensure_namespace_exists_Inr)
    ultimately have "get_v_from_kv D w' ns key = Inr (Some v)"
      using that row(2) by (auto simp: get_v_from_kv_def kv_query_Inr)
    with that(3) show ?thesis by (simp add: kv_get_value_def rpc_finish_def or_null_def)
  qed
  with look kv_put_ok [OF assms(2), of "kv_new_id D" "(ns, key)" v] show ?thesis by (simp add: w')
qed


lemma demo_set:
  "kv_set_value demo_checker demo_kv_env ''rk:rs'' ''ns'' ''cd'' (JBool False) demo_kv =
     (Inr KvSuccess, snd (kv_set_value demo_checker demo_kv_env ''rk:rs'' ''ns'' ''cd'' (JBool False) demo_kv))"
  by (simp add: kv_set_value_def rpc_finish_def ensure_namespace_writable_def is_reserved_namespace_def
      starts_with_def RESERVED_NAMESPACE_PREFIX_def check_kv_write_permission_def demo_decide
      validate_namespace_def validate_key_def contains_char_def set_v_to_kv_def get_db_conn_def
      ensure_namespace_exists_def namespace_exists_def demo_kv_def)

lemma demo_read: "check_kv_read_permission demo_checker ''rk:rs'' ''ns'' ''cd'' = Inr ()"
  by (simp add: check_kv_read_permission_def demo_decide validate_namespace_def validate_key_def
      contains_char_def)

theorem kv_set_then_get_witness:
  "\<exists>w'. kv_set_value demo_checker demo_kv_env ''rk:rs'' ''ns'' ''cd'' (JBool False) demo_kv = (Inr KvSuccess, w')
     \<and> kv_get_value demo_checker demo_kv_env ''rk:rs'' ''ns'' ''cd'' w' = (Inr (KvValue (JBool False)), w')"
  using kv_set_then_get [OF demo_set demo_kv_inv(2), of demo_checker "''rk:rs''"] demo_set demo_read
  by (auto simp: NAMESPACE_MARKER_KEY_def)

text \<open>
  (C12) Namespaces that start with two underscores are out of reach of every
  client: whatever requests run, with whatever tokens, the rows of a reserved
  namespace are exactly those from before.
\<close>

theorem reserved_namespaces_untouched:
  assumes "is_reserved_namespace ns"
  shows "filter (\<lambda>r. r_namespace r = ns) (kv_rows (kv_run reqs w)) =
     filter (\<lambda>r. r_namespace r = ns) (kv_rows w)"
proof (induction reqs arbitrary: w)
  case (Cons x reqs)
  obtain C D r where [simp]: "x = (C, D, r)" by (metis prod_cases3)
  show ?case using Cons kv_step_reserved [OF assms, of C D r w] by simp
qed simp

theorem reserved_namespaces_untouched_witness:
  "is_reserved_namespace ''__audit''
   \<and> filter (\<lambda>r. r_namespace r = ''__audit'') (kv_rows (kv_run
       [(demo_checker, demo_kv_env, KvCreate ''rk:rs'' ''__audit'')] demo_kv)) = []"
proof -
  have r: "is_reserved_namespace ''__audit''"
    by (simp add: is_reserved_namespace_def starts_with_def RESERVED_NAMESPACE_PREFIX_def)
  with reserved_namespaces_untouched [OF r, of "[(demo_checker, demo_kv_env, KvCreate ''rk:rs'' ''__audit'')]" demo_kv]
  show ?thesis by (simp add: demo_kv_def del: kv_run_simps)
qed

text \<open>
  (C13) The table invariant of the key-value store: after any sequence of requests
  there is still at most one row per namespace and key, and every namespace that
  has a row has its marker row.
\<close>

theorem kv_invariant:
  assumes "kv_inv (kv_rows w)"
  shows "kv_inv (kv_rows (kv_run reqs w))"
  using assms
proof (induction reqs arbitrary: w)
  case (Cons x reqs)
  obtain C D r where [simp]: "x = (C, D, r)" by (metis prod_cases3)
  show ?case using Cons.IH [of "kv_step C D r w"] kv_step_inv [OF Cons.prems, of C D r] by simp
qed simp

theorem kv_invariant_witness:
  "kv_inv (kv_rows (kv_run [(demo_checker, demo_kv_env, KvSet ''rk:rs'' ''ns'' ''x'' JNull),
     (demo_checker, demo_kv_env, KvDeleteNamespace ''rk:rs'' ''ns'')] demo_kv))"
  by (rule kv_invariant [OF demo_kv_inv(1)])

lemma multi_value_refines_items:
  assumes "kv_table_ok (kv_rows w)" "kv_get_multi_value C D tok items w = (Inr rep, w')"
  shows "w' = w \<and> rep = KvItems (multi_spec (kv_rows w) items)
     \<and> (\<forall>(ns, pat)\<in>set items. check_kv_read_permission_with_pattern C tok ns pat = Inr ())"
proof -
  have "items \<noteq> []" using assms(2) by (auto simp: kv_get_multi_value_def rpc_finish_def)
  have w': "w' = w" using assms(2) by (simp add: kv_get_multi_value_def rpc_finish_def)
  have "rbind (check_items C tok items) (\<lambda>_. rbind (multi_loop D w items [] [])
      (\<lambda>out. Inr (KvItems out))) = Inr rep"
    using assms(2) \<open>items \<noteq> []\<close> unfolding w' kv_get_multi_value_def rpc_finish_def
    by (simp add: map_err_eq)
  then obtain r where r: "check_items C tok items = Inr ()" "multi_loop D w items [] [] = Inr r"
    "rep = KvItems r"
    by (simp add: rbind_eq_Inr) blast
  have "cache_inv (kv_rows w) []" by (simp add: cache_inv_def)
  from multi_loop_spec [OF assms(1) this r(2)] have "rep = KvItems (multi_spec (kv_rows w) items)"
    unfolding r(3) by simp
  with r(1) w' show ?thesis unfolding check_items_Inr by blast
qed



text \<open>
  (C9) The batch read with its per-namespace cache equals the reference that
  consults the table for every item: the items come in request order, an exact key
  yields its value or null, a pattern yields exactly the visible keys with that
  prefix in byte order, and the marker is never shown.
\<close>

theorem multi_value_refines:
  assumes "kv_table_ok (kv_rows w)" "kv_get_multi_value C D tok items w = (Inr rep, w')"
  shows "w' = w \<and> rep = KvItems (multi_spec (kv_rows w) items)
     \<and> (\<forall>(ns, pat)\<in>set items. check_kv_read_permission_with_pattern C tok ns pat = Inr ())"
  using assms by (rule multi_value_refines_items)

theorem multi_value_refines_witness:
  "\<exists>rep. kv_get_multi_value demo_checker demo_kv_env ''rk:rs'' [(''ns'', ''a*''), (''ns'', ''zz'')] demo_kv = (Inr rep, demo_kv)
     \<and> rep = KvItems (multi_spec (kv_rows demo_kv) [(''ns'', ''a*''), (''ns'', ''zz'')])"
proof -
  have "\<exists>rep. kv_get_multi_value demo_checker demo_kv_env ''rk:rs'' [(''ns'', ''a*''), (''ns'', ''zz'')] demo_kv = (Inr rep, demo_kv)"
    by (simp add: kv_get_multi_value_def rpc_finish_def check_kv_read_permission_with_pattern_def demo_decide
        validate_namespace_def validate_key_pattern_def contains_char_def wildcard_prefix_def
        strip_suffix_char_def fill_cache_def get_kv_store_optional_def get_db_conn_def namespace_exists_def
        exact_value_def demo_kv_def)
  with multi_value_refines [OF demo_kv_inv(2)] show ?thesis by blast
qed












text \<open>
  (C14) A pattern with two wildcards grants far more than it matches: a token whose
  only grant is to read \<^verbatim>\<open>**\<close>, a pattern no legal key matches, passes the read
  check for every key of the namespace, because the check for all keys asks whether
  the grant matches the text \<^verbatim>\<open>*\<close>.
\<close>

theorem double_star_reads_everything:
  assumes "from_full_token tok = Inr cred" "ck_super C cred = Inr False" "ck_get C cred = Inr t"
    and "ck_now C = Inr now" "in_window now t"
    and "token_limit t = [\<lparr> scopes = [KvNamespace ns], permissions = [PKv (Kv_Read ''**'')] \<rparr>]"
    and "ns \<noteq> []" "CHR ''*'' \<notin> set ns" "CHR ''*'' \<notin> set key"
  shows "check_kv_read_permission C tok ns key = Inr () \<and> \<not> wildcard_matches_pattern key ''**''"
proof -
  have star: "wildcard_matches_pattern ''*'' ''**''"
    by (simp add: wildcard_matches_pattern_def strip_suffix_char_def starts_with_def)
  have "\<not> wildcard_matches_pattern key ''**''"
    using assms(9) wildcard_snoc [of key "''*''"] by (auto simp: prefix_def)
  moreover have "kv_grants C cred (\<lambda>limits. limits_cover_global_or_specific limits (KvNamespace ns)
       (PKv (Kv_Read ''*'')) (PKv (Kv_Read key)))"
    using assms star by (auto simp: kv_grants_def limits_cover_global_or_specific_def)
  ultimately show ?thesis
    using assms(1,7-9)
    by (auto simp: check_kv_read_permission_def validate_namespace_Inr validate_key_Inr kv_decide_Inr rbind_eq_Inr)
qed

theorem double_star_reads_everything_witness:
  "check_kv_read_permission
     (client_checker (\<lambda>_. Inr False)
        (\<lambda>_. Inr \<lparr> version = 1, token_key = ''k'', timestamp_from = None, timestamp_to = None,
           token_limit = [\<lparr> scopes = [KvNamespace ''ns''], permissions = [PKv (Kv_Read ''**'')] \<rparr>],
           username = None \<rparr>) (Inr 5))
     ''k:s'' ''ns'' ''secret'' = Inr ()"
  by (rule double_star_reads_everything [THEN conjunct1, of _ "Token ''k'' ''s''"])
     (auto simp: from_full_token_def client_checker_def in_window_def)

text \<open>
  The super token can create a namespace nobody can use: \<^verbatim>\<open>kv_create\<close> does not
  validate the name, so a name that is empty or contains an asterisk is created, and
  then every other request on it, deletion included, is rejected as invalid input
  for every token.
\<close>

theorem create_unusable_namespace:
  assumes "ns = [] \<or> CHR ''*'' \<in> set ns" "\<not> is_reserved_namespace ns"
    and "ck_registered C" "from_full_token tok = Inr cred" "ck_super C cred = Inr True"
    and "kv_ready w" "\<forall>site. kv_fault D site = None"
    and "tbl_find (\<lambda>r. r_namespace r = ns) (kv_rows w) = None"
  shows "\<exists>w'. kv_create C D tok ns w = (Inr (KvCreated (kvs_new ns)), w')
     \<and> row_of (kv_rows w') ns NAMESPACE_MARKER_KEY \<noteq> None
     \<and> (\<forall>C' D' tok' key v. \<exists>m.
          kv_set_value C' D' tok' ns key v w' = (Inl \<lparr> rpc_code = 108, rpc_message = m \<rparr>, w')
          \<and> kv_get_value C' D' tok' ns key w' = (Inl \<lparr> rpc_code = 108, rpc_message = m \<rparr>, w')
          \<and> kv_delete_namespace C' D' tok' ns w' = (Inl \<lparr> rpc_code = 108, rpc_message = m \<rparr>, w'))"
proof -
  have "\<exists>m. validate_namespace ns = err (InvalidInput m)"
    using assms(1) by (cases "ns = []") (simp_all add: validate_namespace_def contains_char_iff)
  then obtain m where m: "validate_namespace ns = err (InvalidInput m)" by blast
  let ?w = "w\<lparr> kv_rows := kv_rows w @ [\<lparr> r_id = kv_new_id D, r_namespace = ns,
      r_key = NAMESPACE_MARKER_KEY, r_value = JNull \<rparr>] \<rparr>"
  have "kv_create C D tok ns w = (Inr (KvCreated (kvs_new ns)), ?w)"
    using assms(2-8)
    by (simp add: kv_create_def rpc_finish_def ensure_namespace_writable_def check_kv_create_permission_def
        get_checker_def parse_token_def create_kv_def get_db_conn_def namespace_exists_def kv_query_def)
  moreover have "row_of (kv_rows ?w) ns NAMESPACE_MARKER_KEY \<noteq> None"
    by (simp add: row_of_append split: option.split)
  moreover have "kv_set_value C' D' tok' ns key v ?w =
        (Inl \<lparr> rpc_code = 108, rpc_message = ''Invalid input: '' @ m \<rparr>, ?w)"
    "kv_get_value C' D' tok' ns key ?w =
        (Inl \<lparr> rpc_code = 108, rpc_message = ''Invalid input: '' @ m \<rparr>, ?w)"
    "kv_delete_namespace C' D' tok' ns ?w =
        (Inl \<lparr> rpc_code = 108, rpc_message = ''Invalid input: '' @ m \<rparr>, ?w)"
    for C' D' tok' key v
    using assms(2)
    by (simp_all add: kv_set_value_def kv_get_value_def kv_delete_namespace_def rpc_finish_def
        ensure_namespace_writable_def kv_check_defs m to_rpc_error_def)
  ultimately show ?thesis by blast
qed

theorem create_unusable_namespace_witness:
  "\<exists>w'. kv_create demo_checker demo_kv_env ''rk:rs'' ''a*'' demo_kv = (Inr (KvCreated (kvs_new ''a*'')), w')
     \<and> row_of (kv_rows w') ''a*'' NAMESPACE_MARKER_KEY \<noteq> None"
proof -
  have "ck_registered demo_checker" by (simp add: demo_checker_def token_checker_def client_checker_def)
  with create_unusable_namespace [of "''a*''" demo_checker "''rk:rs''" "Token ''rk'' ''rs''" demo_kv demo_kv_env]
    demo_super
  show ?thesis
    by (auto simp: from_full_token_def is_reserved_namespace_def starts_with_def
        RESERVED_NAMESPACE_PREFIX_def demo_kv_def)
qed


text \<open>
  Listing namespaces shows exactly what may be listed: without a super token
  the reply contains a namespace if and only if it exists and the limits of the
  token cover listing it, whether by a global or by a namespace scope.
\<close>

theorem list_namespaces_exact:
  assumes "kv_env_ok D" "kv_list_all_namespace C D tok w = (Inr rep, w')"
    and "from_full_token tok = Inr cred" "ck_super C cred = Inr False" "ck_get C cred = Inr t"
  shows "\<exists>nss. rep = KvKeys nss \<and> w' = w \<and>
     (\<forall>ns. ns \<in> set nss \<longleftrightarrow>
        tbl_find (\<lambda>r. r_namespace r = ns) (kv_rows w) \<noteq> None
        \<and> check_limits_cover (token_limit t) (KvNamespace ns) (PKv Kv_ListAllNamespace))"
proof -
  have w': "w' = w" using assms(2) by (simp add: kv_list_all_namespace_def rpc_finish_def)
  from assms(2) obtain perm nss where p: "resolve_kv_list_namespace_permission C tok = Inr perm"
    "list_all_namespaces D w = Inr nss"
    "rep = KvKeys (case perm of NsAll \<Rightarrow> nss | NsScoped allowed \<Rightarrow> filter (\<lambda>ns. List.member allowed ns) nss)"
    unfolding w' kv_list_all_namespace_def rpc_finish_def by (auto simp: map_err_eq rbind_eq_Inr)
  have "mset nss = mset (remdups (map r_namespace (kv_rows w)))"
    using p(2) assms(1) by (auto simp: list_all_namespaces_def kv_env_ok_def kv_simps)
  then have "set nss = set (map r_namespace (kv_rows w))" by (metis set_mset_mset set_remdups)
  then have ex: "ns \<in> set nss \<longleftrightarrow> tbl_find (\<lambda>r. r_namespace r = ns) (kv_rows w) \<noteq> None" for ns
    unfolding tbl_find_None by auto
  have parse: "parse_token tok = Inr cred" using assms(3) by (simp add: parse_token_Inr)
  have "perm = (case collect_namespaces (token_limit t) [] of None \<Rightarrow> NsAll | Some a \<Rightarrow> NsScoped a)"
    using p(1) parse assms(4,5)
    by (auto simp: resolve_kv_list_namespace_permission_def rbind_eq_Inr split: if_splits option.splits)
  then have "ns \<in> set (case perm of NsAll \<Rightarrow> nss | NsScoped allowed \<Rightarrow> filter (\<lambda>ns. List.member allowed ns) nss)
      \<longleftrightarrow> ns \<in> set nss \<and> check_limits_cover (token_limit t) (KvNamespace ns) (PKv Kv_ListAllNamespace)" for ns
    unfolding list_ns_cover by (auto split: option.split)
  with p(3) w' ex show ?thesis by blast
qed

definition listing_checker :: checker where
  "listing_checker = client_checker (\<lambda>_. Inr False)
     (\<lambda>_. Inr \<lparr> version = 1, token_key = ''k'', timestamp_from = None, timestamp_to = None,
        token_limit = [\<lparr> scopes = [KvNamespace ''ns''], permissions = [PKv Kv_ListAllNamespace] \<rparr>],
        username = None \<rparr>) (Inr 5)"

theorem list_namespaces_exact_witness:
  "\<exists>nss. kv_list_all_namespace listing_checker demo_kv_env ''k:s'' demo_kv = (Inr (KvKeys nss), demo_kv)
     \<and> ''ns'' \<in> set nss"
proof -
  have "kv_list_all_namespace listing_checker demo_kv_env ''k:s'' demo_kv = (Inr (KvKeys [''ns'']), demo_kv)"
    by (simp add: kv_list_all_namespace_def rpc_finish_def resolve_kv_list_namespace_permission_def
        get_checker_def listing_checker_def client_checker_def parse_token_def from_full_token_def
        list_all_namespaces_def get_db_conn_def demo_kv_def demo_kv_env_def kv_query_def)
  moreover have "kv_env_ok demo_kv_env" by (simp add: kv_env_ok_def demo_kv_env_def)
  ultimately show ?thesis
    using list_namespaces_exact [of demo_kv_env listing_checker "''k:s''" demo_kv _ demo_kv "Token ''k'' ''s''"]
    by (fastforce simp: from_full_token_def listing_checker_def client_checker_def)
qed

text \<open>
  Deleting a namespace empties it and nothing else: a successful
  \<^verbatim>\<open>delete_namespace\<close> leaves no row of the namespace, so it no longer exists, and
  keeps the rows of every other namespace as they are; deleting a single key removes
  that key only and keeps the namespace in existence.
\<close>

theorem kv_deletes_exact:
  assumes "kv_inv (kv_rows w)"
  shows "(kv_delete_namespace C D tok ns w = (Inr rep, w') \<longrightarrow>
       tbl_find (\<lambda>r. r_namespace r = ns) (kv_rows w') = None
       \<and> (\<forall>ns'. ns' \<noteq> ns \<longrightarrow> filter (\<lambda>r. r_namespace r = ns') (kv_rows w') =
             filter (\<lambda>r. r_namespace r = ns') (kv_rows w)))
     \<and> (kv_delete_key C D tok ns key w = (Inr rep, w') \<longrightarrow>
       kv_lookup (kv_rows w') = (kv_lookup (kv_rows w))((ns, key) := None)
       \<and> tbl_find (\<lambda>r. r_namespace r = ns) (kv_rows w') \<noteq> None)"
proof (intro conjI impI)
  assume d: "kv_delete_namespace C D tok ns w = (Inr rep, w')"
  obtain x w1 where c: "delete_kv D ns w = (x, w1)" by fastforce
  from d c have "w1 = w'" "\<exists>u. x = Inr u"
    by (auto simp: kv_delete_namespace_def rpc_finish_def split: sum.splits)
  with delete_kv_cases [OF c] have rows: "kv_rows w' = tbl_delete (\<lambda>r. r_namespace r = ns) (kv_rows w)" by auto
  then show "tbl_find (\<lambda>r. r_namespace r = ns) (kv_rows w') = None" by (simp add: tbl_find_None)
  show "\<forall>ns'. ns' \<noteq> ns \<longrightarrow> filter (\<lambda>r. r_namespace r = ns') (kv_rows w') =
      filter (\<lambda>r. r_namespace r = ns') (kv_rows w)"
    using kv_effect_other [OF kv_effect.eff_drop] by (simp add: rows)
next
  assume d: "kv_delete_key C D tok ns key w = (Inr rep, w')"
  obtain x w1 where c: "delete_key_from_kv D ns key w = (x, w1)" by fastforce
  from d c have "w1 = w'" "x = Inr ()"
    by (auto simp: kv_delete_key_def rpc_finish_def split: sum.splits)
  with delete_key_cases [OF c] have k: "key \<noteq> NAMESPACE_MARKER_KEY"
    "kv_rows w' = kv_del (ns, key) (kv_rows w)" by auto
  then show "kv_lookup (kv_rows w') = (kv_lookup (kv_rows w))((ns, key) := None)"
    by (simp add: kv_lookup_del fun_eq_iff)
  have "tbl_find (\<lambda>r. r_namespace r = ns) (kv_rows w) \<noteq> None"
    using c \<open>x = Inr ()\<close> by (auto simp: delete_key_from_kv_def kv_simps split: sum.splits if_splits)
  then have "row_of (kv_rows w) ns NAMESPACE_MARKER_KEY \<noteq> None"
    using kv_inv_namespace [OF assms] by blast
  then have "row_of (kv_rows w') ns NAMESPACE_MARKER_KEY \<noteq> None"
    using k kv_lookup_del [of "(ns, key)" "kv_rows w" "(ns, NAMESPACE_MARKER_KEY)"]
    by (auto simp: kv_lookup_def)
  then show "tbl_find (\<lambda>r. r_namespace r = ns) (kv_rows w') \<noteq> None" by (rule row_of_namespace)
qed

theorem kv_deletes_exact_witness:
  "\<exists>w'. kv_delete_namespace demo_checker demo_kv_env ''rk:rs'' ''ns'' demo_kv = (Inr KvSuccess, w')
     \<and> tbl_find (\<lambda>r. r_namespace r = ''ns'') (kv_rows w') = None"
proof -
  have "kv_delete_namespace demo_checker demo_kv_env ''rk:rs'' ''ns'' demo_kv =
      (Inr KvSuccess, snd (kv_delete_namespace demo_checker demo_kv_env ''rk:rs'' ''ns'' demo_kv))"
    by (simp add: kv_delete_namespace_def rpc_finish_def ensure_namespace_writable_def is_reserved_namespace_def
        starts_with_def RESERVED_NAMESPACE_PREFIX_def check_kv_delete_namespace_permission_def demo_decide
        validate_namespace_def contains_char_def delete_kv_def get_db_conn_def
        ensure_namespace_exists_def namespace_exists_def demo_kv_def)
  with kv_deletes_exact [OF demo_kv_inv(1)] show ?thesis by blast
qed

end
