(* ===== verification/Traffic.thy ===== *)
theory Traffic
  imports Core "HOL-Library.Word"
begin

text \<open>
  \<^verbatim>\<open>ng-monitoring/src/traffic_stats.rs\<close>: the total traffic of every outlet
  interface of every device, kept in memory from the counters the agents report,
  written to the database by a timer and read back after a restart.

  \<^verbatim>\<open>u64\<close> and \<^verbatim>\<open>i64\<close> are both \<^typ>\<open>64 word\<close>: \<^verbatim>\<open>cast_signed\<close> and
  \<^verbatim>\<open>cast_unsigned\<close> keep the bits, so they are the identity here, and a comparison
  of signed values is one of their \<^const>\<open>sint\<close>.  A plain subtraction wraps,
  as it does in the release profile (\<^verbatim>\<open>overflow-checks = false\<close>).
\<close>

type_synonym u64 = "64 word"
type_synonym i64 = "64 word"
type_synonym u32 = "32 word"
type_synonym i16 = "16 word"


section \<open>Saturating arithmetic\<close>

definition saturating_add :: "u64 \<Rightarrow> u64 \<Rightarrow> u64" where
  "saturating_add a b = (if unat a + unat b < 2 ^ 64 then a + b else - 1)"

definition saturating_sub :: "u64 \<Rightarrow> u64 \<Rightarrow> u64" where
  "saturating_sub a b = (if b \<le> a then a - b else 0)"

definition saturating_mul :: "u64 \<Rightarrow> u64 \<Rightarrow> u64" where
  "saturating_mul a b = (if unat a * unat b < 2 ^ 64 then a * b else - 1)"


section \<open>Reports\<close>

text \<open>The parts of a dynamic report the statistics read.\<close>

record interface_data =
  if_name :: string
  if_total_received :: u64
  if_total_transmitted :: u64
  if_receive_speed :: u64
  if_transmit_speed :: u64
  if_ifindex :: "u32 option"
  if_is_outlet :: "bool option"

record system_data =
  sys_boot_time :: u64
  sys_uptime :: u64
  sys_process_count :: u64
  sys_boot_id :: "string option"

record report_data =
  rp_time :: u64
  rp_system :: system_data
  rp_interfaces :: "interface_data list"


section \<open>State\<close>

record network_interface_reading =
  boot_id :: "string option"
  ifindex :: "u32 option"
  counter_received :: u64
  counter_transmitted :: u64
  report_time :: i64
  created_at :: i64
  updated_at :: i64

record traffic =
  received :: u64
  transmitted :: u64

definition traffic_default :: traffic where
  "traffic_default = \<lparr> received = 0, transmitted = 0 \<rparr>"

type_synonym if_key = "i16 \<times> string"

record possible_data_loss =
  pl_uuid_id :: i16
  pl_start_time :: i64
  pl_end_time :: i64

record traffic_state =
  prev_readings :: "(if_key, network_interface_reading) hash_map"
  totals :: "(if_key, traffic) hash_map"
  pending_possible_data_losses :: "possible_data_loss list"

definition state_default :: traffic_state where
  "state_default = \<lparr> prev_readings = [], totals = [], pending_possible_data_losses = [] \<rparr>"

record interface_current_total =
  ct_uuid_id :: i16
  ct_interface_name :: string
  ct_total_received :: u64
  ct_total_transmitted :: u64
  ct_updated_at :: i64

definition total_of :: "traffic_state \<Rightarrow> if_key \<Rightarrow> traffic" where
  "total_of s k = (case hm_get (totals s) k of None \<Rightarrow> traffic_default | Some t \<Rightarrow> t)"

definition state_current_totals :: "traffic_state \<Rightarrow> interface_current_total list" where
  "state_current_totals s =
     map (\<lambda>(k, r). \<lparr> ct_uuid_id = fst k, ct_interface_name = snd k,
                    ct_total_received = received (total_of s k),
                    ct_total_transmitted = transmitted (total_of s k),
                    ct_updated_at = updated_at r \<rparr>)
         (prev_readings s)"


section \<open>Counter resets\<close>

record counter_reset =
  cr_received :: bool
  cr_transmitted :: bool

definition RESET_NONE :: counter_reset where
  "RESET_NONE = \<lparr> cr_received = False, cr_transmitted = False \<rparr>"

definition RESET_BOTH :: counter_reset where
  "RESET_BOTH = \<lparr> cr_received = True, cr_transmitted = True \<rparr>"

definition reset_any :: "counter_reset \<Rightarrow> bool" where
  "reset_any c \<longleftrightarrow> cr_received c \<or> cr_transmitted c"

definition is_ifindex_changed :: "network_interface_reading \<Rightarrow> network_interface_reading \<Rightarrow> bool" where
  "is_ifindex_changed prev cur =
     (case (ifindex prev, ifindex cur) of (Some p, Some c) \<Rightarrow> p \<noteq> c | _ \<Rightarrow> False)"

definition is_boot_id_changed :: "network_interface_reading \<Rightarrow> network_interface_reading \<Rightarrow> bool" where
  "is_boot_id_changed prev cur =
     (case (boot_id prev, boot_id cur) of (Some p, Some c) \<Rightarrow> p \<noteq> c | _ \<Rightarrow> False)"

definition is_full_reset :: "network_interface_reading \<Rightarrow> network_interface_reading \<Rightarrow> bool" where
  "is_full_reset prev cur \<longleftrightarrow> is_boot_id_changed prev cur \<or> is_ifindex_changed prev cur"

definition detect_counter_reset ::
  "network_interface_reading \<Rightarrow> network_interface_reading \<Rightarrow> counter_reset" where
  "detect_counter_reset prev cur =
     (if is_full_reset prev cur then RESET_BOTH
      else \<lparr> cr_received = counter_received cur < counter_received prev,
             cr_transmitted = counter_transmitted cur < counter_transmitted prev \<rparr>)"

definition increase_for_direction :: "u64 \<Rightarrow> u64 \<Rightarrow> bool \<Rightarrow> u64" where
  "increase_for_direction prev cur reset = (if reset then cur else saturating_sub cur prev)"

definition compute_traffic_increase ::
  "network_interface_reading option \<Rightarrow> network_interface_reading \<Rightarrow> counter_reset \<Rightarrow> traffic" where
  "compute_traffic_increase prev cur reset =
     (case prev of
        None \<Rightarrow> \<lparr> received = 0, transmitted = 0 \<rparr>
      | Some p \<Rightarrow>
          \<lparr> received = increase_for_direction (counter_received p) (counter_received cur)
                        (cr_received reset),
            transmitted = increase_for_direction (counter_transmitted p) (counter_transmitted cur)
                        (cr_transmitted reset) \<rparr>)"

definition POSSIBLE_DATA_LOSS_THRESHOLD_MS :: int where
  "POSSIBLE_DATA_LOSS_THRESHOLD_MS = 10 * 60 * 1000"

definition detect_possible_data_loss ::
  "i16 \<Rightarrow> network_interface_reading \<Rightarrow> i64 \<Rightarrow> possible_data_loss option" where
  "detect_possible_data_loss uuid_id prev reset_at =
     (if sint (reset_at - updated_at prev) \<le> POSSIBLE_DATA_LOSS_THRESHOLD_MS then None
      else Some \<lparr> pl_uuid_id = uuid_id, pl_start_time = updated_at prev, pl_end_time = reset_at \<rparr>)"


section \<open>Applying a report\<close>

text \<open>
  One round of the loop over the outlet interfaces.  The flag is
  \<^verbatim>\<open>possible_data_loss_recorded\<close>.
\<close>

definition current_reading ::
  "report_data \<Rightarrow> i64 \<Rightarrow> interface_data \<Rightarrow> network_interface_reading option \<Rightarrow> network_interface_reading" where
  "current_reading data received_at i prev =
     \<lparr> boot_id = sys_boot_id (rp_system data), ifindex = if_ifindex i,
       counter_received = if_total_received i, counter_transmitted = if_total_transmitted i,
       report_time = rp_time data,
       created_at = (case prev of None \<Rightarrow> received_at | Some p \<Rightarrow> created_at p),
       updated_at = received_at \<rparr>"

definition boot_at :: "report_data \<Rightarrow> i64 \<Rightarrow> i64" where
  "boot_at data received_at = received_at - saturating_mul (sys_uptime (rp_system data)) 1000"

definition reset_of :: "network_interface_reading option \<Rightarrow> network_interface_reading \<Rightarrow> counter_reset" where
  "reset_of prev cur = (case prev of None \<Rightarrow> RESET_NONE | Some p \<Rightarrow> detect_counter_reset p cur)"

definition add_traffic :: "traffic \<Rightarrow> traffic \<Rightarrow> traffic" where
  "add_traffic t d = \<lparr> received = saturating_add (received t) (received d),
                       transmitted = saturating_add (transmitted t) (transmitted d) \<rparr>"

definition loss_of ::
  "i16 \<Rightarrow> report_data \<Rightarrow> i64 \<Rightarrow> network_interface_reading option \<Rightarrow> network_interface_reading
   \<Rightarrow> possible_data_loss option" where
  "loss_of uuid_id data received_at prev cur =
     (if reset_any (reset_of prev cur)
      then (case prev of
              None \<Rightarrow> None
            | Some p \<Rightarrow>
                detect_possible_data_loss uuid_id p
                  (if is_boot_id_changed p cur then boot_at data received_at else received_at))
      else None)"

definition apply_interface ::
  "i16 \<Rightarrow> report_data \<Rightarrow> i64 \<Rightarrow> interface_data \<Rightarrow> traffic_state \<times> bool \<Rightarrow> traffic_state \<times> bool" where
  "apply_interface uuid_id data received_at i = (\<lambda>(s, recorded).
     let key = (uuid_id, if_name i);
         prev = hm_get (prev_readings s) key
     in if (case prev of None \<Rightarrow> False | Some p \<Rightarrow> sint (rp_time data) < sint (report_time p))
        then (s, recorded)
        else
          let cur = current_reading data received_at i prev;
              increase = compute_traffic_increase prev cur (reset_of prev cur);
              loss = (if recorded then None else loss_of uuid_id data received_at prev cur)
          in (s\<lparr> totals := hm_insert key (add_traffic (total_of s key) increase) (totals s),
                 pending_possible_data_losses :=
                   pending_possible_data_losses s @ (case loss of None \<Rightarrow> [] | Some l \<Rightarrow> [l]),
                 prev_readings := hm_insert key cur (prev_readings s) \<rparr>,
              recorded \<or> loss \<noteq> None))"

definition outlets :: "report_data \<Rightarrow> interface_data list" where
  "outlets data = filter (\<lambda>i. if_is_outlet i = Some True) (rp_interfaces data)"

definition apply_report :: "i16 \<Rightarrow> report_data \<Rightarrow> i64 \<Rightarrow> traffic_state \<Rightarrow> traffic_state" where
  "apply_report uuid_id data received_at s =
     (if \<exists>i\<in>set (rp_interfaces data). if_is_outlet i = None then s
      else fst (fold (apply_interface uuid_id data received_at) (outlets data) (s, False)))"


section \<open>The database\<close>

text \<open>
  The rows of \<^verbatim>\<open>traffic_current_total\<close> and \<^verbatim>\<open>traffic_possible_data_loss\<close>.
  Their \<^verbatim>\<open>id\<close> is assigned by the database and never read by the program, so a row is
  the model that was inserted.
\<close>

record current_total_row =
  row_uuid_id :: i16
  row_interface_name :: string
  row_boot_id :: "string option"
  row_ifindex :: "u32 option"
  row_counter_received :: i64
  row_counter_transmitted :: i64
  row_report_time :: i64
  row_total_received :: i64
  row_total_transmitted :: i64
  row_created_at :: i64
  row_updated_at :: i64

definition row_key :: "current_total_row \<Rightarrow> if_key" where
  "row_key r = (row_uuid_id r, row_interface_name r)"

definition current_total_model ::
  "i16 \<Rightarrow> string \<Rightarrow> network_interface_reading \<Rightarrow> traffic \<Rightarrow> current_total_row" where
  "current_total_model uuid_id name reading tot =
     \<lparr> row_uuid_id = uuid_id, row_interface_name = name, row_boot_id = boot_id reading,
       row_ifindex = ifindex reading, row_counter_received = counter_received reading,
       row_counter_transmitted = counter_transmitted reading, row_report_time = report_time reading,
       row_total_received = received tot, row_total_transmitted = transmitted tot,
       row_created_at = created_at reading, row_updated_at = updated_at reading \<rparr>"

record traffic_db =
  total_rows :: "current_total_row list"
  loss_rows :: "possible_data_loss list"

datatype database_backend = Sqlite | Postgres | MySql

datatype traffic_site = FindTotals | Begin | InsertTotals nat | InsertLosses nat | Commit

type_synonym traffic_faults = "traffic_site \<Rightarrow> db_err option"

text \<open>
  The state after a restart: the totals and the last readings come back from the
  table.
\<close>

definition load_row :: "current_total_row \<Rightarrow> traffic_state \<Rightarrow> traffic_state" where
  "load_row row s =
     s\<lparr> totals := hm_insert (row_key row)
           \<lparr> received = row_total_received row, transmitted = row_total_transmitted row \<rparr> (totals s),
        prev_readings := hm_insert (row_key row)
           \<lparr> boot_id = row_boot_id row, ifindex = row_ifindex row,
             counter_received = row_counter_received row,
             counter_transmitted = row_counter_transmitted row,
             report_time = row_report_time row, created_at = row_created_at row,
             updated_at = row_updated_at row \<rparr> (prev_readings s) \<rparr>"

definition load_state :: "current_total_row list \<Rightarrow> traffic_state" where
  "load_state rows = fold load_row rows state_default"

text \<open>
  An \<^verbatim>\<open>INSERT\<close> with more bound parameters than the backend takes is refused; a row
  binds every column but the automatic \<^verbatim>\<open>id\<close>.
\<close>

definition SQLITE_MAX_VARIABLES :: nat where
  "SQLITE_MAX_VARIABLES = 999"

definition POSTGRES_MAX_VARIABLES :: nat where
  "POSTGRES_MAX_VARIABLES = 65535"

definition max_variables :: "database_backend \<Rightarrow> nat" where
  "max_variables backend = (if backend = Sqlite then SQLITE_MAX_VARIABLES else POSTGRES_MAX_VARIABLES)"

definition max_rows_per_statement :: "database_backend \<Rightarrow> nat \<Rightarrow> nat" where
  "max_rows_per_statement backend columns = max (max_variables backend div max columns 1) 1"

fun chunks :: "nat \<Rightarrow> 'a list \<Rightarrow> 'a list list" where
  "chunks n xs = (if n = 0 \<or> xs = [] then [] else take n xs # chunks n (drop n xs))"

declare chunks.simps [simp del]

definition TOTAL_COLUMNS :: nat where "TOTAL_COLUMNS = 12"
definition LOSS_COLUMNS :: nat where "LOSS_COLUMNS = 4"

definition exec_insert :: "database_backend \<Rightarrow> db_err option \<Rightarrow> nat \<Rightarrow> 'a list \<Rightarrow> db_err + unit" where
  "exec_insert backend fault columns rows =
     (if length rows * (columns - 1) > max_variables backend
      then Inl (OtherDbErr ''too many SQL variables'')
      else (case fault of Some e \<Rightarrow> Inl e | None \<Rightarrow> Inr ()))"

definition upsert_total :: "current_total_row \<Rightarrow> current_total_row list \<Rightarrow> current_total_row list" where
  "upsert_total m rows =
     (if tbl_find (\<lambda>r. row_key r = row_key m) rows = None then rows @ [m]
      else tbl_update (\<lambda>r. row_key r = row_key m) (\<lambda>r. m\<lparr> row_created_at := row_created_at r \<rparr>) rows)"

text \<open>
  The statements of one transaction, chunk by chunk; the first error ends it and
  nothing of it is kept.
\<close>

fun insert_chunks ::
  "database_backend \<Rightarrow> (nat \<Rightarrow> db_err option) \<Rightarrow> nat \<Rightarrow> ('a list \<Rightarrow> 'd \<Rightarrow> 'd) \<Rightarrow> nat \<Rightarrow> 'a list list \<Rightarrow> 'd
   \<Rightarrow> db_err + 'd" where
  "insert_chunks backend fault columns ins n [] db = Inr db"
| "insert_chunks backend fault columns ins n (c # cs) db =
     rbind (exec_insert backend (fault n) columns c)
       (\<lambda>_. insert_chunks backend fault columns ins (Suc n) cs (ins c db))"

definition query_ok :: "db_err option \<Rightarrow> db_err + unit" where
  "query_ok fault = (case fault of Some e \<Rightarrow> Inl e | None \<Rightarrow> Inr ())"

definition write_to_db ::
  "database_backend \<Rightarrow> traffic_faults \<Rightarrow> current_total_row list \<Rightarrow> possible_data_loss list \<Rightarrow> traffic_db
   \<Rightarrow> (db_err + unit) \<times> traffic_db" where
  "write_to_db backend flt current_totals losses db =
     (case rbind (query_ok (flt Begin)) (\<lambda>_.
           rbind (insert_chunks backend (\<lambda>n. flt (InsertTotals n)) TOTAL_COLUMNS (fold upsert_total) 0
                    (chunks (max_rows_per_statement backend TOTAL_COLUMNS) current_totals)
                    (total_rows db)) (\<lambda>ts.
           rbind (insert_chunks backend (\<lambda>n. flt (InsertLosses n)) LOSS_COLUMNS (\<lambda>c ls. ls @ c) 0
                    (chunks (max_rows_per_statement backend LOSS_COLUMNS) losses)
                    (loss_rows db)) (\<lambda>ls.
           rbind (query_ok (flt Commit)) (\<lambda>_. Inr (ts, ls))))) of
        Inl e \<Rightarrow> (Inl e, db)
      | Inr (ts, ls) \<Rightarrow> (Inr (), db\<lparr> total_rows := ts, loss_rows := ls \<rparr>))"


section \<open>Flushing\<close>

text \<open>
  \<^verbatim>\<open>flush\<close> holds the lock only to take the pending periods and to copy the
  totals; the write happens without it, and reports may arrive in between.  So it
  is two operations: \<open>flush_take\<close> and, with the outcome of the write,
  \<open>flush_done\<close>.
\<close>

definition flush_models :: "traffic_state \<Rightarrow> current_total_row list" where
  "flush_models s =
     map (\<lambda>(k, r). current_total_model (fst k) (snd k) r (total_of s k)) (prev_readings s)"

definition flush_take ::
  "traffic_state \<Rightarrow> (possible_data_loss list \<times> current_total_row list) \<times> traffic_state" where
  "flush_take s = ((pending_possible_data_losses s, flush_models s),
                   s\<lparr> pending_possible_data_losses := [] \<rparr>)"

definition flush_write ::
  "database_backend \<Rightarrow> bool \<Rightarrow> traffic_faults \<Rightarrow> possible_data_loss list \<times> current_total_row list
   \<Rightarrow> traffic_db \<Rightarrow> (db_err + unit) \<times> traffic_db" where
  "flush_write backend ready flt job db =
     (if fst job = [] \<and> snd job = [] then (Inr (), db)
      else if ready then write_to_db backend flt (snd job) (fst job) db
      else (Inl (OtherDbErr ''database not initialized''), db))"

definition flush_done ::
  "db_err + unit \<Rightarrow> possible_data_loss list \<Rightarrow> traffic_state \<Rightarrow> traffic_state" where
  "flush_done r losses s =
     (case r of
        Inr _ \<Rightarrow> s
      | Inl _ \<Rightarrow> s\<lparr> pending_possible_data_losses := losses @ pending_possible_data_losses s \<rparr>)"


section \<open>The instance and its flush loop\<close>

text \<open>
  The instance is shared by the static \<^verbatim>\<open>TRAFFIC_STATS\<close> and by \<^verbatim>\<open>flush_loop\<close>;
  \<open>tw_published\<close> says whether the static still holds it.  \<open>tw_notified\<close> is
  the permit of \<^verbatim>\<open>shutdown\<close>, \<open>tw_job\<close> the write in progress, and
  \<open>tw_last\<close> whether the loop returns after it.
\<close>

record traffic_world =
  tw_db :: traffic_db
  tw_ready :: bool
  tw_stats :: "traffic_state option"
  tw_published :: bool
  tw_notified :: bool
  tw_job :: "(possible_data_loss list \<times> current_total_row list) option"
  tw_last :: bool

definition init_stats :: "(db_err \<Rightarrow> string) \<Rightarrow> traffic_faults \<Rightarrow> traffic_world \<Rightarrow> unit any_result \<times> traffic_world" where
  "init_stats db_err_text flt w =
     (if \<not> tw_ready w then (Inl (Foreign ''database not initialized''), w)
      else (case flt FindTotals of
              Some e \<Rightarrow> (Inl (Foreign (db_err_text e)), w)
            | None \<Rightarrow>
                (Inr (), w\<lparr> tw_stats := Some (load_state (total_rows (tw_db w))),
                            tw_published := True, tw_notified := False, tw_last := False \<rparr>)))"

definition update_total_traffic :: "i16 \<Rightarrow> report_data \<Rightarrow> i64 \<Rightarrow> traffic_world \<Rightarrow> traffic_world" where
  "update_total_traffic uuid_id data received_at w =
     (case tw_stats w of
        None \<Rightarrow> w
      | Some s \<Rightarrow>
          if tw_published w then w\<lparr> tw_stats := Some (apply_report uuid_id data received_at s) \<rparr> else w)"

definition current_totals :: "traffic_world \<Rightarrow> interface_current_total list option" where
  "current_totals w =
     (if tw_published w then map_option state_current_totals (tw_stats w) else None)"

definition flush_and_shutdown :: "traffic_world \<Rightarrow> traffic_world" where
  "flush_and_shutdown w =
     (if tw_published w \<and> tw_stats w \<noteq> None then w\<lparr> tw_published := False, tw_notified := True \<rparr> else w)"

definition loop_take :: "bool \<Rightarrow> traffic_state \<Rightarrow> traffic_world \<Rightarrow> traffic_world" where
  "loop_take final s w =
     w\<lparr> tw_job := Some (fst (flush_take s)), tw_stats := Some (snd (flush_take s)),
        tw_notified := tw_notified w \<and> \<not> final, tw_last := final \<rparr>"

definition loop_write ::
  "database_backend \<Rightarrow> traffic_faults \<Rightarrow> possible_data_loss list \<times> current_total_row list \<Rightarrow> traffic_state
   \<Rightarrow> traffic_world \<Rightarrow> (db_err + unit) \<times> traffic_state \<times> traffic_world" where
  "loop_write backend flt job s w =
     (case flush_write backend (tw_ready w) flt job (tw_db w) of
        (r, db') \<Rightarrow>
          let s' = flush_done r (fst job) s
          in (r, s', w\<lparr> tw_db := db', tw_job := None,
                        tw_stats := (if tw_last w then None else Some s') \<rparr>))"

text \<open>
  What happens to the statistics, one rule per operation.  A label lists the
  periods a report recorded, or the periods that were still in memory when the
  loop returned.
\<close>

datatype traffic_label = Silent | Recorded "possible_data_loss list" | Dropped "db_err + unit" "possible_data_loss list"

inductive traffic_step :: "database_backend \<Rightarrow> traffic_world \<Rightarrow> traffic_label \<Rightarrow> traffic_world \<Rightarrow> bool"
  for backend :: database_backend
where
  StepInit: "traffic_step backend w Silent (snd (init_stats display flt w))"
    if "tw_stats w = None"
| StepReport: "traffic_step backend w
      (Recorded (drop (length (pending_possible_data_losses s))
                      (pending_possible_data_losses (apply_report u d t s))))
      (update_total_traffic u d t w)"
    if "tw_stats w = Some s" and "tw_published w"
| StepIgnored: "traffic_step backend w Silent (update_total_traffic u d t w)"
    if "\<not> tw_published w"
| StepTick: "traffic_step backend w Silent (loop_take False s w)"
    if "tw_stats w = Some s" and "tw_job w = None"
| StepNotified: "traffic_step backend w Silent (loop_take True s w)"
    if "tw_stats w = Some s" and "tw_job w = None" and "tw_notified w"
| StepWrite: "traffic_step backend w Silent w'"
    if "tw_stats w = Some s" and "tw_job w = Some job" and "\<not> tw_last w"
      and "loop_write backend flt job s w = (r, s', w')"
| StepExit: "traffic_step backend w (Dropped r (pending_possible_data_losses s')) w'"
    if "tw_stats w = Some s" and "tw_job w = Some job" and "tw_last w"
      and "loop_write backend flt job s w = (r, s', w')"
| StepShutdown: "traffic_step backend w Silent (flush_and_shutdown w)"

inductive traffic_run :: "database_backend \<Rightarrow> traffic_world \<Rightarrow> traffic_label list \<Rightarrow> traffic_world \<Rightarrow> bool"
  for backend :: database_backend
where
  RunNil: "traffic_run backend w [] w"
| RunSnoc: "traffic_run backend w ls w' \<Longrightarrow> traffic_step backend w' l w'' \<Longrightarrow> traffic_run backend w (ls @ [l]) w''"

inductive_cases traffic_stepE: "traffic_step backend w l w'"

definition traffic_start :: "traffic_world \<Rightarrow> bool" where
  "traffic_start w \<longleftrightarrow> tw_stats w = None \<and> tw_job w = None \<and> \<not> tw_published w \<and> \<not> tw_notified w
     \<and> unique_on (\<lambda>r. Some (row_key r)) (total_rows (tw_db w))"
end
