(* ===== verification/Traffic_Props.thy ===== *)
theory Traffic_Props
  imports Traffic "HOL-Library.Multiset"
begin

text \<open>
  The properties of the traffic statistics: no direction is ever counted above
  what the device transferred, the count is exact while no counter restarts, the
  state survives a restart of the server, and every period of possible data loss
  is written exactly once however reports and writes interleave.
\<close>


section \<open>Arithmetic\<close>

lemma unat_lt64 [simp]: "unat (x :: u64) < 2 ^ 64"
  using unsigned_less [of x] by simp

lemma unat_minus_one64: "unat (- 1 :: u64) = 2 ^ 64 - 1"
  by (simp add: unsigned_minus_1_eq_mask mask_eq_exp_minus_1)

lemma unat_saturating_add: "unat (saturating_add a b) = min (unat a + unat b) (2 ^ 64 - 1)"
proof (cases "unat a + unat b < 2 ^ 64")
  case True
  then have "unat (a + b) = unat a + unat b" by (simp add: unat_add_lem [symmetric])
  with True show ?thesis by (simp add: saturating_add_def)
next
  case False
  then show ?thesis unfolding saturating_add_def unat_minus_one64 [symmetric] by (simp add: unat_minus_one64)
qed

lemma unat_saturating_sub: "unat (saturating_sub a b) = unat a - unat b"
  by (auto simp: saturating_sub_def unat_sub word_le_nat_alt)


section \<open>One report\<close>

datatype direction = Rx | Tx

primrec counter_in :: "direction \<Rightarrow> network_interface_reading \<Rightarrow> u64" where
  "counter_in Rx r = counter_received r"
| "counter_in Tx r = counter_transmitted r"

primrec traffic_in :: "direction \<Rightarrow> traffic \<Rightarrow> u64" where
  "traffic_in Rx t = received t"
| "traffic_in Tx t = transmitted t"

definition total_in :: "direction \<Rightarrow> traffic_state \<Rightarrow> if_key \<Rightarrow> nat" where
  "total_in d s k = unat (traffic_in d (total_of s k))"

lemma apply_interface_other:
  assumes "k \<noteq> (u, if_name i)"
  shows "hm_get (prev_readings (fst (apply_interface u d t i sb))) k = hm_get (prev_readings (fst sb)) k"
    and "hm_get (totals (fst (apply_interface u d t i sb))) k = hm_get (totals (fst sb)) k"
  using assms by (cases sb; simp add: apply_interface_def Let_def)+

lemma fold_interface_other:
  assumes "\<forall>i\<in>set is. k \<noteq> (u, if_name i)"
  shows "hm_get (prev_readings (fst (fold (apply_interface u d t) is sb))) k = hm_get (prev_readings (fst sb)) k
     \<and> hm_get (totals (fst (fold (apply_interface u d t) is sb))) k = hm_get (totals (fst sb)) k"
  using assms by (induction "is" arbitrary: sb) (simp_all add: apply_interface_other)

text \<open>The effect of a report on one interface, when its name occurs once among the outlets.\<close>

definition key_effect ::
  "i16 \<Rightarrow> report_data \<Rightarrow> i64 \<Rightarrow> interface_data \<Rightarrow> if_key \<Rightarrow> traffic_state \<Rightarrow> traffic_state \<Rightarrow> bool" where
  "key_effect u d t i k s s' \<longleftrightarrow>
     (let prev = hm_get (prev_readings s) k; cur = current_reading d t i prev
      in hm_get (prev_readings s') k = Some cur
         \<and> hm_get (totals s') k
             = Some (add_traffic (total_of s k) (compute_traffic_increase prev cur (reset_of prev cur))))"

definition unchanged_at :: "if_key \<Rightarrow> traffic_state \<Rightarrow> traffic_state \<Rightarrow> bool" where
  "unchanged_at k s s' \<longleftrightarrow> hm_get (prev_readings s') k = hm_get (prev_readings s) k
     \<and> hm_get (totals s') k = hm_get (totals s) k"

lemma apply_interface_key:
  "unchanged_at (u, if_name i) (fst sb) (fst (apply_interface u d t i sb))
   \<or> key_effect u d t i (u, if_name i) (fst sb) (fst (apply_interface u d t i sb))"
  by (cases sb) (simp add: apply_interface_def key_effect_def unchanged_at_def Let_def)

lemma unchanged_at_trans: "unchanged_at k s s1 \<Longrightarrow> unchanged_at k s1 s2 \<Longrightarrow> unchanged_at k s s2"
  by (simp add: unchanged_at_def)

lemma total_of_cong: "hm_get (totals s') k = hm_get (totals s) k \<Longrightarrow> total_of s' k = total_of s k"
  by (simp add: total_of_def)

lemma unchanged_at_trans_effect:
  assumes "unchanged_at k s s1" and "key_effect u d t i k s1 s2" and "unchanged_at k s2 s3"
  shows "key_effect u d t i k s s3"
  using assms total_of_cong [of s1 k s] by (simp add: key_effect_def unchanged_at_def Let_def)

lemma fold_interface_key:
  assumes "distinct (map if_name is)" and "i \<in> set is"
  shows "unchanged_at (u, if_name i) (fst sb) (fst (fold (apply_interface u d t) is sb))
   \<or> key_effect u d t i (u, if_name i) (fst sb) (fst (fold (apply_interface u d t) is sb))"
proof -
  let ?k = "(u, if_name i)" and ?f = "apply_interface u d t"
  from assms(2) obtain as bs where eq: "is = as @ i # bs" by (auto simp: in_set_conv_decomp)
  with assms(1) have no: "\<forall>j\<in>set as. ?k \<noteq> (u, if_name j)" "\<forall>j\<in>set bs. ?k \<noteq> (u, if_name j)"
    by (auto simp: rev_image_eqI)
  let ?s1 = "fold ?f as sb"
  have u1: "unchanged_at ?k (fst sb) (fst ?s1)"
    using fold_interface_other [OF no(1)] by (simp add: unchanged_at_def)
  have u3: "unchanged_at ?k (fst (?f i ?s1)) (fst (fold ?f bs (?f i ?s1)))"
    using fold_interface_other [OF no(2)] by (simp add: unchanged_at_def)
  have "fold ?f is sb = fold ?f bs (?f i ?s1)" by (simp add: eq)
  with apply_interface_key [of u i ?s1 d t] show ?thesis
    using unchanged_at_trans [OF unchanged_at_trans [OF u1] u3] unchanged_at_trans_effect [OF u1 _ u3]
    by auto
qed

lemma apply_report_key:
  assumes "distinct (map if_name (outlets d))"
  shows "unchanged_at k s (apply_report u d t s)
   \<or> (\<exists>i\<in>set (outlets d). k = (u, if_name i) \<and> key_effect u d t i k s (apply_report u d t s))"
proof (cases "\<exists>i\<in>set (rp_interfaces d). if_is_outlet i = None")
  case True
  then show ?thesis by (simp add: apply_report_def unchanged_at_def)
next
  case False
  then have eq: "apply_report u d t s = fst (fold (apply_interface u d t) (outlets d) (s, False))"
    by (auto simp: apply_report_def)
  show ?thesis
  proof (cases "\<exists>i\<in>set (outlets d). k = (u, if_name i)")
    case True
    then obtain i where i: "i \<in> set (outlets d)" "k = (u, if_name i)" by auto
    from fold_interface_key [OF assms i(1), of u "(s, False)" d t] i show ?thesis
      unfolding eq by auto
  next
    case False
    then have "\<forall>i\<in>set (outlets d). k \<noteq> (u, if_name i)" by auto
    from fold_interface_other [OF this, of d t "(s, False)"] show ?thesis
      unfolding eq by (simp add: unchanged_at_def)
  qed
qed


section \<open>Metering\<close>

text \<open>
  A report comes with the odometer of the interface: what it really transferred in
  the direction since some moment.  Between two readings that the server accepted the
  counter either went on or restarted from zero at some point in between.
\<close>

type_synonym metered_report = "i16 \<times> report_data \<times> i64 \<times> nat"

definition continues :: "direction \<Rightarrow> network_interface_reading \<Rightarrow> network_interface_reading \<Rightarrow> nat \<Rightarrow> bool" where
  "continues dir p c a \<longleftrightarrow>
     \<not> is_full_reset p c \<and> unat (counter_in dir c) = unat (counter_in dir p) + a"

definition restarted :: "direction \<Rightarrow> network_interface_reading \<Rightarrow> nat \<Rightarrow> bool" where
  "restarted dir c a \<longleftrightarrow> unat (counter_in dir c) \<le> a"

definition apply_metered :: "metered_report \<Rightarrow> traffic_state \<Rightarrow> traffic_state" where
  "apply_metered r s = (case r of (u, d, t, g) \<Rightarrow> apply_report u d t s)"

lemma apply_metered_simp [simp]: "apply_metered (u, d, t, g) s = apply_report u d t s"
  by (simp add: apply_metered_def)

fun odometer :: "if_key \<Rightarrow> traffic_state \<Rightarrow> nat \<Rightarrow> metered_report list \<Rightarrow> nat" where
  "odometer k s g [] = g"
| "odometer k s g ((u, d, t, g1) # rs) =
     (let s' = apply_report u d t s
      in odometer k s' (if hm_get (prev_readings s') k = hm_get (prev_readings s) k then g else g1) rs)"

fun metered ::
  "(network_interface_reading \<Rightarrow> network_interface_reading \<Rightarrow> nat \<Rightarrow> bool) \<Rightarrow> if_key \<Rightarrow> traffic_state \<Rightarrow> nat
   \<Rightarrow> metered_report list \<Rightarrow> bool" where
  "metered P k s g [] \<longleftrightarrow> True"
| "metered P k s g ((u, d, t, g1) # rs) \<longleftrightarrow>
     (let s' = apply_report u d t s
      in distinct (map if_name (outlets d))
         \<and> (if hm_get (prev_readings s') k = hm_get (prev_readings s) k then metered P k s' g rs
            else g \<le> g1
                 \<and> (case (hm_get (prev_readings s) k, hm_get (prev_readings s') k) of
                      (Some p, Some c) \<Rightarrow> P p c (g1 - g) | _ \<Rightarrow> True)
                 \<and> metered P k s' g1 rs))"

lemma traffic_in_increase:
  "traffic_in dir (compute_traffic_increase None c r) = 0"
  "traffic_in dir (compute_traffic_increase (Some p) c r)
     = increase_for_direction (counter_in dir p) (counter_in dir c)
         (case dir of Rx \<Rightarrow> cr_received r | Tx \<Rightarrow> cr_transmitted r)"
  by (cases dir; simp add: compute_traffic_increase_def)+

lemma reset_in_direction:
  "(case dir of Rx \<Rightarrow> cr_received (detect_counter_reset p c) | Tx \<Rightarrow> cr_transmitted (detect_counter_reset p c))
     \<longleftrightarrow> is_full_reset p c \<or> counter_in dir c < counter_in dir p"
  by (cases dir) (simp_all add: detect_counter_reset_def RESET_BOTH_def)

text \<open>What a report adds in one direction, over the naturals.\<close>

lemma unat_increase:
  "unat (traffic_in dir (compute_traffic_increase (Some p) c (detect_counter_reset p c)))
     = (if is_full_reset p c \<or> unat (counter_in dir c) < unat (counter_in dir p)
        then unat (counter_in dir c) else unat (counter_in dir c) - unat (counter_in dir p))"
  by (simp add: traffic_in_increase reset_in_direction increase_for_direction_def
        unat_saturating_sub word_less_nat_alt)

lemma increase_continues:
  "continues dir p c a \<Longrightarrow>
   unat (traffic_in dir (compute_traffic_increase (Some p) c (detect_counter_reset p c))) = a"
  by (simp add: unat_increase continues_def)

lemma increase_at_most:
  "continues dir p c a \<or> restarted dir c a \<Longrightarrow>
   unat (traffic_in dir (compute_traffic_increase (Some p) c (detect_counter_reset p c))) \<le> a"
  using increase_continues [of dir p c a] by (auto simp: unat_increase restarted_def)

lemma total_in_add:
  "hm_get (totals s') k = Some (add_traffic (total_of s k) inc) \<Longrightarrow>
   total_in dir s' k = min (total_in dir s k + unat (traffic_in dir inc)) (2 ^ 64 - 1)"
  by (cases dir) (simp_all add: total_in_def total_of_def add_traffic_def unat_saturating_add)

lemma total_in_bound: "total_in dir s k \<le> 2 ^ 64 - 1"
  using unat_lt64 [of "traffic_in dir (total_of s k)"] unfolding total_in_def by linarith

lemma no_reset_same: "\<not> is_full_reset p p"
  by (auto simp: is_full_reset_def is_boot_id_changed_def is_ifindex_changed_def split: option.splits)

definition increase :: "direction \<Rightarrow> network_interface_reading \<Rightarrow> network_interface_reading \<Rightarrow> nat" where
  "increase dir p c = unat (traffic_in dir (compute_traffic_increase (Some p) c (detect_counter_reset p c)))"

lemma increase_same [simp]: "increase dir p p = 0"
  by (simp add: increase_def unat_increase no_reset_same)

text \<open>The effect of a report on the total of an interface, by its last readings.\<close>

lemma report_total:
  assumes "distinct (map if_name (outlets d))"
  shows "total_in dir (apply_report u d t s) k =
    (case (hm_get (prev_readings s) k, hm_get (prev_readings (apply_report u d t s)) k) of
       (Some p, Some c) \<Rightarrow> min (total_in dir s k + increase dir p c) (2 ^ 64 - 1)
     | _ \<Rightarrow> total_in dir s k)"
proof -
  let ?s' = "apply_report u d t s"
  consider (same) "unchanged_at k s ?s'" | (eff) i where "key_effect u d t i k s ?s'"
    using apply_report_key [OF assms, of k s u t] by blast
  then show ?thesis
  proof cases
    case same
    then show ?thesis
      using total_of_cong [of ?s' k s] total_in_bound [of dir s k]
      by (auto simp: unchanged_at_def total_in_def split: option.split)
  next
    case eff
    define prev cur where "prev = hm_get (prev_readings s) k" and "cur = current_reading d t i prev"
    from eff have r: "hm_get (prev_readings ?s') k = Some cur"
      and t: "hm_get (totals ?s') k
         = Some (add_traffic (total_of s k) (compute_traffic_increase prev cur (reset_of prev cur)))"
      by (simp_all add: key_effect_def Let_def prev_def cur_def)
    from r total_in_add [OF t, of dir] total_in_bound [of dir s k] show ?thesis
      by (cases prev) (simp_all add: prev_def [symmetric] traffic_in_increase(1) reset_of_def increase_def)
  qed
qed

lemma report_keeps_reading:
  assumes "distinct (map if_name (outlets d))" and "hm_get (prev_readings s) k = Some p"
  shows "\<exists>c. hm_get (prev_readings (apply_report u d t s)) k = Some c"
  using apply_report_key [OF assms(1), of k s u t] assms(2)
  by (auto simp: unchanged_at_def key_effect_def Let_def)

lemma odometer_mono: "metered P k s g rs \<Longrightarrow> g \<le> odometer k s g rs"
proof (induction P k s g rs rule: metered.induct)
  case (2 P k s g u d t g1 rs)
  then show ?case by (cases "hm_get (prev_readings (apply_report u d t s)) k = hm_get (prev_readings s) k")
      (auto simp: Let_def)
qed simp

lemma metered_total_le:
  assumes "\<And>p c a. P p c a \<Longrightarrow> increase dir p c \<le> a" and "metered P k s g rs"
  shows "total_in dir (fold apply_metered rs s) k \<le> total_in dir s k + (odometer k s g rs - g)"
  using assms(2)
proof (induction rs arbitrary: s g)
  case (Cons r rs)
  obtain u d t g1 where r: "r = (u, d, t, g1)" by (cases r)
  let ?s = "apply_report u d t s" and ?p = "hm_get (prev_readings s) k"
  let ?c = "hm_get (prev_readings ?s) k"
  from Cons.prems have dist: "distinct (map if_name (outlets d))" by (simp add: r Let_def)
  note tot = report_total [OF dist, of dir u t s k]
  show ?case
  proof (cases "?c = ?p")
    case True
    with tot have "total_in dir ?s k \<le> total_in dir s k" by (auto split: option.splits)
    moreover from Cons.prems True have "metered P k ?s g rs" by (simp add: r Let_def)
    ultimately show ?thesis using Cons.IH [of ?s g] True by (simp add: r Let_def)
  next
    case False
    with Cons.prems have g: "g \<le> g1" and m: "metered P k ?s g1 rs"
      and P: "\<And>p c. ?p = Some p \<Longrightarrow> ?c = Some c \<Longrightarrow> P p c (g1 - g)" by (auto simp: r Let_def)
    have "total_in dir ?s k \<le> total_in dir s k + (g1 - g)"
      using tot assms(1) [OF P] by (fastforce split: option.splits)
    with Cons.IH [OF m] odometer_mono [OF m] g False show ?thesis by (simp add: r Let_def)
  qed
qed simp

lemma metered_total_eq:
  assumes "\<And>p c a. P p c a \<Longrightarrow> increase dir p c = a" and "metered P k s g rs"
    and "hm_get (prev_readings s) k \<noteq> None"
  shows "total_in dir (fold apply_metered rs s) k = min (total_in dir s k + (odometer k s g rs - g)) (2 ^ 64 - 1)"
  using assms(2,3)
proof (induction rs arbitrary: s g)
  case Nil
  then show ?case using total_in_bound [of dir s k] by simp
next
  case (Cons r rs)
  obtain u d t g1 where r: "r = (u, d, t, g1)" by (cases r)
  let ?s = "apply_report u d t s"
  from Cons.prems obtain p where p: "hm_get (prev_readings s) k = Some p" by auto
  from Cons.prems have dist: "distinct (map if_name (outlets d))" by (simp add: r Let_def)
  from report_keeps_reading [OF dist p] obtain c where c: "hm_get (prev_readings ?s) k = Some c" by blast
  have tot: "total_in dir ?s k = min (total_in dir s k + increase dir p c) (2 ^ 64 - 1)"
    using report_total [OF dist, of dir u t s k] by (simp add: p c)
  show ?case
  proof (cases "c = p")
    case True
    then have "total_in dir ?s k = total_in dir s k" using tot total_in_bound [of dir s k] by simp
    moreover from Cons.prems True c p have "metered P k ?s g rs" by (simp add: r Let_def)
    ultimately show ?thesis using Cons.IH [of ?s g] True c p by (simp add: r Let_def)
  next
    case False
    with Cons.prems p c have g: "g \<le> g1" and m: "metered P k ?s g1 rs" and P: "P p c (g1 - g)"
      by (auto simp: r Let_def)
    from Cons.IH [OF m] c have "total_in dir (fold apply_metered (r # rs) s) k
        = min (total_in dir ?s k + (odometer k ?s g1 rs - g1)) (2 ^ 64 - 1)"
      by (simp add: r)
    with tot assms(1) [OF P] odometer_mono [OF m] g False show ?thesis
      by (auto simp: r p c Let_def min_def)
  qed
qed


section \<open>Writing and reading back\<close>

lemma concat_chunks: "0 < n \<Longrightarrow> concat (chunks n xs) = xs"
  by (induction n xs rule: chunks.induct) (subst chunks.simps, simp)

lemma chunks_length: "c \<in> set (chunks n xs) \<Longrightarrow> length c \<le> n"
proof (induction n xs rule: chunks.induct)
  case (1 n xs)
  then show ?case by (subst (asm) (2) chunks.simps) (auto split: if_splits)
qed

lemma max_rows_pos [simp]: "0 < max_rows_per_statement backend n"
  by (simp add: max_rows_per_statement_def)

lemma chunk_fits:
  assumes "c \<in> set (chunks (max_rows_per_statement backend n) xs)" and "0 < n" and "n \<le> 999"
  shows "length c * (n - 1) \<le> max_variables backend"
proof -
  have le: "n \<le> max_variables backend"
    using assms(3) by (simp add: max_variables_def SQLITE_MAX_VARIABLES_def POSTGRES_MAX_VARIABLES_def)
  then have "0 < max_variables backend div n" using assms(2) by (simp add: div_greater_zero_iff)
  with assms(2) have "max_rows_per_statement backend n = max_variables backend div n"
    by (simp add: max_rows_per_statement_def max_absorb1 Suc_leI)
  with chunks_length [OF assms(1)] have "length c * n \<le> max_variables backend div n * n"
    by (simp add: mult_le_mono1)
  also have "\<dots> \<le> max_variables backend" by (rule div_times_less_eq_dividend)
  finally show ?thesis by (meson diff_le_self le_trans mult_le_mono2)
qed

lemma insert_chunks_Inr:
  "insert_chunks backend fault n ins m cs db = Inr db' \<Longrightarrow> db' = fold ins cs db"
  by (induction cs arbitrary: m db) (auto simp: rbind_eq_Inr)

lemma insert_chunks_ok:
  "\<forall>c\<in>set cs. length c * (n - 1) \<le> max_variables backend \<Longrightarrow> (\<And>m. fault m = None) \<Longrightarrow>
   insert_chunks backend fault n ins m cs db = Inr (fold ins cs db)"
  by (induction cs arbitrary: m db) (auto simp: exec_insert_def not_less)

lemma fold_fold_concat: "fold (fold f) cs a = fold f (concat cs) a"
  by (induction cs arbitrary: a) simp_all

lemma fold_append_concat: "fold (\<lambda>c ls. ls @ c) cs a = a @ concat cs"
  by (induction cs arbitrary: a) simp_all

lemma write_to_db_cases:
  obtains e where "write_to_db backend flt ts ls db = (Inl e, db)"
  | "write_to_db backend flt ts ls db
       = (Inr (), db\<lparr> total_rows := fold upsert_total ts (total_rows db), loss_rows := loss_rows db @ ls \<rparr>)"
proof (cases "write_to_db backend flt ts ls db")
  case (Pair r db')
  show ?thesis
  proof (cases r)
    case (Inl e)
    with Pair have "write_to_db backend flt ts ls db = (Inl e, db)"
      by (auto simp: write_to_db_def split: sum.splits prod.splits)
    then show ?thesis by (rule that(1))
  next
    case (Inr u)
    with Pair have "write_to_db backend flt ts ls db
       = (Inr (), db\<lparr> total_rows := fold upsert_total ts (total_rows db), loss_rows := loss_rows db @ ls \<rparr>)"
      by (auto simp: write_to_db_def rbind_eq_Inr fold_fold_concat fold_append_concat concat_chunks
          dest!: insert_chunks_Inr split: sum.splits prod.splits)
    then show ?thesis by (rule that(2))
  qed
qed

definition total_row :: "current_total_row list \<Rightarrow> if_key \<Rightarrow> current_total_row option" where
  "total_row rows k = tbl_find (\<lambda>r. row_key r = k) rows"

definition rows_unique :: "current_total_row list \<Rightarrow> bool" where
  "rows_unique rows \<longleftrightarrow> unique_on (\<lambda>r. Some (row_key r)) rows"

lemma row_key_created [simp]: "row_key (m\<lparr> row_created_at := t \<rparr>) = row_key m"
  by (simp add: row_key_def)

lemma total_row_Cons: "total_row (m # ms) k = (if row_key m = k then Some m else total_row ms k)"
  by (simp add: total_row_def)

lemma total_row_append: "total_row (rows @ [m]) k
    = (case total_row rows k of None \<Rightarrow> if row_key m = k then Some m else None | Some r \<Rightarrow> Some r)"
  by (simp add: total_row_def tbl_find_append split: option.split)

lemma total_row_update:
  assumes "\<And>r. row_key (f r) = row_key m"
  shows "total_row (tbl_update (\<lambda>r. row_key r = row_key m) f rows) k
    = (if k = row_key m then map_option f (total_row rows k) else total_row rows k)"
  using assms by (induction rows) (auto simp: total_row_def tbl_update_def)

lemma total_row_upsert:
  "total_row (upsert_total m rows) k =
     (if k = row_key m
      then Some (case total_row rows k of None \<Rightarrow> m | Some r \<Rightarrow> m\<lparr> row_created_at := row_created_at r \<rparr>)
      else total_row rows k)"
proof (cases "total_row rows (row_key m)")
  case None
  then show ?thesis
    by (auto simp: upsert_total_def total_row_append total_row_def [symmetric] split: option.split)
next
  case (Some r)
  then show ?thesis
    by (auto simp: upsert_total_def total_row_update total_row_def [symmetric] split: option.split)
qed

lemma rows_unique_upsert:
  assumes "rows_unique rows"
  shows "rows_unique (upsert_total m rows)"
proof (cases "tbl_find (\<lambda>r. row_key r = row_key m) rows")
  case None
  with assms show ?thesis by (auto simp: rows_unique_def upsert_total_def unique_on_snoc tbl_find_None)
next
  case (Some r)
  with assms show ?thesis
    unfolding rows_unique_def upsert_total_def by simp (subst unique_on_update; simp)
qed

lemma rows_unique_fold: "rows_unique rows \<Longrightarrow> rows_unique (fold upsert_total ms rows)"
  by (induction ms arbitrary: rows) (simp_all add: rows_unique_upsert)

text \<open>
  An upsert leaves \<^verbatim>\<open>created_at\<close> as it is in the table; where the written models
  agree with it, the table holds exactly the models.
\<close>

definition same_creation :: "current_total_row list \<Rightarrow> current_total_row list \<Rightarrow> bool" where
  "same_creation ms rows \<longleftrightarrow>
     (\<forall>m\<in>set ms. \<forall>r. total_row rows (row_key m) = Some r \<longrightarrow> row_created_at r = row_created_at m)"

lemma total_row_fold:
  assumes "distinct (map row_key ms)" and "same_creation ms rows"
  shows "total_row (fold upsert_total ms rows) k
     = (case total_row ms k of None \<Rightarrow> total_row rows k | Some m \<Rightarrow> Some m)"
  using assms
proof (induction ms arbitrary: rows)
  case (Cons m ms)
  have up: "total_row (upsert_total m rows) k' = (if k' = row_key m then Some m else total_row rows k')" for k'
    using Cons.prems(2) by (auto simp: total_row_upsert same_creation_def split: option.split)
  have "same_creation ms (upsert_total m rows)"
    using Cons.prems by (auto simp: same_creation_def up image_iff)
  from Cons.IH [OF _ this] Cons.prems(1)
  have "total_row (fold upsert_total (m # ms) rows) k
     = (case total_row ms k of None \<Rightarrow> total_row (upsert_total m rows) k | Some m \<Rightarrow> Some m)" by simp
  moreover have "total_row ms k = None" if "k = row_key m"
    using Cons.prems(1) that by (auto simp: total_row_def tbl_find_None image_iff)
  ultimately show ?case by (auto simp: up total_row_Cons split: option.split)
qed (simp add: total_row_def)

definition reading_of_row :: "current_total_row \<Rightarrow> network_interface_reading" where
  "reading_of_row row = \<lparr> boot_id = row_boot_id row, ifindex = row_ifindex row,
     counter_received = row_counter_received row, counter_transmitted = row_counter_transmitted row,
     report_time = row_report_time row, created_at = row_created_at row, updated_at = row_updated_at row \<rparr>"

definition traffic_of_row :: "current_total_row \<Rightarrow> traffic" where
  "traffic_of_row row = \<lparr> received = row_total_received row, transmitted = row_total_transmitted row \<rparr>"

lemma load_row_simps [simp]:
  "prev_readings (load_row r s) = hm_insert (row_key r) (reading_of_row r) (prev_readings s)"
  "totals (load_row r s) = hm_insert (row_key r) (traffic_of_row r) (totals s)"
  "pending_possible_data_losses (load_row r s) = pending_possible_data_losses s"
  by (simp_all add: load_row_def reading_of_row_def traffic_of_row_def)

lemma load_state_queries:
  assumes "rows_unique rows"
  shows "hm_get (prev_readings (load_state rows)) k = map_option reading_of_row (total_row rows k)
    \<and> hm_get (totals (load_state rows)) k = map_option traffic_of_row (total_row rows k)
    \<and> hm_wf (prev_readings (load_state rows)) \<and> pending_possible_data_losses (load_state rows) = []"
  using assms
proof (induction rows rule: rev_induct)
  case Nil
  then show ?case by (simp add: load_state_def state_default_def total_row_def)
next
  case (snoc r rows)
  then have u: "rows_unique rows" and none: "total_row rows (row_key r) = None"
    by (auto simp: rows_unique_def unique_on_snoc total_row_def tbl_find_None)
  have "load_state (rows @ [r]) = load_row r (load_state rows)" by (simp add: load_state_def)
  with snoc.IH [OF u] none show ?case
    by (auto simp: total_row_append split: option.split)
qed

lemma row_key_model [simp]: "row_key (current_total_model u n rd tot) = (u, n)"
  by (simp add: row_key_def current_total_model_def)

lemma row_of_model [simp]:
  "reading_of_row (current_total_model u n rd tot) = rd"
  "traffic_of_row (current_total_model u n rd tot) = tot"
  "row_created_at (current_total_model u n rd tot) = created_at rd"
  by (simp_all add: current_total_model_def reading_of_row_def traffic_of_row_def)

lemma row_keys_flush_models: "map row_key (flush_models s) = map fst (prev_readings s)"
  by (simp add: flush_models_def split_beta)

lemma total_row_flush_models:
  "total_row (flush_models s) k
     = map_option (\<lambda>rd. current_total_model (fst k) (snd k) rd (total_of s k)) (hm_get (prev_readings s) k)"
proof -
  have "tbl_find (\<lambda>r. row_key r = k) (map (\<lambda>(k, r). current_total_model (fst k) (snd k) r (total_of s k)) kvs)
     = map_option (\<lambda>rd. current_total_model (fst k) (snd k) rd (total_of s k)) (map_of kvs k)" for kvs
    by (induction kvs) auto
  then show ?thesis by (simp add: total_row_def flush_models_def hm_get_def)
qed


section \<open>The invariant of the flush loop\<close>

definition known_creation :: "traffic_state \<Rightarrow> current_total_row \<Rightarrow> bool" where
  "known_creation s m \<longleftrightarrow>
     (\<exists>rd. hm_get (prev_readings s) (row_key m) = Some rd \<and> created_at rd = row_created_at m)"

definition synced :: "traffic_state \<Rightarrow> current_total_row list \<Rightarrow> bool" where
  "synced s rows \<longleftrightarrow> hm_wf (prev_readings s) \<and> rows_unique rows
     \<and> (\<forall>k. hm_get (totals s) k = None \<longleftrightarrow> hm_get (prev_readings s) k = None)
     \<and> (\<forall>r\<in>set rows. known_creation s r)"

definition traffic_inv :: "traffic_world \<Rightarrow> bool" where
  "traffic_inv w \<longleftrightarrow> rows_unique (total_rows (tw_db w))
     \<and> (tw_notified w \<longrightarrow> \<not> tw_published w)
     \<and> (case tw_stats w of
          None \<Rightarrow> tw_job w = None \<and> \<not> tw_published w
        | Some s \<Rightarrow> synced s (total_rows (tw_db w))
            \<and> (case tw_job w of
                 None \<Rightarrow> True
               | Some job \<Rightarrow> distinct (map row_key (snd job)) \<and> (\<forall>m\<in>set (snd job). known_creation s m)
                   \<and> (tw_last w \<longrightarrow> \<not> tw_published w \<and> pending_possible_data_losses s = [])))"

lemma total_row_mem: "total_row rows k = Some r \<Longrightarrow> r \<in> set rows \<and> row_key r = k"
  unfolding total_row_def by (drule tbl_find_Some) simp

lemma set_upsert: "set (upsert_total m rows) \<subseteq> {m} \<union> set rows \<union> {m\<lparr> row_created_at := row_created_at r \<rparr> | r. r \<in> set rows \<and> row_key r = row_key m}"
  by (auto simp: upsert_total_def)

lemma known_creation_upsert:
  assumes "known_creation s m" and "\<forall>r\<in>set rows. known_creation s r"
  shows "\<forall>r\<in>set (upsert_total m rows). known_creation s r"
proof
  fix r assume "r \<in> set (upsert_total m rows)"
  with set_upsert [of m rows] consider "r = m" | "r \<in> set rows"
    | r' where "r = m\<lparr> row_created_at := row_created_at r' \<rparr>" "r' \<in> set rows" "row_key r' = row_key m"
    by blast
  then show "known_creation s r"
  proof cases
    case 3
    with assms show ?thesis by (auto simp: known_creation_def)
  qed (use assms in auto)
qed

lemma known_creation_fold:
  "\<forall>m\<in>set ms. known_creation s m \<Longrightarrow> \<forall>r\<in>set rows. known_creation s r \<Longrightarrow>
   \<forall>r\<in>set (fold upsert_total ms rows). known_creation s r"
proof (induction ms arbitrary: rows)
  case (Cons m ms)
  from Cons.prems(1) have "known_creation s m" and ms: "\<forall>m\<in>set ms. known_creation s m" by simp_all
  from Cons.IH [OF ms known_creation_upsert [OF this(1) Cons.prems(2)]] show ?case by simp
qed simp

lemma synced_write:
  "synced s rows \<Longrightarrow> \<forall>m\<in>set ms. known_creation s m \<Longrightarrow> synced s (fold upsert_total ms rows)"
  unfolding synced_def using rows_unique_fold known_creation_fold by blast

lemma synced_creation:
  "synced s rows \<Longrightarrow> \<forall>m\<in>set ms. known_creation s m \<Longrightarrow> same_creation ms rows"
  unfolding same_creation_def synced_def known_creation_def
  by (metis option.inject total_row_mem)

lemma known_creation_flush: "hm_wf (prev_readings s) \<Longrightarrow> \<forall>m\<in>set (flush_models s). known_creation s m"
  by (auto simp: flush_models_def known_creation_def hm_get_iff_mem)

lemma synced_load: "rows_unique rows \<Longrightarrow> synced (load_state rows) rows"
  using load_state_queries [of rows]
  by (auto simp: synced_def known_creation_def rows_unique_def total_row_def reading_of_row_def
      dest: tbl_find_unique [where f = "\<lambda>r. Some (row_key r)"])

text \<open>A report keeps the keys of both maps equal and the creation time of every reading.\<close>

definition keeps_creation :: "traffic_state \<Rightarrow> traffic_state \<Rightarrow> bool" where
  "keeps_creation s s' \<longleftrightarrow> (hm_wf (prev_readings s) \<longrightarrow> hm_wf (prev_readings s'))
     \<and> ((\<forall>k. hm_get (totals s) k = None \<longleftrightarrow> hm_get (prev_readings s) k = None) \<longrightarrow>
         (\<forall>k. hm_get (totals s') k = None \<longleftrightarrow> hm_get (prev_readings s') k = None))
     \<and> (\<forall>k rd. hm_get (prev_readings s) k = Some rd \<longrightarrow>
          (\<exists>rd'. hm_get (prev_readings s') k = Some rd' \<and> created_at rd' = created_at rd))
     \<and> (\<exists>ls. pending_possible_data_losses s' = pending_possible_data_losses s @ ls)"

lemma keeps_creation_refl: "keeps_creation s s"
  by (simp add: keeps_creation_def)

lemma keeps_creation_trans: "keeps_creation s s1 \<Longrightarrow> keeps_creation s1 s2 \<Longrightarrow> keeps_creation s s2"
  unfolding keeps_creation_def by (elim conjE exE, intro conjI, blast, blast, metis, simp)

lemma keeps_creation_interface: "keeps_creation (fst sb) (fst (apply_interface u d t i sb))"
  by (cases sb) (auto simp: apply_interface_def keeps_creation_def Let_def current_reading_def split: option.split)

lemma keeps_creation_report: "keeps_creation s (apply_report u d t s)"
proof -
  have "keeps_creation (fst sb) (fst (fold (apply_interface u d t) is sb))" for "is" sb
  proof (induction "is" arbitrary: sb)
    case (Cons i "is")
    from keeps_creation_trans [OF keeps_creation_interface Cons.IH] show ?case by simp
  qed (simp add: keeps_creation_refl)
  from this [of "(s, False)"] show ?thesis by (auto simp: apply_report_def keeps_creation_refl)
qed

lemma known_creation_report: "known_creation s m \<Longrightarrow> known_creation (apply_report u d t s) m"
  using keeps_creation_report [of s u d t] unfolding known_creation_def keeps_creation_def by metis

lemma synced_report: "synced s rows \<Longrightarrow> synced (apply_report u d t s) rows"
  using keeps_creation_report [of s u d t] known_creation_report [of s]
  by (auto simp: synced_def keeps_creation_def)


lemma flush_write_cases:
  obtains e where "flush_write backend ready flt job db = (Inl e, db)"
  | "flush_write backend ready flt job db
       = (Inr (), db\<lparr> total_rows := fold upsert_total (snd job) (total_rows db),
                        loss_rows := loss_rows db @ fst job \<rparr>)"
proof (cases "fst job = [] \<and> snd job = []")
  case True
  then show ?thesis by (intro that(2)) (simp add: flush_write_def)
next
  case no: False
  show ?thesis
  proof (cases ready)
    case True
    with no show ?thesis
      by (cases rule: write_to_db_cases [of backend flt "snd job" "fst job" db])
         (auto simp: flush_write_def intro: that)
  next
    case False
    with no show ?thesis by (intro that(1)) (auto simp: flush_write_def)
  qed
qed

text \<open>The outcome of a write: nothing changed and the periods are back in memory, or all is stored.\<close>

lemma loop_write_cases:
  assumes "loop_write backend flt job s w = (r, s', w')"
  obtains (failed) e where "r = Inl e"
      "s' = s\<lparr> pending_possible_data_losses := fst job @ pending_possible_data_losses s \<rparr>"
      "w' = w\<lparr> tw_job := None, tw_stats := (if tw_last w then None else Some s') \<rparr>"
  | (stored) "r = Inr ()" "s' = s"
      "w' = w\<lparr> tw_db := (tw_db w)\<lparr> total_rows := fold upsert_total (snd job) (total_rows (tw_db w)),
                                     loss_rows := loss_rows (tw_db w) @ fst job \<rparr>,
               tw_job := None, tw_stats := (if tw_last w then None else Some s) \<rparr>"
proof (cases rule: flush_write_cases [of backend "tw_ready w" flt job "tw_db w"])
  case (1 e)
  with assms show ?thesis by (intro failed [of e]) (auto simp: loop_write_def flush_done_def Let_def)
next
  case 2
  with assms show ?thesis by (intro stored) (auto simp: loop_write_def flush_done_def Let_def)
qed

lemma synced_pending [simp]:
  "synced (s\<lparr> pending_possible_data_losses := ls \<rparr>) rows = synced s rows"
  "known_creation (s\<lparr> pending_possible_data_losses := ls \<rparr>) m = known_creation s m"
  by (simp_all add: synced_def known_creation_def)

lemma loop_write_inv:
  assumes inv: "traffic_inv w" and s: "tw_stats w = Some s" and job: "tw_job w = Some job"
    and "loop_write backend flt job s w = (r, s', w')"
  shows "traffic_inv w'"
  using assms(4)
proof (cases rule: loop_write_cases)
  case (failed e)
  from inv s job show ?thesis unfolding failed(3) failed(2) by (auto simp: traffic_inv_def synced_def)
next
  case stored
  from inv s job have "synced s (fold upsert_total (snd job) (total_rows (tw_db w)))"
    by (auto simp: traffic_inv_def intro: synced_write)
  with inv s job show ?thesis unfolding stored(3) by (auto simp: traffic_inv_def synced_def)
qed

lemma loop_take_inv:
  assumes inv: "traffic_inv w" and s: "tw_stats w = Some s" and "tw_job w = None"
    and "final \<Longrightarrow> tw_notified w"
  shows "traffic_inv (loop_take final s w)"
proof -
  from inv s have sy: "synced s (total_rows (tw_db w))" by (simp add: traffic_inv_def)
  then have wf: "hm_wf (prev_readings s)" by (simp add: synced_def)
  have "distinct (map row_key (flush_models s))"
    using wf by (simp add: row_keys_flush_models hm_wf_def)
  with inv s sy assms(4) known_creation_flush [OF wf] show ?thesis
    by (auto simp: traffic_inv_def loop_take_def flush_take_def)
qed

lemma traffic_step_inv: "traffic_step backend w l w' \<Longrightarrow> traffic_inv w \<Longrightarrow> traffic_inv w'"
proof (induction rule: traffic_step.induct)
  case (StepInit w display flt)
  then show ?case by (auto simp: init_stats_def traffic_inv_def synced_load split: option.split)
next
  case (StepReport w s u d t)
  then show ?case
    by (auto simp: update_total_traffic_def traffic_inv_def synced_report known_creation_report
        split: option.splits)
next
  case (StepIgnored w u d t)
  then show ?case by (simp add: update_total_traffic_def split: option.split)
next
  case (StepShutdown w)
  then show ?case by (auto simp: flush_and_shutdown_def traffic_inv_def split: option.splits)
qed (auto intro: loop_take_inv loop_write_inv)







lemma traffic_start_inv: "traffic_start w \<Longrightarrow> traffic_inv w"
  by (simp add: traffic_start_def traffic_inv_def rows_unique_def)

lemma traffic_run_inv: "traffic_run backend w ls w' \<Longrightarrow> traffic_inv w \<Longrightarrow> traffic_inv w'"
  by (induction rule: traffic_run.induct) (auto intro: traffic_step_inv)



lemma restart_queries:
  assumes inv: "traffic_inv w" and s: "tw_stats w = Some s"
    and db: "total_rows db' = fold upsert_total (flush_models s) (total_rows (tw_db w))"
  shows "hm_get (prev_readings (load_state (total_rows db'))) k = hm_get (prev_readings s) k
     \<and> hm_get (totals (load_state (total_rows db'))) k = hm_get (totals s) k"
proof -
  let ?rows = "total_rows (tw_db w)"
  from inv s have sy: "synced s ?rows" by (simp add: traffic_inv_def)
  then have wf: "hm_wf (prev_readings s)" and u: "rows_unique ?rows"
    and dom: "hm_get (totals s) k = None \<longleftrightarrow> hm_get (prev_readings s) k = None"
    and known: "\<forall>r\<in>set ?rows. known_creation s r" unfolding synced_def by blast+
  have "distinct (map row_key (flush_models s))"
    using wf by (simp add: row_keys_flush_models hm_wf_def)
  from total_row_fold [OF this synced_creation [OF sy known_creation_flush [OF wf]]]
  have tr: "total_row (total_rows db') k =
     (case total_row (flush_models s) k of None \<Rightarrow> total_row ?rows k | Some m \<Rightarrow> Some m)" by (simp add: db)
  have none: "total_row ?rows k = None" if "hm_get (prev_readings s) k = None"
    using known that by (cases "total_row ?rows k") (auto simp: known_creation_def dest!: total_row_mem)
  have "rows_unique (total_rows db')" by (simp add: db rows_unique_fold u)
  from load_state_queries [OF this, of k] dom none show ?thesis
    by (cases "hm_get (prev_readings s) k") (auto simp: tr total_row_flush_models total_of_def)
qed


section \<open>Properties\<close>

definition demo_interface :: "u64 \<Rightarrow> u64 \<Rightarrow> interface_data" where
  "demo_interface rx tx = \<lparr> if_name = ''eth0'', if_total_received = rx, if_total_transmitted = tx,
     if_receive_speed = 0, if_transmit_speed = 0, if_ifindex = Some 2, if_is_outlet = Some True \<rparr>"

definition demo_report :: "string \<Rightarrow> u64 \<Rightarrow> u64 \<Rightarrow> u64 \<Rightarrow> report_data" where
  "demo_report boot time rx tx = \<lparr> rp_time = time,
     rp_system = \<lparr> sys_boot_time = 0, sys_uptime = 10, sys_process_count = 1, sys_boot_id = Some boot \<rparr>,
     rp_interfaces = [demo_interface rx tx] \<rparr>"

definition demo_state :: traffic_state where
  "demo_state = apply_report 7 (demo_report ''a'' 1000 500 40) 1000000 state_default"

lemmas demo_simps = demo_report_def demo_interface_def outlets_def apply_report_def apply_interface_def
  state_default_def current_reading_def reset_of_def total_of_def Let_def continues_def restarted_def
  hm_insert_def hm_get_def is_full_reset_def is_boot_id_changed_def is_ifindex_changed_def

text \<open>
  (C15) Traffic is never counted above what was transferred.  Whatever the reports of a
  device and whenever its counters restart in between (a reboot, a replaced interface, a
  counter that went back), the total of an interface grows by no more than the interface
  transferred between the first and the last reading the server accepted.
\<close>

theorem traffic_never_overcounts:
  assumes "metered (\<lambda>p c a. continues dir p c a \<or> restarted dir c a) k s g rs"
  shows "total_in dir (fold apply_metered rs s) k \<le> total_in dir s k + (odometer k s g rs - g)"
  using assms by (intro metered_total_le) (auto simp: increase_def intro: increase_at_most)

theorem traffic_never_overcounts_witness:
  "total_in Rx (fold apply_metered [(7, demo_report ''a'' 2000 900 60, 1001000, 900),
        (7, demo_report ''b'' 3000 30 5, 1900000, 990)] demo_state) (7, ''eth0'')
     \<le> total_in Rx demo_state (7, ''eth0'')
       + (odometer (7, ''eth0'') demo_state 500 [(7, demo_report ''a'' 2000 900 60, 1001000, 900),
            (7, demo_report ''b'' 3000 30 5, 1900000, 990)] - 500)"
  by (rule traffic_never_overcounts)
     (simp add: demo_state_def demo_simps)

text \<open>
  (C16) Traffic is counted exactly while no counter restarts: the total of an interface the
  server has seen before grows by precisely what the interface transferred, up to the
  largest 64-bit number, where it stays.
\<close>

theorem traffic_exact_without_restart:
  assumes "metered (continues dir) k s g rs" and "hm_get (prev_readings s) k \<noteq> None"
  shows "total_in dir (fold apply_metered rs s) k
     = min (total_in dir s k + (odometer k s g rs - g)) (2 ^ 64 - 1)"
  using assms by (intro metered_total_eq) (auto simp: increase_def intro: increase_continues)

theorem traffic_exact_without_restart_witness:
  "total_in Tx (fold apply_metered [(7, demo_report ''a'' 2000 900 60, 1001000, 60)] demo_state) (7, ''eth0'')
     = min (total_in Tx demo_state (7, ''eth0'')
       + (odometer (7, ''eth0'') demo_state 40 [(7, demo_report ''a'' 2000 900 60, 1001000, 60)] - 40)) (2 ^ 64 - 1)"
  by (rule traffic_exact_without_restart)
     (simp_all add: demo_state_def demo_simps)

text \<open>
  (C17) The statistics survive a restart.  Take any history of reports, ticks, writes and
  restarts; when the final write of a shutdown succeeds and the server starts again, every
  interface has the total and the last reading it had in memory at the shutdown, so the next
  report is charged as if the server had never stopped.
\<close>

theorem traffic_survives_restart:
  assumes "traffic_start w0" and "traffic_run backend w0 ls w"
    and "tw_stats w = Some s" and "tw_job w = None"
    and "loop_write backend flt (fst (flush_take s)) (snd (flush_take s)) (loop_take True s w) = (Inr (), s1, w1)"
    and "init_stats display flt' w1 = (Inr (), w2)"
  shows "\<exists>s2. tw_stats w2 = Some s2 \<and> pending_possible_data_losses s2 = []
    \<and> (\<forall>k. hm_get (totals s2) k = hm_get (totals s) k \<and> hm_get (prev_readings s2) k = hm_get (prev_readings s) k)"
proof -
  have inv: "traffic_inv w" by (rule traffic_run_inv [OF assms(2) traffic_start_inv [OF assms(1)]])
  from assms(5) have db: "total_rows (tw_db w1) = fold upsert_total (flush_models s) (total_rows (tw_db w))"
    by (cases rule: loop_write_cases) (simp_all add: loop_take_def flush_take_def)
  from assms(6) have s2: "tw_stats w2 = Some (load_state (total_rows (tw_db w1)))"
    by (auto simp: init_stats_def split: if_splits option.splits)
  from inv assms(3) have "rows_unique (total_rows (tw_db w1))"
    by (simp add: db traffic_inv_def rows_unique_fold)
  with s2 restart_queries [OF inv assms(3) db] load_state_queries show ?thesis by blast
qed


text \<open>
  (C19) A flush of any size fits the statements of the backend: with no failure of the
  database itself, writing any number of totals and periods succeeds on every backend,
  because no statement binds more parameters than the backend accepts.
\<close>

theorem traffic_write_fits:
  assumes "\<And>site. flt site = None"
  shows "write_to_db backend flt ts ls db
     = (Inr (), db\<lparr> total_rows := fold upsert_total ts (total_rows db), loss_rows := loss_rows db @ ls \<rparr>)"
proof -
  have flt: "flt = (\<lambda>_. None)" using assms by auto
  have t: "insert_chunks backend (\<lambda>n. None) TOTAL_COLUMNS (fold upsert_total) 0
      (chunks (max_rows_per_statement backend TOTAL_COLUMNS) ts) (total_rows db)
      = Inr (fold upsert_total ts (total_rows db))"
    using chunk_fits [of _ backend TOTAL_COLUMNS ts]
    by (subst insert_chunks_ok) (auto simp: fold_fold_concat concat_chunks TOTAL_COLUMNS_def)
  have l: "insert_chunks backend (\<lambda>n. None) LOSS_COLUMNS (\<lambda>c ls. ls @ c) 0
      (chunks (max_rows_per_statement backend LOSS_COLUMNS) ls) (loss_rows db) = Inr (loss_rows db @ ls)"
    using chunk_fits [of _ backend LOSS_COLUMNS ls]
    by (subst insert_chunks_ok) (auto simp: fold_append_concat concat_chunks LOSS_COLUMNS_def)
  show ?thesis by (simp add: flt write_to_db_def query_ok_def t l)
qed

theorem traffic_write_fits_witness:
  "write_to_db Sqlite (\<lambda>_. None) (flush_models demo_state) [] \<lparr> total_rows = [], loss_rows = [] \<rparr>
     = (Inr (), \<lparr> total_rows = fold upsert_total (flush_models demo_state) [], loss_rows = [] @ [] \<rparr>)"
  using traffic_write_fits [of "\<lambda>_. None" Sqlite "flush_models demo_state" "[]"
      "\<lparr> total_rows = [], loss_rows = [] \<rparr>"] by simp

definition demo_start :: traffic_world where
  "demo_start = \<lparr> tw_db = \<lparr> total_rows = [], loss_rows = [] \<rparr>, tw_ready = True, tw_stats = None,
     tw_published = False, tw_notified = False, tw_job = None, tw_last = False \<rparr>"

definition demo_running :: traffic_world where
  "demo_running = update_total_traffic 7 (demo_report ''a'' 1000 500 40) 1000000
     (snd (init_stats (\<lambda>_. []) (\<lambda>_. None) demo_start))"

lemma demo_running_facts:
  "traffic_start demo_start"
  "tw_stats demo_running = Some demo_state" "tw_job demo_running = None" "tw_ready demo_running"
  "tw_db demo_running = \<lparr> total_rows = [], loss_rows = [] \<rparr>"
  by (simp_all add: demo_start_def traffic_start_def demo_running_def init_stats_def
      update_total_traffic_def demo_state_def load_state_def)

lemma demo_initialised:
  "tw_stats (snd (init_stats (\<lambda>_. []) (\<lambda>_. None) demo_start)) = Some state_default"
  "tw_published (snd (init_stats (\<lambda>_. []) (\<lambda>_. None) demo_start))"
  by (simp_all add: demo_start_def init_stats_def load_state_def)

lemma demo_run: "traffic_run Sqlite demo_start [Silent, Recorded []] demo_running"
proof -
  have "traffic_run Sqlite demo_start ([] @ [Silent]) (snd (init_stats (\<lambda>_. []) (\<lambda>_. None) demo_start))"
    by (rule RunSnoc [OF RunNil StepInit]) (simp add: demo_start_def)
  moreover have "drop (length (pending_possible_data_losses state_default))
      (pending_possible_data_losses (apply_report 7 (demo_report ''a'' 1000 500 40) 1000000 state_default)) = []"
    by (simp add: demo_simps RESET_NONE_def loss_of_def reset_any_def)
  ultimately show ?thesis
    using RunSnoc [OF _ StepReport [OF demo_initialised, of Sqlite 7 "demo_report ''a'' 1000 500 40" 1000000]]
    by (fastforce simp: demo_running_def)
qed


definition demo_stopped :: traffic_world where
  "demo_stopped = (loop_take True demo_state demo_running)
     \<lparr> tw_db := \<lparr> total_rows = flush_models demo_state, loss_rows = [] \<rparr>, tw_job := None, tw_stats := None \<rparr>"

lemma demo_loop_write:
  "loop_write Sqlite (\<lambda>_. None) (fst (flush_take demo_state)) (snd (flush_take demo_state))
     (loop_take True demo_state demo_running) = (Inr (), snd (flush_take demo_state), demo_stopped)"
proof -
  have pend: "pending_possible_data_losses demo_state = []"
    by (simp add: demo_state_def demo_simps RESET_NONE_def loss_of_def reset_any_def)
  have models: "fold upsert_total (flush_models demo_state) [] = flush_models demo_state"
    "flush_models demo_state \<noteq> []"
    by (simp_all add: flush_models_def demo_state_def demo_simps upsert_total_def)
  have "write_to_db Sqlite (\<lambda>_. None) (flush_models demo_state) [] \<lparr> total_rows = [], loss_rows = [] \<rparr>
     = (Inr (), \<lparr> total_rows = flush_models demo_state, loss_rows = [] \<rparr>)"
    by (cases rule: write_to_db_cases [of Sqlite "\<lambda>_. None" "flush_models demo_state" "[]"
          "\<lparr> total_rows = [], loss_rows = [] \<rparr>"])
       (simp_all add: models write_to_db_def query_ok_def exec_insert_def flush_models_def demo_state_def demo_simps
          chunks.simps max_rows_per_statement_def max_variables_def SQLITE_MAX_VARIABLES_def TOTAL_COLUMNS_def
          LOSS_COLUMNS_def upsert_total_def)
  then show ?thesis
    by (simp add: loop_write_def flush_write_def flush_take_def flush_done_def loop_take_def demo_stopped_def
        demo_running_facts pend models)
qed

theorem traffic_survives_restart_witness:
  "\<exists>s2. tw_stats (snd (init_stats (\<lambda>_. []) (\<lambda>_. None) demo_stopped)) = Some s2
     \<and> pending_possible_data_losses s2 = []
     \<and> (\<forall>k. hm_get (totals s2) k = hm_get (totals demo_state) k
            \<and> hm_get (prev_readings s2) k = hm_get (prev_readings demo_state) k)"
  by (rule traffic_survives_restart [OF demo_running_facts(1) demo_run demo_running_facts(2,3) demo_loop_write,
        of "\<lambda>_. []" "\<lambda>_. None"])
     (simp add: init_stats_def demo_stopped_def loop_take_def demo_running_facts)
end
