(* ===== verification/Uuid_Cache.thy ===== *)
theory Uuid_Cache
  imports Infra "HOL-Library.Word"
begin

text \<open>
  \<^verbatim>\<open>ng-monitoring/src/monitoring_uuid_cache.rs\<close>: the two-way mapping between the
  UUID of an agent and the short number the monitoring tables use for it, kept in
  memory over the table \<^verbatim>\<open>monitoring_uuid\<close>.

  An operation gives up the processor at every query, and it holds the lock of
  the cache only while it reads or writes the maps, so it is a sequence of atomic
  steps.  \<open>uuid_pc\<close> is the point an operation has reached; \<open>uuid_next\<close>
  performs its next step.  Running one operation alone to its end is
  \<open>run_alone\<close>; several operations interleave in \<open>uuid_system\<close>.
\<close>


section \<open>State\<close>

type_synonym i32 = "32 word"
type_synonym uuid_id = "16 word"

record uuid_row =
  u_id :: i32
  u_uuid :: uuid
  u_soft_delete :: bool

record uuid_cache =
  by_uuid :: "(uuid, uuid_id \<times> bool) hash_map"
  by_id :: "(uuid_id, uuid \<times> bool) hash_map"

record uuid_world =
  uw_ready :: bool
  uw_rows :: "uuid_row list"
  uw_cache :: "uuid_cache option"

datatype uuid_site = LoadUuids | FindUuid | InsertUuid | RequeryUuid | ResurrectUuid | SoftDeleteUuid

record uuid_env =
  ue_fault :: "uuid_site \<Rightarrow> db_err option"
  ue_display :: "db_err \<Rightarrow> string"
  ue_show_uuid :: "uuid \<Rightarrow> string"
  ue_show_i32 :: "i32 \<Rightarrow> string"
  ue_new_id :: i32


section \<open>The maps\<close>

text \<open>\<^verbatim>\<open>i16::try_from\<close>: a number of the table that does not fit is refused, not wrapped.\<close>

definition try_id_i16 :: "i32 \<Rightarrow> uuid_id option" where
  "try_id_i16 n = (if - (2 ^ 15) \<le> sint n \<and> sint n < 2 ^ 15 then Some (word_of_int (sint n)) else None)"

definition cache_entry :: "uuid \<Rightarrow> uuid_id \<Rightarrow> bool \<Rightarrow> uuid_cache \<Rightarrow> uuid_cache" where
  "cache_entry u i sd c = c\<lparr> by_uuid := hm_insert u (i, sd) (by_uuid c), by_id := hm_insert i (u, sd) (by_id c) \<rparr>"

definition add_model :: "uuid_row \<Rightarrow> uuid_cache \<Rightarrow> uuid_cache" where
  "add_model m c =
     (case try_id_i16 (u_id m) of None \<Rightarrow> c | Some i \<Rightarrow> cache_entry (u_uuid m) i (u_soft_delete m) c)"

definition uuid_maps :: "uuid_row list \<Rightarrow> uuid_cache" where
  "uuid_maps models = fold add_model models \<lparr> by_uuid = [], by_id = [] \<rparr>"

definition uuid_build_cache :: "uuid_row list \<Rightarrow> uuid_world \<Rightarrow> uuid_cache \<times> uuid_world" where
  "uuid_build_cache models w = (uuid_maps models, w)"

definition uuid_reload_from_models :: "uuid_row list \<Rightarrow> uuid_world \<Rightarrow> uuid_world" where
  "uuid_reload_from_models models w = w\<lparr> uw_cache := map_option (\<lambda>_. uuid_maps models) (uw_cache w) \<rparr>"

definition uuid_load_all :: "uuid_env \<Rightarrow> uuid_world \<Rightarrow> uuid_row list any_result" where
  "uuid_load_all D w = load_from_db (uw_ready w) (map_option (ue_display D) (ue_fault D LoadUuids)) (uw_rows w)"

definition uuid_is_set :: "uuid_world \<Rightarrow> bool" where
  "uuid_is_set w = (uw_cache w \<noteq> None)"

definition uuid_put :: "uuid_cache \<Rightarrow> uuid_world \<Rightarrow> uuid_world" where
  "uuid_put c w = w\<lparr> uw_cache := Some c \<rparr>"

definition uuid_cache_init :: "uuid_env \<Rightarrow> uuid_world \<Rightarrow> unit any_result \<times> uuid_world" where
  "uuid_cache_init D = cache_init uuid_is_set (uuid_load_all D) uuid_build_cache uuid_put uuid_reload_from_models"

definition get_id :: "uuid_cache \<Rightarrow> uuid \<Rightarrow> uuid_id option" where
  "get_id c u = map_option fst (hm_get (by_uuid c) u)"

definition get_uuid :: "uuid_cache \<Rightarrow> uuid_id \<Rightarrow> uuid option" where
  "get_uuid c i = map_option fst (hm_get (by_id c) i)"

definition is_active :: "uuid_cache \<Rightarrow> uuid \<Rightarrow> bool" where
  "is_active c u = (case hm_get (by_uuid c) u of None \<Rightarrow> False | Some (_, sd) \<Rightarrow> \<not> sd)"

definition uuid_exists :: "uuid_cache \<Rightarrow> uuid \<Rightarrow> bool" where
  "uuid_exists c u = (hm_get (by_uuid c) u \<noteq> None)"

definition list_all_uuids :: "uuid_cache \<Rightarrow> uuid list" where
  "list_all_uuids c = sort (map fst (filter (\<lambda>(_, _, sd). \<not> sd) (by_uuid c)))"

definition list_all_with_agent_mode :: "uuid_cache \<Rightarrow> (uuid \<times> bool) list" where
  "list_all_with_agent_mode c = sort_key fst (map (\<lambda>(u, _, sd). (u, sd)) (by_uuid c))"


section \<open>The steps of the operations\<close>

datatype uuid_answer = AnId uuid_id | ABool bool | AUnit

text \<open>
  \<open>G..\<close> are the points of \<^verbatim>\<open>get_or_insert\<close>, \<open>S..\<close> those of
  \<^verbatim>\<open>soft_delete\<close>, \<open>R..\<close> those of \<^verbatim>\<open>reload\<close>.
\<close>

datatype uuid_pc =
    GStart uuid | GFind uuid | GInsert uuid | GConflict uuid db_err
  | GResurrect uuid i32 uuid_id string | GPublish uuid uuid_id
  | SFind uuid | SUpdate uuid i32 uuid_id | SPublish uuid uuid_id
  | RLoad | RSwap "uuid_row list"
  | Returned "anyhow_error + uuid_answer"

definition uuid_err :: "string \<Rightarrow> uuid_pc" where
  "uuid_err msg = Returned (Inl (Nodeget (DatabaseError msg)))"

definition out_of_range :: "uuid_env \<Rightarrow> i32 \<Rightarrow> uuid \<Rightarrow> uuid_pc" where
  "out_of_range D n u =
     uuid_err (''monitoring_uuid id '' @ ue_show_i32 D n @ '' for '' @ ue_show_uuid D u
               @ '' exceeds i16 range; migrate uuid_id columns to i32 (see REVIEW H1)'')"

definition out_of_range_insert :: "uuid_env \<Rightarrow> uuid \<Rightarrow> uuid_pc" where
  "out_of_range_insert D u =
     uuid_err (''monitoring_uuid id for '' @ ue_show_uuid D u
               @ '' exceeds i16 range after insert/conflict; migrate uuid_id columns to i32 (see REVIEW H1)'')"

definition row_of_uuid :: "uuid_row list \<Rightarrow> uuid \<Rightarrow> uuid_row option" where
  "row_of_uuid rows u = tbl_find (\<lambda>r. u_uuid r = u) rows"

definition set_soft_delete :: "i32 \<Rightarrow> bool \<Rightarrow> uuid_row list \<Rightarrow> uuid_row list" where
  "set_soft_delete n b rows = tbl_update (\<lambda>r. u_id r = n) (\<lambda>r. r\<lparr> u_soft_delete := b \<rparr>) rows"

definition publish :: "uuid \<Rightarrow> uuid_id \<Rightarrow> bool \<Rightarrow> uuid_world \<Rightarrow> uuid_world" where
  "publish u i sd w = w\<lparr> uw_cache := map_option (cache_entry u i sd) (uw_cache w) \<rparr>"

text \<open>
  \<^verbatim>\<open>ActiveModel::update\<close> fails with \<^verbatim>\<open>RecordNotUpdated\<close> when the row is
  gone; a second row with the same UUID violates the unique column.
\<close>

definition update_soft :: "uuid_env \<Rightarrow> uuid_site \<Rightarrow> i32 \<Rightarrow> bool \<Rightarrow> uuid_row list \<Rightarrow> db_err + uuid_row list" where
  "update_soft D site n b rows =
     (case ue_fault D site of
        Some e \<Rightarrow> Inl e
      | None \<Rightarrow>
          if tbl_find (\<lambda>r. u_id r = n) rows = None
          then Inl (OtherDbErr ''None of the records are updated'')
          else Inr (set_soft_delete n b rows))"

definition insert_uuid :: "uuid_env \<Rightarrow> uuid \<Rightarrow> uuid_row list \<Rightarrow> db_err + uuid_row list" where
  "insert_uuid D u rows =
     (case ue_fault D InsertUuid of
        Some e \<Rightarrow> Inl e
      | None \<Rightarrow>
          if row_of_uuid rows u \<noteq> None
          then Inl (UniqueConstraintViolation ''monitoring_uuid.uuid'')
          else Inr (rows @ [\<lparr> u_id = ue_new_id D, u_uuid = u, u_soft_delete = False \<rparr>]))"

definition g_start :: "uuid \<Rightarrow> uuid_world \<Rightarrow> uuid_pc" where
  "g_start u w =
     (case uw_cache w of
        None \<Rightarrow> GFind u
      | Some c \<Rightarrow>
          (case hm_get (by_uuid c) u of
             Some (i, False) \<Rightarrow> Returned (Inr (AnId i))
           | _ \<Rightarrow> GFind u))"

definition g_existing :: "uuid_env \<Rightarrow> uuid \<Rightarrow> uuid_row \<Rightarrow> uuid_pc" where
  "g_existing D u m =
     (case try_id_i16 (u_id m) of
        None \<Rightarrow> out_of_range D (u_id m) u
      | Some i \<Rightarrow>
          if u_soft_delete m then GResurrect u (u_id m) i ''Failed to resurrect monitoring_uuid: ''
          else GPublish u i)"

definition g_find :: "uuid_env \<Rightarrow> uuid \<Rightarrow> uuid_world \<Rightarrow> uuid_pc" where
  "g_find D u w =
     (if \<not> uw_ready w then uuid_err ''Database connection not initialized''
      else
        (case ue_fault D FindUuid of
           Some e \<Rightarrow> uuid_err (''Failed to query monitoring_uuid: '' @ ue_display D e)
         | None \<Rightarrow>
             (case row_of_uuid (uw_rows w) u of None \<Rightarrow> GInsert u | Some m \<Rightarrow> g_existing D u m)))"

definition g_insert :: "uuid_env \<Rightarrow> uuid \<Rightarrow> uuid_world \<Rightarrow> uuid_pc \<times> uuid_world" where
  "g_insert D u w =
     (case insert_uuid D u (uw_rows w) of
        Inl e \<Rightarrow>
          (if is_unique_violation e then GConflict u e
           else uuid_err (''Failed to insert monitoring_uuid: '' @ ue_display D e), w)
      | Inr rows' \<Rightarrow>
          (case try_id_i16 (ue_new_id D) of
             None \<Rightarrow> out_of_range_insert D u
           | Some i \<Rightarrow> GPublish u i,
           w\<lparr> uw_rows := rows' \<rparr>))"

definition g_conflict :: "uuid_env \<Rightarrow> uuid \<Rightarrow> db_err \<Rightarrow> uuid_world \<Rightarrow> uuid_pc" where
  "g_conflict D u e w =
     (case ue_fault D RequeryUuid of
        Some qe \<Rightarrow> uuid_err (''Failed to query monitoring_uuid after unique conflict: '' @ ue_display D qe)
      | None \<Rightarrow>
          (case row_of_uuid (uw_rows w) u of
             None \<Rightarrow> uuid_err (''monitoring_uuid insert conflicted but row not found: '' @ ue_display D e)
           | Some m \<Rightarrow>
               (case try_id_i16 (u_id m) of
                  None \<Rightarrow> out_of_range_insert D u
                | Some i \<Rightarrow>
                    if u_soft_delete m
                    then GResurrect u (u_id m) i ''Failed to resurrect monitoring_uuid after conflict: ''
                    else GPublish u i)))"

definition g_resurrect ::
  "uuid_env \<Rightarrow> uuid \<Rightarrow> i32 \<Rightarrow> uuid_id \<Rightarrow> string \<Rightarrow> uuid_world \<Rightarrow> uuid_pc \<times> uuid_world" where
  "g_resurrect D u n i msg w =
     (case update_soft D ResurrectUuid n False (uw_rows w) of
        Inl e \<Rightarrow> (uuid_err (msg @ ue_display D e), w)
      | Inr rows' \<Rightarrow> (GPublish u i, w\<lparr> uw_rows := rows' \<rparr>))"

definition s_find :: "uuid_env \<Rightarrow> uuid \<Rightarrow> uuid_world \<Rightarrow> uuid_pc" where
  "s_find D u w =
     (if \<not> uw_ready w then uuid_err ''Database connection not initialized''
      else
        (case ue_fault D FindUuid of
           Some e \<Rightarrow> uuid_err (''Failed to query monitoring_uuid for soft_delete: '' @ ue_display D e)
         | None \<Rightarrow>
             (case row_of_uuid (uw_rows w) u of
                None \<Rightarrow> Returned (Inr (ABool False))
              | Some m \<Rightarrow>
                  if u_soft_delete m then Returned (Inr (ABool True))
                  else
                    (case try_id_i16 (u_id m) of
                       None \<Rightarrow> out_of_range D (u_id m) u
                     | Some i \<Rightarrow> SUpdate u (u_id m) i))))"

definition s_update :: "uuid_env \<Rightarrow> uuid \<Rightarrow> i32 \<Rightarrow> uuid_id \<Rightarrow> uuid_world \<Rightarrow> uuid_pc \<times> uuid_world" where
  "s_update D u n i w =
     (case update_soft D SoftDeleteUuid n True (uw_rows w) of
        Inl e \<Rightarrow> (uuid_err (''Failed to soft_delete monitoring_uuid: '' @ ue_display D e), w)
      | Inr rows' \<Rightarrow> (SPublish u i, w\<lparr> uw_rows := rows' \<rparr>))"

definition r_load :: "uuid_env \<Rightarrow> uuid_world \<Rightarrow> uuid_pc" where
  "r_load D w =
     (if \<not> uuid_is_set w then Returned (Inr AUnit)
      else (case uuid_load_all D w of Inl e \<Rightarrow> Returned (Inl e) | Inr models \<Rightarrow> RSwap models))"

primrec uuid_next :: "uuid_env \<Rightarrow> uuid_pc \<Rightarrow> uuid_world \<Rightarrow> uuid_pc \<times> uuid_world" where
  "uuid_next D (GStart u) w = (g_start u w, w)"
| "uuid_next D (GFind u) w = (g_find D u w, w)"
| "uuid_next D (GInsert u) w = g_insert D u w"
| "uuid_next D (GConflict u e) w = (g_conflict D u e w, w)"
| "uuid_next D (GResurrect u n i msg) w = g_resurrect D u n i msg w"
| "uuid_next D (GPublish u i) w = (Returned (Inr (AnId i)), publish u i False w)"
| "uuid_next D (SFind u) w = (s_find D u w, w)"
| "uuid_next D (SUpdate u n i) w = s_update D u n i w"
| "uuid_next D (SPublish u i) w = (Returned (Inr (ABool True)), publish u i True w)"
| "uuid_next D RLoad w = (r_load D w, w)"
| "uuid_next D (RSwap models) w = (Returned (Inr AUnit), uuid_reload_from_models models w)"
| "uuid_next D (Returned r) w = (Returned r, w)"

primrec uuid_steps :: "nat \<Rightarrow> uuid_env \<Rightarrow> uuid_pc \<Rightarrow> uuid_world \<Rightarrow> uuid_pc \<times> uuid_world" where
  "uuid_steps 0 D pc w = (pc, w)"
| "uuid_steps (Suc n) D pc w = (case uuid_next D pc w of (pc', w') \<Rightarrow> uuid_steps n D pc' w')"

text \<open>An operation ends after at most six steps.\<close>

definition run_alone :: "uuid_env \<Rightarrow> uuid_pc \<Rightarrow> uuid_world \<Rightarrow> uuid_pc \<times> uuid_world" where
  "run_alone D pc w = uuid_steps 6 D pc w"

definition get_or_insert :: "uuid_env \<Rightarrow> uuid \<Rightarrow> uuid_world \<Rightarrow> uuid_pc \<times> uuid_world" where
  "get_or_insert D u w = run_alone D (GStart u) w"

definition soft_delete :: "uuid_env \<Rightarrow> uuid \<Rightarrow> uuid_world \<Rightarrow> uuid_pc \<times> uuid_world" where
  "soft_delete D u w = run_alone D (SFind u) w"

definition uuid_reload :: "uuid_env \<Rightarrow> uuid_world \<Rightarrow> uuid_pc \<times> uuid_world" where
  "uuid_reload D w = run_alone D RLoad w"


section \<open>Several operations at once\<close>

datatype uuid_op = OpGet uuid | OpDelete uuid | OpReload

primrec start_pc :: "uuid_op \<Rightarrow> uuid_pc" where
  "start_pc (OpGet u) = GStart u"
| "start_pc (OpDelete u) = SFind u"
| "start_pc OpReload = RLoad"

type_synonym uuid_system = "uuid_world \<times> (uuid_op \<times> uuid_pc) list"

text \<open>
  A new operation starts, or one of the running ones performs its next step.  The
  queries may fail in any way; a new row gets a number no row has.
\<close>

inductive uuid_system_step :: "uuid_system \<Rightarrow> uuid_system \<Rightarrow> bool" where
  Spawn: "uuid_system_step (w, ts) (w, ts @ [(oper, start_pc oper)])"
| Next: "uuid_system_step (w, ts) (w', ts[k := (oper, pc')])"
    if "k < length ts" and "ts ! k = (oper, pc)" and "uuid_next D pc w = (pc', w')"
      and "ue_new_id D \<notin> u_id ` set (uw_rows w)"

definition uuid_reach :: "uuid_system \<Rightarrow> uuid_system \<Rightarrow> bool" where
  "uuid_reach = uuid_system_step\<^sup>*\<^sup>*"

definition uuid_table_ok :: "uuid_row list \<Rightarrow> bool" where
  "uuid_table_ok rows \<longleftrightarrow> unique_on (\<lambda>r. Some (u_uuid r)) rows \<and> unique_on (\<lambda>r. Some (u_id r)) rows"

text \<open>The cache is the image of the table.\<close>

definition uuid_entry :: "uuid_row list \<Rightarrow> uuid \<Rightarrow> (uuid_id \<times> bool) option" where
  "uuid_entry rows u =
     (case row_of_uuid rows u of
        None \<Rightarrow> None
      | Some r \<Rightarrow> map_option (\<lambda>i. (i, u_soft_delete r)) (try_id_i16 (u_id r)))"

definition mirrored :: "uuid_cache \<Rightarrow> bool" where
  "mirrored c \<longleftrightarrow> (\<forall>u i sd. hm_get (by_uuid c) u = Some (i, sd) \<longleftrightarrow> hm_get (by_id c) i = Some (u, sd))"

definition uuid_coherent :: "uuid_row list \<Rightarrow> uuid_world \<Rightarrow> bool" where
  "uuid_coherent rows w \<longleftrightarrow>
     (case uw_cache w of
        None \<Rightarrow> False
      | Some c \<Rightarrow> hm_wf (by_uuid c) \<and> mirrored c \<and> (\<forall>u. hm_get (by_uuid c) u = uuid_entry rows u))"

end
