(* ===== verification/Uuid_Props.thy ===== *)
theory Uuid_Props
  imports Uuid_Cache
begin

text \<open>
  The properties of the UUID cache: under every interleaving of its operations a number
  stands for one agent only and both maps agree; an operation that runs alone ends, keeps
  the cache equal to the table and answers what the table says; and the one thing that an
  interleaving can break.
\<close>


section \<open>Numbers and rows\<close>

lemma try_id_inj: "try_id_i16 m = Some i \<Longrightarrow> try_id_i16 n = Some i \<Longrightarrow> m = n"
proof -
  assume "try_id_i16 m = Some i" and "try_id_i16 n = Some i"
  then have r: "- (2 ^ 15) \<le> sint m" "sint m < 2 ^ 15" "- (2 ^ 15) \<le> sint n" "sint n < 2 ^ 15"
    and eq: "(word_of_int (sint m) :: uuid_id) = word_of_int (sint n)"
    by (auto simp: try_id_i16_def split: if_splits)
  have "sint (word_of_int x :: uuid_id) = x" if "- (2 ^ 15) \<le> x" "x < 2 ^ 15" for x
    using that by (simp add: sint_sbintrunc' signed_take_bit_int_eq_self)
  with r eq have "sint m = sint n" by metis
  then show "m = n" by (rule signed_word_eqI)
qed

lemma row_of_uuid_Some: "row_of_uuid rows u = Some r \<Longrightarrow> r \<in> set rows \<and> u_uuid r = u"
  unfolding row_of_uuid_def by (drule tbl_find_Some) simp

lemma row_of_uuid_mem: "uuid_table_ok rows \<Longrightarrow> r \<in> set rows \<Longrightarrow> row_of_uuid rows (u_uuid r) = Some r"
  using tbl_find_unique [of "\<lambda>r. Some (u_uuid r)" rows r "u_uuid r"]
  by (simp add: uuid_table_ok_def row_of_uuid_def)

lemma row_id_unique:
  "uuid_table_ok rows \<Longrightarrow> r \<in> set rows \<Longrightarrow> r' \<in> set rows \<Longrightarrow> u_id r = u_id r' \<Longrightarrow> r = r'"
  by (rule unique_onD [of "\<lambda>r. Some (u_id r)" rows r r' "u_id r"]) (simp_all add: uuid_table_ok_def)

lemma table_ok_set_soft: "uuid_table_ok (set_soft_delete n b rows) = uuid_table_ok rows"
  unfolding uuid_table_ok_def set_soft_delete_def by (subst unique_on_update, simp)+ simp

lemma table_ok_insert:
  "uuid_table_ok rows \<Longrightarrow> row_of_uuid rows u = None \<Longrightarrow> n \<notin> u_id ` set rows \<Longrightarrow>
   uuid_table_ok (rows @ [\<lparr> u_id = n, u_uuid = u, u_soft_delete = b \<rparr>])"
  by (auto simp: uuid_table_ok_def unique_on_snoc row_of_uuid_def tbl_find_None)

lemma row_of_uuid_tbl_update:
  assumes "\<And>x. u_uuid (f x) = u_uuid x"
  shows "row_of_uuid (tbl_update P f rows) v = map_option (\<lambda>x. if P x then f x else x) (row_of_uuid rows v)"
  using assms by (induction rows) (simp_all add: row_of_uuid_def tbl_update_def)

lemma row_of_uuid_set_soft:
  assumes "uuid_table_ok rows" and "row_of_uuid rows u = Some r"
  shows "row_of_uuid (set_soft_delete (u_id r) b rows) v
     = (if v = u then Some (r\<lparr> u_soft_delete := b \<rparr>) else row_of_uuid rows v)"
proof (cases "row_of_uuid rows v")
  case None
  with assms(2) show ?thesis by (auto simp: set_soft_delete_def row_of_uuid_tbl_update)
next
  case (Some x)
  have r: "r \<in> set rows" "u_uuid r = u" using row_of_uuid_Some [OF assms(2)] by auto
  have x: "x \<in> set rows" "u_uuid x = v" using row_of_uuid_Some [OF Some] by auto
  have "u_id x = u_id r \<longleftrightarrow> v = u"
    using row_id_unique [OF assms(1) x(1) r(1)] x(2) r(2) Some assms(2) by (metis option.inject)
  with Some assms(2) show ?thesis by (auto simp: set_soft_delete_def row_of_uuid_tbl_update)
qed

lemma row_of_uuid_append:
  "row_of_uuid (rows @ [m]) v
     = (case row_of_uuid rows v of None \<Rightarrow> if u_uuid m = v then Some m else None | Some r \<Rightarrow> Some r)"
  by (simp add: row_of_uuid_def tbl_find_append split: option.split)


section \<open>Building the maps\<close>

lemma hm_get_cache_entry [simp]:
  "hm_get (by_uuid (cache_entry u i sd c)) v = (if v = u then Some (i, sd) else hm_get (by_uuid c) v)"
  "hm_get (by_id (cache_entry u i sd c)) j = (if j = i then Some (u, sd) else hm_get (by_id c) j)"
  "hm_wf (by_uuid c) \<Longrightarrow> hm_wf (by_uuid (cache_entry u i sd c))"
  by (simp_all add: cache_entry_def)

text \<open>
  Writing an entry keeps the maps mirrored when nobody else has its number and the
  agent had no other number.
\<close>

lemma mirroredD:
  "mirrored c \<Longrightarrow> hm_get (by_uuid c) u = Some (i, sd) \<Longrightarrow> hm_get (by_id c) i = Some (u, sd)"
  "mirrored c \<Longrightarrow> hm_get (by_id c) i = Some (u, sd) \<Longrightarrow> hm_get (by_uuid c) u = Some (i, sd)"
  by (simp_all add: mirrored_def)

lemma mirrored_entry:
  assumes "mirrored c" and "\<And>v b. hm_get (by_uuid c) v = Some (i, b) \<Longrightarrow> v = u"
    and "\<And>j b. hm_get (by_uuid c) u = Some (j, b) \<Longrightarrow> j = i"
  shows "mirrored (cache_entry u i sd c)"
  unfolding mirrored_def
proof (intro allI iffI)
  fix v j b
  assume "hm_get (by_uuid (cache_entry u i sd c)) v = Some (j, b)"
  then show "hm_get (by_id (cache_entry u i sd c)) j = Some (v, b)"
    using assms(2) [of v b] mirroredD(1) [OF assms(1), of v j b] by (auto split: if_splits)
next
  fix v j b
  assume "hm_get (by_id (cache_entry u i sd c)) j = Some (v, b)"
  then show "hm_get (by_uuid (cache_entry u i sd c)) v = Some (j, b)"
    using assms(3) [of j b] mirroredD(2) [OF assms(1), of j v b] by (auto split: if_splits)
qed

lemma uuid_entry_SomeD:
  assumes "uuid_entry rows u = Some (i, sd)"
  obtains r where "row_of_uuid rows u = Some r" "try_id_i16 (u_id r) = Some i" "u_soft_delete r = sd"
  using assms by (auto simp: uuid_entry_def split: option.splits)

lemma uuid_entry_inj:
  assumes "uuid_table_ok rows" and "uuid_entry rows u = Some (i, a)" and "uuid_entry rows v = Some (i, b)"
  shows "u = v"
proof -
  from assms(2) obtain r where r: "row_of_uuid rows u = Some r" "try_id_i16 (u_id r) = Some i"
    by (rule uuid_entry_SomeD)
  from assms(3) obtain r' where r': "row_of_uuid rows v = Some r'" "try_id_i16 (u_id r') = Some i"
    by (rule uuid_entry_SomeD)
  have "r = r'"
    using row_id_unique [OF assms(1)] try_id_inj [OF r(2) r'(2)] row_of_uuid_Some r(1) r'(1) by blast
  with row_of_uuid_Some [OF r(1)] row_of_uuid_Some [OF r'(1)] show ?thesis by simp
qed

lemma uuid_entry_snoc:
  assumes "row_of_uuid rows (u_uuid m) = None"
  shows "uuid_entry (rows @ [m]) v
     = (if v = u_uuid m then map_option (\<lambda>i. (i, u_soft_delete m)) (try_id_i16 (u_id m)) else uuid_entry rows v)"
  using assms by (auto simp: uuid_entry_def row_of_uuid_append split: option.split)

definition image_of :: "uuid_row list \<Rightarrow> uuid_cache \<Rightarrow> bool" where
  "image_of rows c \<longleftrightarrow> hm_wf (by_uuid c) \<and> mirrored c \<and> (\<forall>u. hm_get (by_uuid c) u = uuid_entry rows u)"

lemma uuid_coherent_iff: "uuid_coherent rows w \<longleftrightarrow> (\<exists>c. uw_cache w = Some c \<and> image_of rows c)"
  by (auto simp: uuid_coherent_def image_of_def split: option.splits)

lemma image_ofD:
  "image_of rows c \<Longrightarrow> hm_get (by_uuid c) u = uuid_entry rows u" "image_of rows c \<Longrightarrow> mirrored c"
  "image_of rows c \<Longrightarrow> hm_wf (by_uuid c)"
  by (simp_all add: image_of_def)

lemma image_of_entry:
  assumes "image_of rows c" and "uuid_table_ok rows'"
    and "\<And>v. uuid_entry rows' v = (if v = u then Some (i, sd) else uuid_entry rows v)"
    and "\<And>j b. uuid_entry rows u = Some (j, b) \<Longrightarrow> j = i"
  shows "image_of rows' (cache_entry u i sd c)"
proof -
  note c = image_ofD [OF assms(1)]
  have "mirrored (cache_entry u i sd c)"
  proof (rule mirrored_entry [OF c(2)])
    fix v b assume v: "hm_get (by_uuid c) v = Some (i, b)"
    show "v = u"
    proof (rule ccontr)
      assume "v \<noteq> u"
      with v have "uuid_entry rows' v = Some (i, b)" "uuid_entry rows' u = Some (i, sd)"
        by (simp_all add: assms(3) c(1))
      with uuid_entry_inj [OF assms(2)] \<open>v \<noteq> u\<close> show False by blast
    qed
  next
    fix j b assume "hm_get (by_uuid c) u = Some (j, b)"
    with assms(4) show "j = i" by (simp add: c(1))
  qed
  with c show ?thesis by (simp add: image_of_def assms(3))
qed

lemma image_of_maps: "uuid_table_ok rows \<Longrightarrow> image_of rows (uuid_maps rows)"
proof (induction rows rule: rev_induct)
  case Nil
  then show ?case by (simp add: image_of_def uuid_maps_def mirrored_def uuid_entry_def row_of_uuid_def)
next
  case (snoc m rows)
  then have ok: "uuid_table_ok rows" and none: "row_of_uuid rows (u_uuid m) = None"
    by (auto simp: uuid_table_ok_def unique_on_snoc row_of_uuid_def tbl_find_None)
  note entry = uuid_entry_snoc [OF none]
  have no: "uuid_entry rows (u_uuid m) = None" by (simp add: uuid_entry_def none)
  have eq: "uuid_maps (rows @ [m]) = add_model m (uuid_maps rows)" by (simp add: uuid_maps_def)
  show ?case
  proof (cases "try_id_i16 (u_id m)")
    case None
    with snoc.IH [OF ok] no show ?thesis by (auto simp: eq add_model_def image_of_def entry)
  next
    case (Some i)
    have "image_of (rows @ [m]) (cache_entry (u_uuid m) i (u_soft_delete m) (uuid_maps rows))"
      by (rule image_of_entry [OF snoc.IH [OF ok] snoc.prems]) (simp_all add: entry Some no)
    with Some show ?thesis by (simp add: eq add_model_def)
  qed
qed


section \<open>One operation at a time\<close>

definition uuid_loaded :: "uuid_row list \<Rightarrow> uuid_world \<Rightarrow> bool" where
  "uuid_loaded ms w \<longleftrightarrow> uuid_is_set w \<and> (uuid_table_ok ms \<longrightarrow> uuid_coherent ms w)"

interpretation uuid_db_cache: db_backed_cache
  uuid_is_set uw_rows "uuid_load_all D" uuid_build_cache uuid_put uuid_reload_from_models uuid_loaded
  by unfold_locales
     (auto simp: uuid_load_all_def uuid_build_cache_def uuid_put_def uuid_reload_from_models_def
        uuid_loaded_def uuid_is_set_def uuid_coherent_iff image_of_maps)

definition fits :: "i32 \<Rightarrow> bool" where
  "fits n \<longleftrightarrow> try_id_i16 n \<noteq> None"

definition healthy :: "uuid_env \<Rightarrow> uuid_world \<Rightarrow> bool" where
  "healthy D w \<longleftrightarrow> (\<forall>site. ue_fault D site = None) \<and> uw_ready w \<and> fits (ue_new_id D)
     \<and> (\<forall>r\<in>set (uw_rows w). fits (u_id r))"

definition registered :: "uuid_row list \<Rightarrow> uuid \<Rightarrow> i32 \<Rightarrow> uuid_id \<Rightarrow> bool" where
  "registered rows u n i \<longleftrightarrow> (\<exists>r. row_of_uuid rows u = Some r \<and> u_id r = n) \<and> try_id_i16 n = Some i"

definition active_as :: "uuid_row list \<Rightarrow> uuid \<Rightarrow> uuid_id \<Rightarrow> bool" where
  "active_as rows u i \<longleftrightarrow> uuid_entry rows u = Some (i, False)"

definition fresh_id :: "uuid_env \<Rightarrow> uuid_world \<Rightarrow> bool" where
  "fresh_id D w \<longleftrightarrow> ue_new_id D \<notin> u_id ` set (uw_rows w)"

text \<open>What the answer of an operation says of the table.\<close>

fun answer_ok :: "uuid_op \<Rightarrow> uuid_answer \<Rightarrow> uuid_row list \<Rightarrow> bool" where
  "answer_ok (OpGet u) (AnId i) rows \<longleftrightarrow> active_as rows u i"
| "answer_ok (OpDelete u) (ABool b) rows \<longleftrightarrow>
     (case row_of_uuid rows u of None \<Rightarrow> \<not> b | Some r \<Rightarrow> b \<and> u_soft_delete r)"
| "answer_ok OpReload AUnit rows \<longleftrightarrow> True"
| "answer_ok _ _ _ \<longleftrightarrow> False"

text \<open>The assertion at each point of an operation that runs alone.\<close>

fun alone_at :: "uuid_env \<Rightarrow> uuid_op \<Rightarrow> uuid_pc \<Rightarrow> uuid_world \<Rightarrow> bool" where
  "alone_at D (OpGet u) (GStart v) w \<longleftrightarrow> v = u \<and> fresh_id D w"
| "alone_at D (OpGet u) (GFind v) w \<longleftrightarrow> v = u \<and> fresh_id D w"
| "alone_at D (OpGet u) (GInsert v) w \<longleftrightarrow> v = u \<and> fresh_id D w \<and> row_of_uuid (uw_rows w) u = None"
| "alone_at D (OpGet u) (GConflict v e) w \<longleftrightarrow> v = u \<and> \<not> healthy D w"
| "alone_at D (OpGet u) (GResurrect v n i msg) w \<longleftrightarrow> v = u \<and> registered (uw_rows w) u n i"
| "alone_at D (OpGet u) (GPublish v i) w \<longleftrightarrow> v = u \<and> active_as (uw_rows w) u i"
| "alone_at D (OpDelete u) (SFind v) w \<longleftrightarrow> v = u"
| "alone_at D (OpDelete u) (SUpdate v n i) w \<longleftrightarrow> v = u \<and> registered (uw_rows w) u n i"
| "alone_at D (OpDelete u) (SPublish v i) w \<longleftrightarrow> v = u \<and> uuid_entry (uw_rows w) u = Some (i, True)"
| "alone_at D OpReload RLoad w \<longleftrightarrow> True"
| "alone_at D OpReload (RSwap models) w \<longleftrightarrow> models = uw_rows w"
| "alone_at D oper (Returned (Inl e)) w \<longleftrightarrow> \<not> healthy D w"
| "alone_at D oper (Returned (Inr a)) w \<longleftrightarrow> answer_ok oper a (uw_rows w)"
| "alone_at D _ _ _ \<longleftrightarrow> False"

text \<open>What still has to be written to the cache at a point.\<close>

primrec pending_write :: "uuid_pc \<Rightarrow> uuid_world \<Rightarrow> uuid_world" where
  "pending_write (GPublish u i) w = publish u i False w"
| "pending_write (SPublish u i) w = publish u i True w"
| "pending_write (GStart u) w = w"
| "pending_write (GFind u) w = w"
| "pending_write (GInsert u) w = w"
| "pending_write (GConflict u e) w = w"
| "pending_write (GResurrect u n i msg) w = w"
| "pending_write (SFind u) w = w"
| "pending_write (SUpdate u n i) w = w"
| "pending_write RLoad w = w"
| "pending_write (RSwap ms) w = w"
| "pending_write (Returned r) w = w"

definition alone_ok :: "uuid_env \<Rightarrow> uuid_op \<Rightarrow> uuid_pc \<Rightarrow> uuid_world \<Rightarrow> bool" where
  "alone_ok D oper pc w \<longleftrightarrow> uuid_table_ok (uw_rows w) \<and> alone_at D oper pc w
     \<and> uuid_coherent (uw_rows w) (pending_write pc w)"

lemma uuid_coherent_publish:
  assumes "uuid_coherent rows w" and "uuid_table_ok rows'" and "uw_cache w' = uw_cache w"
    and "\<And>v. uuid_entry rows' v = (if v = u then Some (i, sd) else uuid_entry rows v)"
    and "\<And>j b. uuid_entry rows u = Some (j, b) \<Longrightarrow> j = i"
  shows "uuid_coherent rows' (publish u i sd w')"
proof -
  from assms(1) obtain c where c: "uw_cache w = Some c" "image_of rows c" by (auto simp: uuid_coherent_iff)
  from image_of_entry [OF c(2) assms(2,4,5)] c(1) assms(3) show ?thesis
    by (auto simp: uuid_coherent_iff publish_def)
qed

lemma uuid_coherent_republish:
  "uuid_coherent rows w \<Longrightarrow> uuid_table_ok rows \<Longrightarrow> uuid_entry rows u = Some (i, sd) \<Longrightarrow>
   uuid_coherent rows (publish u i sd w)"
  by (rule uuid_coherent_publish [of rows w rows w]) auto

lemma uuid_entry_set_soft:
  assumes "uuid_table_ok rows" and "registered rows u n i"
  shows "uuid_entry (set_soft_delete n b rows) v = (if v = u then Some (i, b) else uuid_entry rows v)"
    and "uuid_entry rows u = Some (j, b') \<Longrightarrow> j = i"
proof -
  from assms(2) obtain r where r: "row_of_uuid rows u = Some r" "u_id r = n" "try_id_i16 n = Some i"
    by (auto simp: registered_def)
  show "uuid_entry (set_soft_delete n b rows) v = (if v = u then Some (i, b) else uuid_entry rows v)"
    using row_of_uuid_set_soft [OF assms(1) r(1), of b v] r by (simp add: uuid_entry_def)
  show "uuid_entry rows u = Some (j, b') \<Longrightarrow> j = i"
    using r by (simp add: uuid_entry_def)
qed

lemma healthy_rows:
  "healthy D w \<Longrightarrow> row_of_uuid (uw_rows w) u = Some r \<Longrightarrow> try_id_i16 (u_id r) \<noteq> None"
  using row_of_uuid_Some [of "uw_rows w" u r] by (auto simp: healthy_def fits_def)

lemma healthyD:
  "healthy D w \<Longrightarrow> ue_fault D site = None" "healthy D w \<Longrightarrow> uw_ready w"
  "healthy D w \<Longrightarrow> try_id_i16 (ue_new_id D) \<noteq> None"
  by (simp_all add: healthy_def fits_def)

lemma uuid_err_at:
  "alone_at D oper (uuid_err msg) w \<longleftrightarrow> \<not> healthy D w" "pending_write (uuid_err msg) w = w"
  by (simp_all add: uuid_err_def)

lemma alone_start: "alone_ok D (OpGet u) (GStart u) w \<Longrightarrow> alone_ok D (OpGet u) (g_start u w) w"
proof -
  assume a: "alone_ok D (OpGet u) (GStart u) w"
  then obtain c where c: "uw_cache w = Some c" "image_of (uw_rows w) c"
    by (auto simp: alone_ok_def uuid_coherent_iff)
  from a c(1) image_ofD(1) [OF c(2), of u] show ?thesis
    by (auto simp: alone_ok_def g_start_def active_as_def split: option.split bool.split)
qed

lemma alone_find:
  assumes "alone_ok D (OpGet u) (GFind u) w"
  shows "alone_ok D (OpGet u) (g_find D u w) w"
proof (cases "row_of_uuid (uw_rows w) u")
  case None
  with assms show ?thesis
    by (auto simp: alone_ok_def g_find_def uuid_err_at healthyD split: option.split)
next
  case (Some m)
  show ?thesis
  proof (cases "try_id_i16 (u_id m)")
    case None
    with assms Some healthy_rows [of D w u m] show ?thesis
      by (auto simp: alone_ok_def g_find_def g_existing_def out_of_range_def uuid_err_at healthyD
          split: option.split)
  next
    case (Some i)
    with assms \<open>row_of_uuid (uw_rows w) u = Some m\<close> show ?thesis
      by (auto simp: alone_ok_def g_find_def g_existing_def uuid_err_at healthyD registered_def active_as_def
          uuid_entry_def intro!: uuid_coherent_republish split: option.split)
  qed
qed

lemma alone_insert:
  assumes "alone_ok D (OpGet u) (GInsert u) w" and "g_insert D u w = (pc', w')"
  shows "alone_ok D (OpGet u) pc' w'"
proof (cases "ue_fault D InsertUuid")
  case (Some e)
  with assms show ?thesis
    by (auto simp: alone_ok_def g_insert_def insert_uuid_def uuid_err_at healthyD split: if_splits)
next
  case None
  let ?m = "\<lparr> u_id = ue_new_id D, u_uuid = u, u_soft_delete = False \<rparr>"
  from assms(1) have none: "row_of_uuid (uw_rows w) u = None" and ok: "uuid_table_ok (uw_rows w)"
    and fresh: "ue_new_id D \<notin> u_id ` set (uw_rows w)" and coh: "uuid_coherent (uw_rows w) w"
    by (simp_all add: alone_ok_def fresh_id_def)
  have ok': "uuid_table_ok (uw_rows w @ [?m])" by (rule table_ok_insert [OF ok none fresh])
  have entry: "uuid_entry (uw_rows w @ [?m]) v
      = (if v = u then map_option (\<lambda>i. (i, False)) (try_id_i16 (ue_new_id D)) else uuid_entry (uw_rows w) v)" for v
    using uuid_entry_snoc [of "uw_rows w" ?m v] none by simp
  have no: "uuid_entry (uw_rows w) u = None" by (simp add: uuid_entry_def none)
  have w': "w' = w\<lparr> uw_rows := uw_rows w @ [?m] \<rparr>"
    using assms(2) None none by (auto simp: g_insert_def insert_uuid_def)
  show ?thesis
  proof (cases "try_id_i16 (ue_new_id D)")
    case unfit: None
    then have "uuid_entry (uw_rows w @ [?m]) v = uuid_entry (uw_rows w) v" for v by (simp add: entry no)
    with coh have "uuid_coherent (uw_rows w @ [?m]) w'"
      by (simp add: w' uuid_coherent_def split: option.splits)
    with unfit None none ok' assms(2) show ?thesis
      by (auto simp: alone_ok_def g_insert_def insert_uuid_def out_of_range_insert_def uuid_err_at healthyD)
  next
    case (Some i)
    have "uuid_coherent (uw_rows w @ [?m]) (publish u i False w')"
      by (rule uuid_coherent_publish [OF coh ok']) (simp_all add: w' entry Some no)
    with Some None none ok' assms(2) show ?thesis
      by (auto simp: alone_ok_def g_insert_def insert_uuid_def active_as_def entry)
  qed
qed

lemma alone_conflict:
  "alone_ok D (OpGet u) (GConflict u e) w \<Longrightarrow> alone_ok D (OpGet u) (g_conflict D u e w) w"
  by (auto simp: alone_ok_def g_conflict_def uuid_err_at out_of_range_insert_def registered_def active_as_def
      uuid_entry_def intro!: uuid_coherent_republish split: option.split)

text \<open>Both updates of the mark, with the write to the cache that follows.\<close>

lemma alone_update:
  assumes "uuid_table_ok (uw_rows w)" and "uuid_coherent (uw_rows w) w" and "registered (uw_rows w) u n i"
  shows "uuid_table_ok (set_soft_delete n b (uw_rows w))"
    and "uuid_entry (set_soft_delete n b (uw_rows w)) u = Some (i, b)"
    and "uuid_coherent (set_soft_delete n b (uw_rows w)) (publish u i b (w\<lparr> uw_rows := rows' \<rparr>))"
proof -
  show ok: "uuid_table_ok (set_soft_delete n b (uw_rows w))" by (simp add: table_ok_set_soft assms(1))
  show "uuid_entry (set_soft_delete n b (uw_rows w)) u = Some (i, b)"
    by (simp add: uuid_entry_set_soft(1) [OF assms(1,3)])
  show "uuid_coherent (set_soft_delete n b (uw_rows w)) (publish u i b (w\<lparr> uw_rows := rows' \<rparr>))"
    by (rule uuid_coherent_publish [OF assms(2) ok])
       (simp_all add: uuid_entry_set_soft [OF assms(1,3)])
qed

lemma registered_found: "registered rows u n i \<Longrightarrow> tbl_find (\<lambda>r. u_id r = n) rows \<noteq> None"
  by (auto simp: registered_def tbl_find_None dest!: row_of_uuid_Some)

lemma alone_resurrect:
  assumes "alone_ok D (OpGet u) (GResurrect u n i msg) w" and "g_resurrect D u n i msg w = (pc', w')"
  shows "alone_ok D (OpGet u) pc' w'"
proof -
  from assms(1) have r: "registered (uw_rows w) u n i" and w: "uuid_table_ok (uw_rows w)" "uuid_coherent (uw_rows w) w"
    by (simp_all add: alone_ok_def)
  show ?thesis
    using assms registered_found [OF r] alone_update [OF w r, of False]
    by (cases "ue_fault D ResurrectUuid")
       (auto simp: alone_ok_def g_resurrect_def update_soft_def uuid_err_at healthyD active_as_def)
qed

lemma alone_s_update:
  assumes "alone_ok D (OpDelete u) (SUpdate u n i) w" and "s_update D u n i w = (pc', w')"
  shows "alone_ok D (OpDelete u) pc' w'"
proof -
  from assms(1) have r: "registered (uw_rows w) u n i" and w: "uuid_table_ok (uw_rows w)" "uuid_coherent (uw_rows w) w"
    by (simp_all add: alone_ok_def)
  show ?thesis
    using assms registered_found [OF r] alone_update [OF w r, of True]
    by (cases "ue_fault D SoftDeleteUuid")
       (auto simp: alone_ok_def s_update_def update_soft_def uuid_err_at healthyD)
qed

lemma alone_s_find:
  assumes "alone_ok D (OpDelete u) (SFind u) w"
  shows "alone_ok D (OpDelete u) (s_find D u w) w"
proof (cases "row_of_uuid (uw_rows w) u")
  case None
  with assms show ?thesis by (auto simp: alone_ok_def s_find_def uuid_err_at healthyD split: option.split)
next
  case (Some m)
  with assms healthy_rows [of D w u m] show ?thesis
    by (auto simp: alone_ok_def s_find_def uuid_err_at out_of_range_def registered_def healthyD split: option.split)
qed

lemma alone_publish:
  "alone_ok D (OpGet u) (GPublish u i) w \<Longrightarrow> alone_ok D (OpGet u) (Returned (Inr (AnId i))) (publish u i False w)"
  "alone_ok D (OpDelete u) (SPublish u i) w \<Longrightarrow>
   alone_ok D (OpDelete u) (Returned (Inr (ABool True))) (publish u i True w)"
  by (auto simp: alone_ok_def publish_def uuid_entry_def split: option.splits)

lemma alone_reload:
  "alone_ok D OpReload RLoad w \<Longrightarrow> alone_ok D OpReload (r_load D w) w"
  "alone_ok D OpReload (RSwap ms) w \<Longrightarrow>
   alone_ok D OpReload (Returned (Inr AUnit)) (uuid_reload_from_models ms w)"
  by (auto simp: alone_ok_def r_load_def uuid_load_all_def load_from_db_def uuid_is_set_def healthyD
      uuid_coherent_iff uuid_reload_from_models_def image_of_maps split: option.splits)

lemma alone_next:
  assumes "alone_ok D oper pc w" and "uuid_next D pc w = (pc', w')"
  shows "alone_ok D oper pc' w'"
proof -
  have at: "alone_at D oper pc w" using assms(1) by (simp add: alone_ok_def)
  show ?thesis
  proof (cases pc)
    case (Returned r)
    with assms show ?thesis by simp
  qed (use at assms in \<open>cases oper;
         auto intro: alone_start alone_find alone_insert alone_conflict alone_resurrect alone_publish
           alone_s_find alone_s_update alone_reload\<close>)+
qed

text \<open>An operation needs at most as many steps as its point is far from the end.\<close>

primrec rank :: "uuid_pc \<Rightarrow> nat" where
  "rank (GStart u) = 6"
| "rank (GFind u) = 5"
| "rank (GInsert u) = 4"
| "rank (GConflict u e) = 3"
| "rank (GResurrect u n i msg) = 2"
| "rank (GPublish u i) = 1"
| "rank (SFind u) = 3"
| "rank (SUpdate u n i) = 2"
| "rank (SPublish u i) = 1"
| "rank RLoad = 2"
| "rank (RSwap ms) = 1"
| "rank (Returned r) = 0"

lemma rank_err: "rank (uuid_err m) = 0" "rank (out_of_range D n u) = 0" "rank (out_of_range_insert D u) = 0"
  by (simp_all add: uuid_err_def out_of_range_def out_of_range_insert_def)

lemma rank_next: "uuid_next D pc w = (pc', w') \<Longrightarrow> rank pc' \<le> rank pc - 1"
  by (cases pc)
     (auto simp: g_start_def g_find_def g_existing_def g_insert_def g_conflict_def g_resurrect_def s_find_def
        s_update_def r_load_def rank_err split: option.splits sum.splits if_splits bool.splits)

lemma rank_zero: "rank pc = 0 \<longleftrightarrow> (\<exists>r. pc = Returned r)"
  by (cases pc) simp_all

lemma uuid_steps_ok:
  "alone_ok D oper pc w \<Longrightarrow> uuid_steps n D pc w = (pc', w') \<Longrightarrow> alone_ok D oper pc' w' \<and> rank pc' \<le> rank pc - n"
proof (induction n arbitrary: pc w)
  case (Suc n)
  obtain pc1 w1 where s: "uuid_next D pc w = (pc1, w1)" by fastforce
  with Suc.prems have "uuid_steps n D pc1 w1 = (pc', w')" by simp
  from Suc.IH [OF alone_next [OF Suc.prems(1) s] this] rank_next [OF s] show ?case by auto
qed simp

lemma alone_ok_start:
  assumes "uuid_table_ok (uw_rows w)" and "uuid_coherent (uw_rows w) w" and "fresh_id D w"
  shows "alone_ok D oper (start_pc oper) w"
  using assms by (cases oper) (simp_all add: alone_ok_def)


section \<open>Many operations at once\<close>

definition row_names :: "uuid_row list \<Rightarrow> (i32 \<times> uuid) set" where
  "row_names rows = (\<lambda>r. (u_id r, u_uuid r)) ` set rows"

definition known :: "(i32 \<times> uuid) set \<Rightarrow> uuid \<Rightarrow> uuid_id \<Rightarrow> bool" where
  "known ns u i \<longleftrightarrow> (\<exists>n. (n, u) \<in> ns \<and> try_id_i16 n = Some i)"

definition one_to_one :: "(i32 \<times> uuid) set \<Rightarrow> bool" where
  "one_to_one ns \<longleftrightarrow> (\<forall>n u m v. (n, u) \<in> ns \<longrightarrow> (m, v) \<in> ns \<longrightarrow> (n = m \<longleftrightarrow> u = v))"

lemma one_to_one_names: "uuid_table_ok rows \<Longrightarrow> one_to_one (row_names rows)"
proof -
  assume ok: "uuid_table_ok rows"
  have "u_uuid r = u_uuid r'" if "r \<in> set rows" "r' \<in> set rows" "u_id r = u_id r'" for r r'
    using row_id_unique [OF ok that] by (rule arg_cong)
  moreover have "u_id r = u_id r'" if "r \<in> set rows" "r' \<in> set rows" "u_uuid r = u_uuid r'" for r r'
    using row_of_uuid_mem [OF ok that(1)] row_of_uuid_mem [OF ok that(2)] that(3) by (metis option.inject)
  ultimately show ?thesis unfolding one_to_one_def row_names_def by blast
qed

lemma known_inj:
  assumes "one_to_one ns" and "known ns u i"
  shows "known ns v i \<Longrightarrow> v = u" and "known ns u j \<Longrightarrow> j = i"
proof -
  from assms(2) obtain n where n: "(n, u) \<in> ns" "try_id_i16 n = Some i" by (auto simp: known_def)
  {
    assume "known ns v i"
    then obtain m where m: "(m, v) \<in> ns" "try_id_i16 m = Some i" by (auto simp: known_def)
    have "m = n" by (rule try_id_inj [OF m(2) n(2)])
    with assms(1) m(1) n(1) show "v = u" unfolding one_to_one_def by blast
  next
    assume "known ns u j"
    then obtain m where m: "(m, u) \<in> ns" "try_id_i16 m = Some j" by (auto simp: known_def)
    have "m = n" using assms(1) m(1) n(1) unfolding one_to_one_def by blast
    with m n show "j = i" by simp
  }
qed

text \<open>The cache only ever holds numbers the table gave out, and both maps agree.\<close>

definition cache_known :: "(i32 \<times> uuid) set \<Rightarrow> uuid_cache \<Rightarrow> bool" where
  "cache_known ns c \<longleftrightarrow> mirrored c \<and> (\<forall>u i sd. hm_get (by_uuid c) u = Some (i, sd) \<longrightarrow> known ns u i)"

fun shared_at :: "(i32 \<times> uuid) set \<Rightarrow> uuid_op \<Rightarrow> uuid_pc \<Rightarrow> bool" where
  "shared_at ns (OpGet u) (GStart v) \<longleftrightarrow> v = u"
| "shared_at ns (OpGet u) (GFind v) \<longleftrightarrow> v = u"
| "shared_at ns (OpGet u) (GInsert v) \<longleftrightarrow> v = u"
| "shared_at ns (OpGet u) (GConflict v e) \<longleftrightarrow> v = u"
| "shared_at ns (OpGet u) (GResurrect v n i msg) \<longleftrightarrow> v = u \<and> known ns u i"
| "shared_at ns (OpGet u) (GPublish v i) \<longleftrightarrow> v = u \<and> known ns u i"
| "shared_at ns (OpGet u) (Returned (Inr (AnId i))) \<longleftrightarrow> known ns u i"
| "shared_at ns (OpDelete u) (SFind v) \<longleftrightarrow> v = u"
| "shared_at ns (OpDelete u) (SUpdate v n i) \<longleftrightarrow> v = u \<and> known ns u i"
| "shared_at ns (OpDelete u) (SPublish v i) \<longleftrightarrow> v = u \<and> known ns u i"
| "shared_at ns (OpDelete u) (Returned (Inr (ABool b))) \<longleftrightarrow> True"
| "shared_at ns OpReload RLoad \<longleftrightarrow> True"
| "shared_at ns OpReload (RSwap models) \<longleftrightarrow> uuid_table_ok models \<and> row_names models \<subseteq> ns"
| "shared_at ns OpReload (Returned (Inr AUnit)) \<longleftrightarrow> True"
| "shared_at ns oper (Returned (Inl e)) \<longleftrightarrow> True"
| "shared_at ns _ _ \<longleftrightarrow> False"

definition shared_ok :: "uuid_world \<Rightarrow> bool" where
  "shared_ok w \<longleftrightarrow> uuid_table_ok (uw_rows w) \<and> (\<forall>c. uw_cache w = Some c \<longrightarrow> cache_known (row_names (uw_rows w)) c)"

lemma known_mono: "ns \<subseteq> ns' \<Longrightarrow> known ns u i \<Longrightarrow> known ns' u i"
  by (auto simp: known_def)

lemma cache_known_mono: "ns \<subseteq> ns' \<Longrightarrow> cache_known ns c \<Longrightarrow> cache_known ns' c"
  unfolding cache_known_def using known_mono by blast

lemma shared_at_mono: "shared_at ns oper pc \<Longrightarrow> ns \<subseteq> ns' \<Longrightarrow> shared_at ns' oper pc"
  by (induction ns oper pc rule: shared_at.induct) (auto intro: known_mono)

lemma known_row: "row_of_uuid rows u = Some r \<Longrightarrow> try_id_i16 (u_id r) = Some i \<Longrightarrow> known (row_names rows) u i"
  using row_of_uuid_Some [of rows u r] by (auto simp: known_def row_names_def)

lemma cache_known_entry:
  assumes "one_to_one ns" and "cache_known ns c" and "known ns u i"
  shows "cache_known ns (cache_entry u i sd c)"
  unfolding cache_known_def
proof (intro conjI allI impI)
  show "mirrored (cache_entry u i sd c)"
  proof (rule mirrored_entry)
    show "mirrored c" using assms(2) by (simp add: cache_known_def)
  next
    fix v b assume "hm_get (by_uuid c) v = Some (i, b)"
    with assms(2) have "known ns v i" unfolding cache_known_def by blast
    then show "v = u" by (rule known_inj(1) [OF assms(1,3)])
  next
    fix j b assume "hm_get (by_uuid c) u = Some (j, b)"
    with assms(2) have "known ns u j" unfolding cache_known_def by blast
    then show "j = i" by (rule known_inj(2) [OF assms(1,3)])
  qed
next
  fix v j b assume "hm_get (by_uuid (cache_entry u i sd c)) v = Some (j, b)"
  with assms(2,3) show "known ns v j" by (auto simp: cache_known_def split: if_splits)
qed

lemma cache_known_maps:
  assumes "uuid_table_ok models" and "row_names models \<subseteq> ns"
  shows "cache_known ns (uuid_maps models)"
proof -
  note m = image_ofD [OF image_of_maps [OF assms(1)]]
  have "known (row_names models) u i" if "uuid_entry models u = Some (i, sd)" for u i sd
    using that by (elim uuid_entry_SomeD) (rule known_row)
  with m known_mono [OF assms(2)] show ?thesis unfolding cache_known_def by metis
qed

lemma row_names_soft [simp]: "row_names (set_soft_delete n b rows) = row_names rows"
  by (induction rows) (auto simp: row_names_def set_soft_delete_def tbl_update_def)

lemma shared_publish:
  "shared_ok w \<Longrightarrow> known (row_names (uw_rows w)) u i \<Longrightarrow> shared_ok (publish u i sd w)"
  by (auto simp: shared_ok_def publish_def intro: cache_known_entry one_to_one_names)

lemma shared_reload:
  "shared_ok w \<Longrightarrow> uuid_table_ok ms \<Longrightarrow> row_names ms \<subseteq> row_names (uw_rows w) \<Longrightarrow>
   shared_ok (uuid_reload_from_models ms w)"
  by (auto simp: shared_ok_def uuid_reload_from_models_def intro: cache_known_maps)

lemma shared_insert:
  assumes "shared_ok w" and "ue_new_id D \<notin> u_id ` set (uw_rows w)" and "g_insert D u w = (pc', w')"
  shows "shared_ok w' \<and> row_names (uw_rows w) \<subseteq> row_names (uw_rows w')
     \<and> shared_at (row_names (uw_rows w')) (OpGet u) pc'"
proof (cases "insert_uuid D u (uw_rows w)")
  case (Inl e)
  with assms show ?thesis by (auto simp: g_insert_def uuid_err_def split: if_splits)
next
  case (Inr rows')
  then have rows': "rows' = uw_rows w @ [\<lparr> u_id = ue_new_id D, u_uuid = u, u_soft_delete = False \<rparr>]"
    and none: "row_of_uuid (uw_rows w) u = None"
    by (auto simp: insert_uuid_def split: option.splits if_splits)
  from assms(1) none assms(2) have "uuid_table_ok rows'"
    unfolding rows' shared_ok_def by (blast intro: table_ok_insert)
  moreover have sub: "row_names (uw_rows w) \<subseteq> row_names rows'" by (auto simp: row_names_def rows')
  moreover have "known (row_names rows') u i" if "try_id_i16 (ue_new_id D) = Some i" for i
    using that by (auto simp: known_def row_names_def rows')
  ultimately show ?thesis
    using assms(1,3) Inr cache_known_mono [OF sub]
    by (auto simp: g_insert_def shared_ok_def out_of_range_insert_def uuid_err_def split: option.splits)
qed

lemma shared_found:
  "shared_at (row_names (uw_rows w)) (OpGet u) (g_find D u w)"
  "shared_at (row_names (uw_rows w)) (OpGet u) (g_conflict D u e w)"
  "shared_at (row_names (uw_rows w)) (OpDelete u) (s_find D u w)"
  by (auto simp: g_find_def g_existing_def g_conflict_def s_find_def uuid_err_def out_of_range_def
      out_of_range_insert_def intro: known_row split: option.split)

lemma shared_start:
  assumes "shared_ok w"
  shows "shared_at (row_names (uw_rows w)) (OpGet u) (g_start u w)"
  using assms by (fastforce simp: g_start_def shared_ok_def cache_known_def split: option.splits bool.splits)

lemma shared_next:
  assumes "shared_ok w" and "shared_at (row_names (uw_rows w)) oper pc"
    and "ue_new_id D \<notin> u_id ` set (uw_rows w)" and "uuid_next D pc w = (pc', w')"
  shows "shared_ok w' \<and> row_names (uw_rows w) \<subseteq> row_names (uw_rows w')
     \<and> shared_at (row_names (uw_rows w')) oper pc'"
proof (cases pc)
  case (GInsert u)
  with assms shared_insert [OF assms(1,3)] show ?thesis by (cases oper) auto
next
  case (GPublish u i)
  with assms shared_publish [OF assms(1)] show ?thesis by (cases oper) (auto simp: publish_def)
next
  case (SPublish u i)
  with assms shared_publish [OF assms(1)] show ?thesis by (cases oper) (auto simp: publish_def)
next
  case (GResurrect u n i msg)
  with assms show ?thesis
    by (cases oper) (auto simp: g_resurrect_def update_soft_def uuid_err_def shared_ok_def table_ok_set_soft
        split: option.splits if_splits)
next
  case (SUpdate u n i)
  with assms show ?thesis
    by (cases oper) (auto simp: s_update_def update_soft_def uuid_err_def shared_ok_def table_ok_set_soft
        split: option.splits if_splits)
next
  case (RSwap ms)
  with assms shared_reload [OF assms(1)] show ?thesis by (cases oper) (auto simp: uuid_reload_from_models_def)
next
  case RLoad
  with assms show ?thesis
    by (cases oper) (auto simp: r_load_def uuid_load_all_def shared_ok_def split: sum.splits)
qed (use assms shared_start [OF assms(1)] in \<open>cases oper; auto simp: shared_found\<close>)+

definition system_ok :: "uuid_system \<Rightarrow> bool" where
  "system_ok s \<longleftrightarrow> shared_ok (fst s)
     \<and> (\<forall>(oper, pc) \<in> set (snd s). shared_at (row_names (uw_rows (fst s))) oper pc)"

lemma system_step_ok: "uuid_system_step s s' \<Longrightarrow> system_ok s \<Longrightarrow> system_ok s'"
proof (induction rule: uuid_system_step.induct)
  case (Spawn w ts oper)
  then show ?case by (cases oper) (auto simp: system_ok_def)
next
  case (Next k ts oper pc D w pc' w')
  then have w: "shared_ok w" and ts: "\<And>o' p. (o', p) \<in> set ts \<Longrightarrow> shared_at (row_names (uw_rows w)) o' p"
    by (auto simp: system_ok_def)
  have "(oper, pc) \<in> set ts" using Next.hyps(1,2) nth_mem by force
  from shared_next [OF w ts [OF this] Next.hyps(4,3)]
  have *: "shared_ok w'" "row_names (uw_rows w) \<subseteq> row_names (uw_rows w')"
    "shared_at (row_names (uw_rows w')) oper pc'" by auto
  have "shared_at (row_names (uw_rows w')) o' p" if "(o', p) \<in> set (ts[k := (oper, pc')])" for o' p
    using set_update_subset_insert [of ts k "(oper, pc')"] that *(3) shared_at_mono [OF ts *(2)] by blast
  with *(1) show ?case by (auto simp: system_ok_def)
qed

lemma system_reach_ok:
  assumes "uuid_reach s s'" and "system_ok s"
  shows "system_ok s'"
  using assms unfolding uuid_reach_def by (induction rule: rtranclp_induct) (auto intro: system_step_ok)

lemma shared_ok_start:
  assumes "uuid_table_ok (uw_rows w)" and "uuid_coherent (uw_rows w) w"
  shows "system_ok (w, [])"
proof -
  from assms(2) obtain c where c: "uw_cache w = Some c" and im: "image_of (uw_rows w) c"
    by (auto simp: uuid_coherent_iff)
  note m = image_ofD [OF im]
  have "known (row_names (uw_rows w)) u i" if "uuid_entry (uw_rows w) u = Some (i, sd)" for u i sd
    using that by (elim uuid_entry_SomeD) (rule known_row)
  with m(1,2) have "cache_known (row_names (uw_rows w)) c" unfolding cache_known_def by metis
  with assms(1) c show ?thesis by (simp add: system_ok_def shared_ok_def)
qed

lemma healthy_next: "uuid_next D pc w = (pc', w') \<Longrightarrow> healthy D w \<Longrightarrow> healthy D w'"
  by (cases pc)
     (auto simp: healthy_def g_insert_def insert_uuid_def g_resurrect_def s_update_def update_soft_def publish_def
        uuid_reload_from_models_def set_soft_delete_def split: option.splits sum.splits if_splits)

lemma healthy_steps: "uuid_steps n D pc w = (pc', w') \<Longrightarrow> healthy D w \<Longrightarrow> healthy D w'"
  by (induction n arbitrary: pc w) (auto split: prod.splits dest: healthy_next)

lemma get_id_known:
  assumes "cache_known ns c" and "get_id c u = Some i"
  shows "known ns u i" and "get_uuid c i = Some u"
proof -
  from assms(2) obtain sd where u: "hm_get (by_uuid c) u = Some (i, sd)" by (auto simp: get_id_def)
  with assms(1) show "known ns u i" unfolding cache_known_def by blast
  from assms(1) mirroredD(1) [of c u i sd] u show "get_uuid c i = Some u"
    by (simp add: get_uuid_def cache_known_def)
qed

lemma get_uuid_known:
  assumes "cache_known ns c" and "get_uuid c i = Some u"
  shows "get_id c u = Some i"
proof -
  from assms(2) obtain sd where "hm_get (by_id c) i = Some (u, sd)" by (auto simp: get_uuid_def)
  with assms(1) mirroredD(2) [of c i u sd] show ?thesis by (simp add: get_id_def cache_known_def)
qed


section \<open>Properties\<close>

definition demo_uuid_env :: "uuid_env" where
  "demo_uuid_env = \<lparr> ue_fault = (\<lambda>_. None), ue_display = (\<lambda>_. []), ue_show_uuid = (\<lambda>_. []),
     ue_show_i32 = (\<lambda>_. []), ue_new_id = 2 \<rparr>"

definition demo_uuid_world :: "bool \<Rightarrow> bool \<Rightarrow> uuid_world" where
  "demo_uuid_world in_table in_cache = \<lparr> uw_ready = True,
     uw_rows = [\<lparr> u_id = 1, u_uuid = 5, u_soft_delete = in_table \<rparr>],
     uw_cache = Some \<lparr> by_uuid = [(5, 1, in_cache)], by_id = [(1, 5, in_cache)] \<rparr> \<rparr>"

lemma try_id_one [simp]: "try_id_i16 1 = Some 1"
  by (simp add: try_id_i16_def)

lemma demo_uuid_facts:
  "uuid_table_ok (uw_rows (demo_uuid_world b b'))" "uuid_coherent (uw_rows (demo_uuid_world b b)) (demo_uuid_world b b)"
  "fresh_id demo_uuid_env (demo_uuid_world b b')"
  by (auto simp: demo_uuid_world_def demo_uuid_env_def uuid_table_ok_def unique_on_Cons uuid_coherent_def mirrored_def
      uuid_entry_def row_of_uuid_def hm_get_def hm_wf_def fresh_id_def)

text \<open>
  (C20) Numbers are never confused.  Whatever operations run at the same time, however their
  steps interleave and whatever queries fail, two agents never share a number in the cache,
  the two maps are inverse to each other, and a number an operation returned for an agent is
  the number of the row of that agent.
\<close>

theorem uuid_numbers_unambiguous:
  assumes "uuid_table_ok (uw_rows w)" and "uuid_coherent (uw_rows w) w"
    and "uuid_reach (w, []) (w', ts)" and "uw_cache w' = Some c"
  shows "(\<forall>u v i. get_id c u = Some i \<and> get_id c v = Some i \<longrightarrow> u = v)
    \<and> (\<forall>u i. get_id c u = Some i \<longleftrightarrow> get_uuid c i = Some u)
    \<and> (\<forall>u i. (OpGet u, Returned (Inr (AnId i))) \<in> set ts \<longrightarrow>
         (\<exists>r\<in>set (uw_rows w'). u_uuid r = u \<and> try_id_i16 (u_id r) = Some i))"
proof -
  have ok: "system_ok (w', ts)" by (rule system_reach_ok [OF assms(3) shared_ok_start [OF assms(1,2)]])
  then have o2o: "one_to_one (row_names (uw_rows w'))" and ck: "cache_known (row_names (uw_rows w')) c"
    using assms(4) by (auto simp: system_ok_def shared_ok_def intro: one_to_one_names)
  have "known (row_names (uw_rows w')) u i" if "(OpGet u, Returned (Inr (AnId i))) \<in> set ts" for u i
    using ok that by (auto simp: system_ok_def)
  then have "\<forall>u i. (OpGet u, Returned (Inr (AnId i))) \<in> set ts \<longrightarrow>
      (\<exists>r\<in>set (uw_rows w'). u_uuid r = u \<and> try_id_i16 (u_id r) = Some i)"
    by (fastforce simp: known_def row_names_def)
  moreover have "u = v" if "get_id c u = Some i" "get_id c v = Some i" for u v i
    by (rule known_inj(1) [OF o2o get_id_known(1) [OF ck that(2)] get_id_known(1) [OF ck that(1)]])
  moreover have "get_id c u = Some i \<longleftrightarrow> get_uuid c i = Some u" for u i
    using get_id_known(2) [OF ck] get_uuid_known [OF ck] by blast
  ultimately show ?thesis by blast
qed

text \<open>
  (C21) An operation that runs alone ends and does what it says.  Whatever queries fail, it
  returns, and it leaves the cache equal to the table; an answer of \<^verbatim>\<open>get_or_insert\<close>
  is the number of the agent, whose row exists and is active (a deleted one has been revived,
  a missing one inserted), and \<^verbatim>\<open>soft_delete\<close> tells whether the row exists and marks
  it.  When no query fails and the numbers fit in 16 bits, there is no error.
\<close>

theorem uuid_operations_correct:
  assumes "uuid_table_ok (uw_rows w)" and "uuid_coherent (uw_rows w) w" and "fresh_id D w"
  shows "\<exists>r w'. run_alone D (start_pc oper) w = (Returned r, w')
    \<and> uuid_table_ok (uw_rows w') \<and> uuid_coherent (uw_rows w') w'
    \<and> (\<forall>a. r = Inr a \<longrightarrow> answer_ok oper a (uw_rows w'))
    \<and> (healthy D w \<longrightarrow> (\<exists>a. r = Inr a))"
proof -
  obtain pc w' where run: "uuid_steps 6 D (start_pc oper) w = (pc, w')" by fastforce
  from uuid_steps_ok [OF alone_ok_start [OF assms] run]
  have ok: "alone_ok D oper pc w'" and "rank pc \<le> rank (start_pc oper) - 6" by auto
  then have "rank pc = 0" by (cases oper) simp_all
  then obtain r where pc: "pc = Returned r" by (auto simp: rank_zero)
  have "\<exists>a. r = Inr a" if "healthy D w"
    using ok healthy_steps [OF run that] by (cases r) (auto simp: alone_ok_def pc)
  with ok run show ?thesis by (auto simp: run_alone_def pc alone_ok_def)
qed

theorem uuid_operations_correct_witness:
  "\<exists>a w'. run_alone demo_uuid_env (start_pc (OpGet 5)) (demo_uuid_world True True) = (Returned (Inr a), w')
    \<and> uuid_table_ok (uw_rows w') \<and> uuid_coherent (uw_rows w') w' \<and> answer_ok (OpGet 5) a (uw_rows w')"
proof -
  have "healthy demo_uuid_env (demo_uuid_world True True)"
    by (simp add: healthy_def fits_def demo_uuid_env_def demo_uuid_world_def try_id_i16_def)
  then show ?thesis using uuid_operations_correct [OF demo_uuid_facts(1,2,3), of "OpGet 5"] by metis
qed

lemma reach_refl: "uuid_reach s s"
  by (simp add: uuid_reach_def)

lemma reach_spawn: "uuid_reach s (w, ts) \<Longrightarrow> uuid_reach s (w, ts @ [(oper, start_pc oper)])"
  unfolding uuid_reach_def by (erule rtranclp.rtrancl_into_rtrancl) (rule Spawn)

lemma reach_next:
  "uuid_reach s (w, ts) \<Longrightarrow> k < length ts \<Longrightarrow> ts ! k = (oper, pc) \<Longrightarrow> uuid_next D pc w = (pc', w') \<Longrightarrow>
   fresh_id D w \<Longrightarrow> uuid_reach s (w', ts[k := (oper, pc')])"
  unfolding uuid_reach_def fresh_id_def by (erule rtranclp.rtrancl_into_rtrancl) (rule Next)

lemmas demo_uuid_steps = demo_uuid_world_def demo_uuid_env_def g_start_def g_find_def g_existing_def g_resurrect_def
  s_find_def s_update_def update_soft_def set_soft_delete_def tbl_update_def row_of_uuid_def publish_def
  cache_entry_def hm_get_def hm_insert_def

lemma demo_race:
  "uuid_reach (demo_uuid_world True True, [])
     (demo_uuid_world True False, [(OpGet 5, Returned (Inr (AnId 1))), (OpDelete 5, Returned (Inr (ABool True)))])"
proof -
  let ?s = "(demo_uuid_world True True, []) :: uuid_system" and ?msg = "''Failed to resurrect monitoring_uuid: ''"
  note nxt = reach_next [where D = demo_uuid_env, OF _ _ _ _ demo_uuid_facts(3)]
  have "uuid_reach ?s (demo_uuid_world True True, [(OpGet 5, GStart 5)])"
    using reach_spawn [OF reach_refl, of "demo_uuid_world True True" "[]" "OpGet 5"] by simp
  from nxt [OF this, of 0 "OpGet 5" "GStart 5" "GFind 5" "demo_uuid_world True True"]
  have "uuid_reach ?s (demo_uuid_world True True, [(OpGet 5, GFind 5)])" by (simp add: demo_uuid_steps)
  from nxt [OF this, of 0 "OpGet 5" "GFind 5" "GResurrect 5 1 1 ?msg" "demo_uuid_world True True"]
  have "uuid_reach ?s (demo_uuid_world True True, [(OpGet 5, GResurrect 5 1 1 ?msg)])"
    by (simp add: demo_uuid_steps)
  from nxt [OF this, of 0 "OpGet 5" "GResurrect 5 1 1 ?msg" "GPublish 5 1" "demo_uuid_world False True"]
  have "uuid_reach ?s (demo_uuid_world False True, [(OpGet 5, GPublish 5 1)])" by (simp add: demo_uuid_steps)
  from reach_spawn [OF this, of "OpDelete 5"]
  have "uuid_reach ?s (demo_uuid_world False True, [(OpGet 5, GPublish 5 1), (OpDelete 5, SFind 5)])" by simp
  from nxt [OF this, of 1 "OpDelete 5" "SFind 5" "SUpdate 5 1 1" "demo_uuid_world False True"]
  have "uuid_reach ?s (demo_uuid_world False True, [(OpGet 5, GPublish 5 1), (OpDelete 5, SUpdate 5 1 1)])"
    by (simp add: demo_uuid_steps)
  from nxt [OF this, of 1 "OpDelete 5" "SUpdate 5 1 1" "SPublish 5 1" "demo_uuid_world True True"]
  have "uuid_reach ?s (demo_uuid_world True True, [(OpGet 5, GPublish 5 1), (OpDelete 5, SPublish 5 1)])"
    by (simp add: demo_uuid_steps)
  from nxt [OF this, of 1 "OpDelete 5" "SPublish 5 1" "Returned (Inr (ABool True))" "demo_uuid_world True True"]
  have "uuid_reach ?s (demo_uuid_world True True,
      [(OpGet 5, GPublish 5 1), (OpDelete 5, Returned (Inr (ABool True)))])"
    by (simp add: demo_uuid_steps)
  from nxt [OF this, of 0 "OpGet 5" "GPublish 5 1" "Returned (Inr (AnId 1))" "demo_uuid_world True False"]
  show ?thesis by (simp add: demo_uuid_steps)
qed

theorem uuid_numbers_unambiguous_witness:
  "\<exists>r. r \<in> set (uw_rows (demo_uuid_world True False)) \<and> u_uuid r = 5 \<and> try_id_i16 (u_id r) = Some 1"
  using uuid_numbers_unambiguous [OF demo_uuid_facts(1,2) demo_race, of "the (uw_cache (demo_uuid_world True False))"]
  by (auto simp: demo_uuid_world_def)



end
