(* ===== verification/Monitor_Buffer.thy ===== *)
theory Monitor_Buffer
  imports Core "HOL-Library.Word"
begin

text \<open>
  \<^verbatim>\<open>ng-monitoring/src/monitoring_buffer.rs\<close>: the write buffer of the monitoring
  tables.  A report puts its row into a bounded channel and returns; one task per
  table (\<^verbatim>\<open>flush_loop\<close>) takes the rows out and inserts them in batches.

  A \<open>lane\<close> is one of the three pipelines: the \<^verbatim>\<open>BufferSender\<close>, the
  channel, the point the task has reached (\<open>loop_pc\<close>) and the table.
  \<open>loop_next\<close> is one step of the task, from one call that may yield or meet
  another thread to the next; senders run between any two steps.
\<close>


section \<open>Constants\<close>

definition DEFAULT_FLUSH_INTERVAL_MS :: nat where "DEFAULT_FLUSH_INTERVAL_MS = 500"
definition DEFAULT_MAX_BATCH_SIZE :: nat where "DEFAULT_MAX_BATCH_SIZE = 1000"
definition DEFAULT_CHANNEL_CAPACITY :: nat where "DEFAULT_CHANNEL_CAPACITY = 10000"
definition SQLITE_MAX_VARIABLE_NUMBER :: nat where "SQLITE_MAX_VARIABLE_NUMBER = 999"


section \<open>Tables\<close>

text \<open>
  A monitoring table: its rows with the primary keys the database gave them, and
  the next key.  A row never carries a key of its own (\<^verbatim>\<open>id: ActiveValue::default()\<close>).
\<close>

record 'a mon_table =
  mt_rows :: "(nat \<times> 'a) list"
  mt_next :: nat

definition insert_many :: "'a list \<Rightarrow> 'a mon_table \<Rightarrow> 'a mon_table" where
  "insert_many rows t =
     t\<lparr> mt_rows := mt_rows t @ zip [mt_next t ..< mt_next t + length rows] rows,
        mt_next := mt_next t + length rows \<rparr>"

definition mon_table_ok :: "'a mon_table \<Rightarrow> bool" where
  "mon_table_ok t \<longleftrightarrow> distinct (map fst (mt_rows t)) \<and> (\<forall>i\<in>fst ` set (mt_rows t). i < mt_next t)"


section \<open>The state of a lane\<close>

text \<open>
  \<open>Waiting\<close>: at the \<^verbatim>\<open>select!\<close>; \<open>Draining\<close>: in the loop of
  \<^verbatim>\<open>try_recv\<close>; \<open>Flushing\<close>: in the loop of \<^verbatim>\<open>do_flush\<close> with the
  size of a sub-batch and what is left of the batch, for the last time or not;
  \<open>Exited\<close>: the task is gone, and the receiving end with it.
\<close>

datatype 'a loop_pc =
    Waiting "'a list"
  | Draining "'a list"
  | Flushing bool nat "'a list"
  | Exited

text \<open>
  \<^verbatim>\<open>BufferSender\<close> (\<open>ln_tx\<close>: the \<^verbatim>\<open>Sender\<close> is still held), its channel,
  the parameters of the task, the task and the table.
\<close>

record 'a lane =
  ln_tx :: bool
  ln_cap :: nat
  ln_dropped :: "64 word"
  ln_closed :: bool
  ln_queue :: "'a list"
  ln_max_batch :: nat
  ln_columns :: nat
  ln_pc :: "'a loop_pc"
  ln_table :: "'a mon_table"

text \<open>What the surroundings decide at a step: whether the database is initialised,
  its kind, how the statement of this step fails, and whether the timer is due.\<close>

record lane_env =
  le_ready :: bool
  le_sqlite :: bool
  le_fault :: "db_err option"
  le_tick :: bool

datatype 'a lane_event =
    Accepted 'a
  | Refused 'a
  | Inserted "'a list"
  | Failed "'a list"
  | Discarded "'a list"
  | Quiet


section \<open>BufferSender\<close>

definition buffer_sender_new :: "nat \<Rightarrow> nat \<Rightarrow> nat \<Rightarrow> 'a loop_pc \<Rightarrow> 'a mon_table \<Rightarrow> 'a lane" where
  "buffer_sender_new cap max_batch columns pc t =
     \<lparr> ln_tx = True, ln_cap = cap, ln_dropped = 0, ln_closed = False, ln_queue = [],
       ln_max_batch = max_batch, ln_columns = columns, ln_pc = pc, ln_table = t \<rparr>"

text \<open>\<^verbatim>\<open>try_send\<close> fails when the channel is full and when the receiver is gone.\<close>

definition try_send_ok :: "'a lane \<Rightarrow> bool" where
  "try_send_ok ln \<longleftrightarrow> ln_pc ln \<noteq> Exited \<and> length (ln_queue ln) < ln_cap ln"

definition buffer_send :: "'a \<Rightarrow> 'a lane \<Rightarrow> 'a lane" where
  "buffer_send item ln =
     (if ln_closed ln then ln
      else if \<not> ln_tx ln then ln
      else if try_send_ok ln then ln\<lparr> ln_queue := ln_queue ln @ [item] \<rparr>
      else ln\<lparr> ln_dropped := ln_dropped ln + 1 \<rparr>)"

definition dropped_count :: "'a lane \<Rightarrow> 64 word" where
  "dropped_count ln = ln_dropped ln"

definition buffer_close :: "'a lane \<Rightarrow> 'a lane" where
  "buffer_close ln = (if ln_closed ln then ln else ln\<lparr> ln_closed := True, ln_tx := False \<rparr>)"


section \<open>The flush task\<close>

definition chunk_size :: "bool \<Rightarrow> nat \<Rightarrow> nat \<Rightarrow> nat" where
  "chunk_size is_sqlite num_columns num =
     (if is_sqlite then min (SQLITE_MAX_VARIABLE_NUMBER div max num_columns 1) num else num)"

definition after_flush :: "bool \<Rightarrow> 'a loop_pc" where
  "after_flush final = (if final then Exited else Waiting [])"

text \<open>\<^verbatim>\<open>do_flush\<close> up to its loop: the buffer is taken, an empty one returns, and
  without a database the batch is dropped.\<close>

definition do_flush :: "lane_env \<Rightarrow> bool \<Rightarrow> 'a list \<Rightarrow> 'a lane \<Rightarrow> 'a lane \<times> 'a lane_event" where
  "do_flush E final batch ln =
     (if batch = [] then (ln\<lparr> ln_pc := after_flush final \<rparr>, Quiet)
      else if \<not> le_ready E then (ln\<lparr> ln_pc := after_flush final \<rparr>, Discarded batch)
      else (ln\<lparr> ln_pc := Flushing final (chunk_size (le_sqlite E) (ln_columns ln) (length batch)) batch \<rparr>, Quiet))"

text \<open>One round of the loop of \<^verbatim>\<open>do_flush\<close>: one \<^verbatim>\<open>INSERT\<close>, all or nothing.\<close>

definition flush_chunk :: "lane_env \<Rightarrow> bool \<Rightarrow> nat \<Rightarrow> 'a list \<Rightarrow> 'a lane \<Rightarrow> 'a lane \<times> 'a lane_event" where
  "flush_chunk E final chunk batch ln =
     (if batch = [] then (ln\<lparr> ln_pc := after_flush final \<rparr>, Quiet)
      else
        let n = min chunk (length batch);
            sub_batch = take n batch;
            ln' = ln\<lparr> ln_pc := Flushing final chunk (drop n batch) \<rparr>
        in (case le_fault E of
              None \<Rightarrow> (ln'\<lparr> ln_table := insert_many sub_batch (ln_table ln) \<rparr>, Inserted sub_batch)
            | Some e \<Rightarrow> (ln', Failed sub_batch)))"

text \<open>
  The \<^verbatim>\<open>select!\<close> is biased: a row, or the end of the channel, goes before the
  timer, which only counts when the channel is empty.
\<close>

definition loop_wait :: "lane_env \<Rightarrow> 'a list \<Rightarrow> 'a lane \<Rightarrow> 'a lane \<times> 'a lane_event" where
  "loop_wait E buf ln =
     (case ln_queue ln of
        x # q \<Rightarrow> (ln\<lparr> ln_queue := q, ln_pc := Draining (buf @ [x]) \<rparr>, Quiet)
      | [] \<Rightarrow>
          if \<not> ln_tx ln then
            (if buf \<noteq> [] then do_flush E True buf ln else (ln\<lparr> ln_pc := Exited \<rparr>, Quiet))
          else if le_tick E then (ln\<lparr> ln_pc := Draining buf \<rparr>, Quiet)
          else (ln, Quiet))"

definition loop_drain :: "lane_env \<Rightarrow> 'a list \<Rightarrow> 'a lane \<Rightarrow> 'a lane \<times> 'a lane_event" where
  "loop_drain E buf ln =
     (if length buf < ln_max_batch ln \<and> ln_queue ln \<noteq> [] then
        (ln\<lparr> ln_queue := tl (ln_queue ln), ln_pc := Draining (buf @ [hd (ln_queue ln)]) \<rparr>, Quiet)
      else if buf \<noteq> [] then do_flush E False buf ln
      else (ln\<lparr> ln_pc := Waiting buf \<rparr>, Quiet))"

definition loop_next :: "lane_env \<Rightarrow> 'a lane \<Rightarrow> 'a lane \<times> 'a lane_event" where
  "loop_next E ln =
     (case ln_pc ln of
        Waiting buf \<Rightarrow> loop_wait E buf ln
      | Draining buf \<Rightarrow> loop_drain E buf ln
      | Flushing final chunk batch \<Rightarrow> flush_chunk E final chunk batch ln
      | Exited \<Rightarrow> (ln, Quiet))"

text \<open>The task for a number of steps, with what the surroundings decide at each.\<close>

primrec loop_run :: "nat \<Rightarrow> (nat \<Rightarrow> lane_env) \<Rightarrow> 'a lane \<Rightarrow> 'a lane \<times> 'a lane_event list" where
  "loop_run 0 Es ln = (ln, [])"
| "loop_run (Suc n) Es ln =
     (case loop_next (Es 0) ln of
        (ln', ev) \<Rightarrow> (case loop_run n (\<lambda>i. Es (Suc i)) ln' of (ln'', evs) \<Rightarrow> (ln'', ev # evs)))"


section \<open>Start and end\<close>

record monitoring_buffer_config =
  cf_flush_interval_ms :: "nat option"
  cf_max_batch_size :: "nat option"
  cf_channel_capacity :: "nat option"

definition config_or :: "(monitoring_buffer_config \<Rightarrow> nat option) \<Rightarrow> nat \<Rightarrow> monitoring_buffer_config option \<Rightarrow> nat" where
  "config_or field dflt config = (case Option.bind config field of None \<Rightarrow> dflt | Some v \<Rightarrow> v)"

text \<open>
  \<^verbatim>\<open>init\<close> for one table: \<^verbatim>\<open>mpsc::channel\<close> panics on a capacity of zero
  (\<^const>\<open>None\<close>), \<^verbatim>\<open>interval\<close> panics on a period of zero, which ends the
  spawned task before its first step.
\<close>

definition lane_init :: "monitoring_buffer_config option \<Rightarrow> nat \<Rightarrow> 'a mon_table \<Rightarrow> 'a lane option" where
  "lane_init config columns t =
     (let flush_interval_ms = config_or cf_flush_interval_ms DEFAULT_FLUSH_INTERVAL_MS config;
          max_batch_size = config_or cf_max_batch_size DEFAULT_MAX_BATCH_SIZE config;
          channel_capacity = config_or cf_channel_capacity DEFAULT_CHANNEL_CAPACITY config
      in if channel_capacity = 0 then None
         else Some (buffer_sender_new channel_capacity max_batch_size columns
                      (if flush_interval_ms = 0 then Exited else Waiting []) t))"

definition STATIC_COLUMNS :: nat where "STATIC_COLUMNS = 8"
definition DYNAMIC_COLUMNS :: nat where "DYNAMIC_COLUMNS = 11"
definition SUMMARY_COLUMNS :: nat where "SUMMARY_COLUMNS = 27"


section \<open>Runs\<close>

text \<open>Senders, the shutdown and the task in any order, and what happens to the rows.\<close>

definition send_event :: "'a \<Rightarrow> 'a lane \<Rightarrow> 'a lane_event" where
  "send_event x ln = (if ln_closed ln \<or> \<not> ln_tx ln \<or> \<not> try_send_ok ln then Refused x else Accepted x)"

inductive lane_run :: "bool \<Rightarrow> 'a lane \<Rightarrow> 'a lane_event list \<Rightarrow> 'a lane \<Rightarrow> bool"
  for sqlite :: bool and ln\<^sub>0 :: "'a lane"
where
  RunStart: "lane_run sqlite ln\<^sub>0 [] ln\<^sub>0"
| RunSend: "lane_run sqlite ln\<^sub>0 evs ln \<Longrightarrow> lane_run sqlite ln\<^sub>0 (evs @ [send_event x ln]) (buffer_send x ln)"
| RunClose: "lane_run sqlite ln\<^sub>0 evs ln \<Longrightarrow> lane_run sqlite ln\<^sub>0 (evs @ [Quiet]) (buffer_close ln)"
| RunLoop: "lane_run sqlite ln\<^sub>0 evs ln \<Longrightarrow> le_sqlite E = sqlite \<Longrightarrow> loop_next E ln = (ln', ev)
    \<Longrightarrow> lane_run sqlite ln\<^sub>0 (evs @ [ev]) ln'"

primrec accepted_of :: "'a lane_event \<Rightarrow> 'a list" where
  "accepted_of (Accepted x) = [x]"
| "accepted_of (Refused x) = []"
| "accepted_of (Inserted xs) = []"
| "accepted_of (Failed xs) = []"
| "accepted_of (Discarded xs) = []"
| "accepted_of Quiet = []"

primrec handled_of :: "'a lane_event \<Rightarrow> 'a list" where
  "handled_of (Accepted x) = []"
| "handled_of (Refused x) = []"
| "handled_of (Inserted xs) = xs"
| "handled_of (Failed xs) = xs"
| "handled_of (Discarded xs) = xs"
| "handled_of Quiet = []"

primrec inserted_of :: "'a lane_event \<Rightarrow> 'a list" where
  "inserted_of (Accepted x) = []"
| "inserted_of (Refused x) = []"
| "inserted_of (Inserted xs) = xs"
| "inserted_of (Failed xs) = []"
| "inserted_of (Discarded xs) = []"
| "inserted_of Quiet = []"

text \<open>The rows of a statement of the database, if the event is one.\<close>

primrec statement_of :: "'a lane_event \<Rightarrow> 'a list option" where
  "statement_of (Accepted x) = None"
| "statement_of (Refused x) = None"
| "statement_of (Inserted xs) = Some xs"
| "statement_of (Failed xs) = Some xs"
| "statement_of (Discarded xs) = None"
| "statement_of Quiet = None"

primrec in_flight :: "'a loop_pc \<Rightarrow> 'a list" where
  "in_flight (Waiting buf) = buf"
| "in_flight (Draining buf) = buf"
| "in_flight (Flushing final chunk batch) = batch"
| "in_flight Exited = []"

definition accepted :: "'a lane_event list \<Rightarrow> 'a list" where
  "accepted evs = concat (map accepted_of evs)"

definition handled :: "'a lane_event list \<Rightarrow> 'a list" where
  "handled evs = concat (map handled_of evs)"

definition inserted :: "'a lane_event list \<Rightarrow> 'a list" where
  "inserted evs = concat (map inserted_of evs)"

text \<open>The size of a statement: at most 999 parameters on SQLite, at most one batch otherwise.\<close>

definition statement_fits :: "bool \<Rightarrow> nat \<Rightarrow> nat \<Rightarrow> 'a lane_event \<Rightarrow> bool" where
  "statement_fits sqlite max_batch columns ev \<longleftrightarrow>
     (case statement_of ev of
        None \<Rightarrow> True
      | Some xs \<Rightarrow> xs \<noteq> [] \<and> length xs \<le> max 1 max_batch
          \<and> (sqlite \<longrightarrow> length xs * columns \<le> SQLITE_MAX_VARIABLE_NUMBER))"

end
