(* ===== verification/Monitor_Intake.thy ===== *)
theory Monitor_Intake
  imports Kv_Auth Uuid_Cache Traffic Monitor_Buffer
begin

text \<open>
  The reports of the agents (\<^verbatim>\<open>ng-monitoring/src/rpc/agent/report_*.rs\<close>) and the
  two caches they write: the hashes of the static data
  (\<^verbatim>\<open>static_hash_cache.rs\<close>) and the last record of every agent
  (\<^verbatim>\<open>monitoring_last_cache.rs\<close>).  A report ends in the lane of its table
  (\<^verbatim>\<open>monitoring_buffer.rs\<close>).

  A \<^verbatim>\<open>serde_json::Map\<close> is a list sorted by key.  Serialising is a parameter:
  the parts of a report hold what \<^verbatim>\<open>serde_json::to_value\<close> answers for them.
\<close>


section \<open>JSON objects\<close>

fun obj_insert :: "string \<Rightarrow> json \<Rightarrow> (string \<times> json) list \<Rightarrow> (string \<times> json) list" where
  "obj_insert k v [] = [(k, v)]"
| "obj_insert k v ((k', v') # kvs) =
     (if k = k' then (k, v) # kvs
      else if k < k' then (k, v) # (k', v') # kvs
      else (k', v') # obj_insert k v kvs)"

definition obj_get :: "(string \<times> json) list \<Rightarrow> string \<Rightarrow> json option" where
  "obj_get kvs k = map_of kvs k"

definition obj_remove :: "string \<Rightarrow> (string \<times> json) list \<Rightarrow> (string \<times> json) list" where
  "obj_remove k kvs = filter (\<lambda>(k', _). k' \<noteq> k) kvs"

definition as_object :: "json \<Rightarrow> (string \<times> json) list option" where
  "as_object v = (case v of JObject kvs \<Rightarrow> Some kvs | _ \<Rightarrow> None)"

definition json_i64 :: "int \<Rightarrow> json" where
  "json_i64 n = JNumber (if 0 \<le> n then PosInt (nat n) else NegInt n)"


section \<open>Rows and reports\<close>

text \<open>The columns the three tables share.\<close>

record mon_row =
  r_uuid_id :: uuid_id
  r_timestamp :: int
  r_storage_time :: "int option"

record static_row = mon_row +
  s_cpu_data :: json
  s_system_data :: json
  s_gpu_data :: json
  s_data_hash :: "byte list"

record dynamic_row = mon_row +
  d_cpu_data :: json
  d_ram_data :: json
  d_load_data :: json
  d_system_data :: json
  d_disk_data :: json
  d_network_data :: json
  d_gpu_data :: json

record static_monitoring_data =
  sd_uuid :: uuid
  sd_time :: u64
  sd_data_hash :: "byte list"
  sd_cpu :: "string + json"
  sd_system :: "string + json"
  sd_gpu :: "string + json"

text \<open>\<open>dd_traffic\<close> is the part of the report the traffic statistics read.\<close>

record dynamic_monitoring_data =
  dd_uuid :: uuid
  dd_time :: u64
  dd_cpu :: "string + json"
  dd_ram :: "string + json"
  dd_load :: "string + json"
  dd_system :: "string + json"
  dd_disk :: "string + json"
  dd_network :: "string + json"
  dd_gpu :: "string + json"
  dd_traffic :: report_data

datatype dynamic_summary_query_field =
    CpuUsage | GpuUsage | UsedSwap | TotalSwap | UsedMemory | TotalMemory | AvailableMemory
  | LoadOne | LoadFive | LoadFifteen | Uptime | BootTime | ProcessCount | TotalSpace
  | AvailableSpace | ReadSpeed | WriteSpeed | TcpConnections | UdpConnections | TotalReceived
  | TotalTransmitted | TransmitSpeed | ReceiveSpeed

primrec summary_column_name :: "dynamic_summary_query_field \<Rightarrow> string" where
  "summary_column_name CpuUsage = ''cpu_usage''"
| "summary_column_name GpuUsage = ''gpu_usage''"
| "summary_column_name UsedSwap = ''used_swap''"
| "summary_column_name TotalSwap = ''total_swap''"
| "summary_column_name UsedMemory = ''used_memory''"
| "summary_column_name TotalMemory = ''total_memory''"
| "summary_column_name AvailableMemory = ''available_memory''"
| "summary_column_name LoadOne = ''load_one''"
| "summary_column_name LoadFive = ''load_five''"
| "summary_column_name LoadFifteen = ''load_fifteen''"
| "summary_column_name Uptime = ''uptime''"
| "summary_column_name BootTime = ''boot_time''"
| "summary_column_name ProcessCount = ''process_count''"
| "summary_column_name TotalSpace = ''total_space''"
| "summary_column_name AvailableSpace = ''available_space''"
| "summary_column_name ReadSpeed = ''read_speed''"
| "summary_column_name WriteSpeed = ''write_speed''"
| "summary_column_name TcpConnections = ''tcp_connections''"
| "summary_column_name UdpConnections = ''udp_connections''"
| "summary_column_name TotalReceived = ''total_received''"
| "summary_column_name TotalTransmitted = ''total_transmitted''"
| "summary_column_name TransmitSpeed = ''transmit_speed''"
| "summary_column_name ReceiveSpeed = ''receive_speed''"

definition summary_fields :: "dynamic_summary_query_field list" where
  "summary_fields =
     [CpuUsage, GpuUsage, UsedSwap, TotalSwap, UsedMemory, TotalMemory, AvailableMemory,
      LoadOne, LoadFive, LoadFifteen, Uptime, BootTime, ProcessCount, TotalSpace, AvailableSpace,
      ReadSpeed, WriteSpeed, TcpConnections, UdpConnections, TotalReceived, TotalTransmitted,
      TransmitSpeed, ReceiveSpeed]"

text \<open>
  The 23 optional columns of a summary, the same in a report and in a row, which
  takes them over name by name.
\<close>

type_synonym summary_values = "dynamic_summary_query_field \<Rightarrow> int option"

record summary_row = mon_row +
  m_values :: summary_values

record dynamic_monitoring_summary_data =
  md_uuid :: uuid
  md_time :: u64
  md_values :: summary_values


section \<open>The hashes of the static data\<close>

type_synonym static_hash_cache = "(uuid_id, byte list) hash_map"

definition truncate_to_16 :: "byte list \<Rightarrow> byte list" where
  "truncate_to_16 bytes =
     (let len = min (length bytes) 16 in take len bytes @ replicate (16 - len) 0)"

definition is_duplicate :: "static_hash_cache \<Rightarrow> uuid_id \<Rightarrow> byte list \<Rightarrow> bool" where
  "is_duplicate c i h = (case hm_get c i of None \<Rightarrow> False | Some cached \<Rightarrow> cached = truncate_to_16 h)"

definition hash_update :: "uuid_id \<Rightarrow> byte list \<Rightarrow> static_hash_cache \<Rightarrow> static_hash_cache" where
  "hash_update i h c = hm_insert i (truncate_to_16 h) c"


section \<open>The last record of every agent\<close>

record cached_entry =
  ce_value :: json
  ce_serialized :: "string option"

record last_cache =
  static_cache :: "(uuid, cached_entry) hash_map"
  dynamic_cache :: "(uuid, cached_entry) hash_map"
  dynamic_summary_cache :: "(uuid, cached_entry) hash_map"

text \<open>
  The parameters: the permission check, the agent numbers, the clock,
  \<^verbatim>\<open>serde_json::to_string\<close>, \<^verbatim>\<open>from_str\<close>, how the driver hands out a JSON
  column, the division of a JSON number by ten, and the queries that fail.
\<close>

datatype mon_site = FindHash | SelectRows | DeleteRows | StreamRows

record mon_env =
  me_checker :: limit_checker
  me_uuid :: uuid_env
  me_clock :: system_time
  me_ntp :: int
  me_to_string :: "json \<Rightarrow> string option"
  me_from_str :: "string \<Rightarrow> json option"
  me_column :: "json \<Rightarrow> json"
  me_div10 :: "json_number \<Rightarrow> json_number option"
  me_fault :: "mon_site \<Rightarrow> db_err option"
  me_display :: "db_err \<Rightarrow> string"
  me_show_uuid :: "uuid \<Rightarrow> string"

definition SCALED_SUMMARY_COLUMNS :: "string list" where
  "SCALED_SUMMARY_COLUMNS = [''cpu_usage'', ''load_one'', ''load_five'', ''load_fifteen'']"

definition descale_key :: "mon_env \<Rightarrow> string \<Rightarrow> (string \<times> json) list \<Rightarrow> (string \<times> json) list" where
  "descale_key E key obj =
     (case obj_get obj key of
        Some (JNumber n) \<Rightarrow>
          (case me_div10 E n of None \<Rightarrow> obj | Some scaled \<Rightarrow> obj_insert key (JNumber scaled) obj)
      | _ \<Rightarrow> obj)"

definition apply_descaling :: "mon_env \<Rightarrow> (string \<times> json) list \<Rightarrow> (string \<times> json) list" where
  "apply_descaling E obj = fold (descale_key E) SCALED_SUMMARY_COLUMNS obj"

definition entry_new :: "mon_env \<Rightarrow> json \<Rightarrow> cached_entry" where
  "entry_new E v = \<lparr> ce_value = v, ce_serialized = me_to_string E v \<rparr>"

definition entry_new_summary :: "mon_env \<Rightarrow> json \<Rightarrow> cached_entry" where
  "entry_new_summary E v =
     (let descaled = (case as_object v of None \<Rightarrow> v | Some obj \<Rightarrow> JObject (apply_descaling E obj))
      in \<lparr> ce_value = v, ce_serialized = me_to_string E descaled \<rparr>)"

definition update_static_prebuilt :: "mon_env \<Rightarrow> uuid \<Rightarrow> json \<Rightarrow> last_cache \<Rightarrow> last_cache" where
  "update_static_prebuilt E u v c = c\<lparr> static_cache := hm_insert u (entry_new E v) (static_cache c) \<rparr>"

definition update_dynamic_prebuilt :: "mon_env \<Rightarrow> uuid \<Rightarrow> json \<Rightarrow> last_cache \<Rightarrow> last_cache" where
  "update_dynamic_prebuilt E u v c = c\<lparr> dynamic_cache := hm_insert u (entry_new E v) (dynamic_cache c) \<rparr>"

definition update_dynamic_summary_prebuilt :: "mon_env \<Rightarrow> uuid \<Rightarrow> json \<Rightarrow> last_cache \<Rightarrow> last_cache" where
  "update_dynamic_summary_prebuilt E u v c =
     c\<lparr> dynamic_summary_cache := hm_insert u (entry_new_summary E v) (dynamic_summary_cache c) \<rparr>"

definition insert_key :: "(string \<times> json) list \<Rightarrow> string \<Rightarrow> (string \<times> json) list \<Rightarrow> (string \<times> json) list" where
  "insert_key full_obj key filtered =
     (case obj_get full_obj key of None \<Rightarrow> filtered | Some v \<Rightarrow> obj_insert key v filtered)"

definition build_filtered_map :: "(string \<times> json) list \<Rightarrow> string list \<Rightarrow> json" where
  "build_filtered_map full_obj extra_keys =
     JObject
       (fold (\<lambda>key filtered.
                if key \<noteq> ''uuid'' \<and> key \<noteq> ''timestamp'' then insert_key full_obj key filtered else filtered)
          extra_keys
          (insert_key full_obj ''timestamp'' (insert_key full_obj ''uuid'' [])))"

primrec static_column_name :: "static_data_query_field \<Rightarrow> string" where
  "static_column_name StaticCpu = ''cpu_data''"
| "static_column_name StaticSystem = ''system_data''"
| "static_column_name StaticGpu = ''gpu_data''"

primrec static_json_key :: "static_data_query_field \<Rightarrow> string" where
  "static_json_key StaticCpu = ''cpu''"
| "static_json_key StaticSystem = ''system''"
| "static_json_key StaticGpu = ''gpu''"

primrec dynamic_column_name :: "dynamic_data_query_field \<Rightarrow> string" where
  "dynamic_column_name DynamicCpu = ''cpu_data''"
| "dynamic_column_name DynamicRam = ''ram_data''"
| "dynamic_column_name DynamicLoad = ''load_data''"
| "dynamic_column_name DynamicSystem = ''system_data''"
| "dynamic_column_name DynamicDisk = ''disk_data''"
| "dynamic_column_name DynamicNetwork = ''network_data''"
| "dynamic_column_name DynamicGpu = ''gpu_data''"

primrec dynamic_json_key :: "dynamic_data_query_field \<Rightarrow> string" where
  "dynamic_json_key DynamicCpu = ''cpu''"
| "dynamic_json_key DynamicRam = ''ram''"
| "dynamic_json_key DynamicLoad = ''load''"
| "dynamic_json_key DynamicSystem = ''system''"
| "dynamic_json_key DynamicDisk = ''disk''"
| "dynamic_json_key DynamicNetwork = ''network''"
| "dynamic_json_key DynamicGpu = ''gpu''"

definition get_static_last :: "last_cache \<Rightarrow> uuid \<Rightarrow> static_data_query_field list \<Rightarrow> json option" where
  "get_static_last c u flds =
     Option.bind (hm_get (static_cache c) u) (\<lambda>entry.
     Option.bind (as_object (ce_value entry)) (\<lambda>full_obj.
       Some (build_filtered_map full_obj (map static_json_key flds))))"

definition get_dynamic_last :: "last_cache \<Rightarrow> uuid \<Rightarrow> dynamic_data_query_field list \<Rightarrow> json option" where
  "get_dynamic_last c u flds =
     Option.bind (hm_get (dynamic_cache c) u) (\<lambda>entry.
     Option.bind (as_object (ce_value entry)) (\<lambda>full_obj.
       Some (build_filtered_map full_obj (map dynamic_json_key flds))))"

definition get_dynamic_summary_last :: "last_cache \<Rightarrow> uuid \<Rightarrow> dynamic_summary_query_field list \<Rightarrow> json option" where
  "get_dynamic_summary_last c u flds =
     Option.bind (hm_get (dynamic_summary_cache c) u) (\<lambda>entry.
       if flds = [] then Some (ce_value entry)
       else
         Option.bind (as_object (ce_value entry)) (\<lambda>full_obj.
           Some (build_filtered_map full_obj (map summary_column_name flds))))"

definition get_static_last_raw :: "last_cache \<Rightarrow> uuid \<Rightarrow> string option" where
  "get_static_last_raw c u = Option.bind (hm_get (static_cache c) u) ce_serialized"

definition get_dynamic_last_raw :: "last_cache \<Rightarrow> uuid \<Rightarrow> string option" where
  "get_dynamic_last_raw c u = Option.bind (hm_get (dynamic_cache c) u) ce_serialized"

definition get_dynamic_summary_last_raw :: "last_cache \<Rightarrow> uuid \<Rightarrow> string option" where
  "get_dynamic_summary_last_raw c u = Option.bind (hm_get (dynamic_summary_cache c) u) ce_serialized"

definition value_head :: "mon_env \<Rightarrow> uuid \<Rightarrow> int \<Rightarrow> (string \<times> json) list" where
  "value_head E u timestamp =
     obj_insert ''timestamp'' (json_i64 timestamp) (obj_insert ''uuid'' (JString (me_show_uuid E u)) [])"

definition build_static_value_prebuilt :: "mon_env \<Rightarrow> uuid \<Rightarrow> int \<Rightarrow> json \<Rightarrow> json \<Rightarrow> json \<Rightarrow> json" where
  "build_static_value_prebuilt E u timestamp cpu system gpu =
     JObject (obj_insert ''gpu'' gpu (obj_insert ''system'' system (obj_insert ''cpu'' cpu
       (value_head E u timestamp))))"

definition build_dynamic_value_prebuilt ::
  "mon_env \<Rightarrow> uuid \<Rightarrow> int \<Rightarrow> json \<Rightarrow> json \<Rightarrow> json \<Rightarrow> json \<Rightarrow> json \<Rightarrow> json \<Rightarrow> json \<Rightarrow> json" where
  "build_dynamic_value_prebuilt E u timestamp cpu ram load system disk network gpu =
     JObject (obj_insert ''gpu'' gpu (obj_insert ''network'' network (obj_insert ''disk'' disk
       (obj_insert ''system'' system (obj_insert ''load'' load (obj_insert ''ram'' ram
         (obj_insert ''cpu'' cpu (value_head E u timestamp))))))))"

definition opt_field ::
  "summary_values \<Rightarrow> dynamic_summary_query_field \<Rightarrow> (string \<times> json) list \<Rightarrow> (string \<times> json) list" where
  "opt_field vals f obj =
     (case vals f of None \<Rightarrow> obj | Some v \<Rightarrow> obj_insert (summary_column_name f) (json_i64 v) obj)"

definition build_dynamic_summary_value :: "mon_env \<Rightarrow> uuid \<Rightarrow> int \<Rightarrow> summary_values \<Rightarrow> json" where
  "build_dynamic_summary_value E u timestamp vals =
     JObject (fold (opt_field vals) summary_fields (value_head E u timestamp))"


section \<open>The server\<close>

text \<open>
  \<open>mw_set\<close>: the global \<^verbatim>\<open>BUFFERS\<close> holds the senders.  The caches are
  absent until they are initialised; the tables are in the lanes.
\<close>

record mon_world =
  mw_ready :: bool
  mw_uuid :: uuid_world
  mw_hash :: "static_hash_cache option"
  mw_last :: "last_cache option"
  mw_traffic :: traffic_world
  mw_set :: bool
  mw_static :: "static_row lane"
  mw_dynamic :: "dynamic_row lane"
  mw_summary :: "summary_row lane"

definition wbind :: "('e + 'a) \<times> 'w \<Rightarrow> ('a \<Rightarrow> 'w \<Rightarrow> ('e + 'b) \<times> 'w) \<Rightarrow> ('e + 'b) \<times> 'w" where
  "wbind r f = (case r of (Inl e, w) \<Rightarrow> (Inl e, w) | (Inr a, w) \<Rightarrow> f a w)"

lemma wbind_simps [simp]:
  "wbind (Inl e, w) f = (Inl e, w)" "wbind (Inr a, w) f = f a w"
  by (simp_all add: wbind_def)

lemma wbind_eq_Inr [result_simps]:
  "wbind r f = (Inr b, w') \<longleftrightarrow> (\<exists>a w. r = (Inr a, w) \<and> f a w = (Inr b, w'))"
  by (auto simp: wbind_def split: prod.splits sum.splits)

text \<open>\<^verbatim>\<open>MonitoringUuidCache::get_or_insert\<close>, run to its end.\<close>

definition agent_number :: "mon_env \<Rightarrow> uuid \<Rightarrow> mon_world \<Rightarrow> uuid_id any_result \<times> mon_world" where
  "agent_number E u w =
     (if uw_cache (mw_uuid w) = None
      then (err (ConfigNotFound ''MonitoringUuidCache not initialized''), w)
      else
        (case get_or_insert (me_uuid E) u (mw_uuid w) of
           (pc, uw) \<Rightarrow>
             (case pc of
                Returned (Inr (AnId i)) \<Rightarrow> Inr i
              | Returned (Inl e) \<Rightarrow> err (DatabaseError (''UUID cache error: '' @ anyhow_display e))
              | _ \<Rightarrow> err (DatabaseError ''UUID cache error: ''), w\<lparr> mw_uuid := uw \<rparr>)))"

definition serialized_part :: "string \<Rightarrow> string + json \<Rightarrow> json any_result" where
  "serialized_part name r = map_err (\<lambda>e. Nodeget (SerializationError (name @ '': '' @ e))) r"

definition with_last_cache :: "(last_cache \<Rightarrow> last_cache) \<Rightarrow> mon_world \<Rightarrow> unit any_result \<times> mon_world" where
  "with_last_cache f w =
     (case mw_last w of
        None \<Rightarrow> (err (ConfigNotFound ''MonitoringLastCache not initialized''), w)
      | Some c \<Rightarrow> (Inr (), w\<lparr> mw_last := Some (f c) \<rparr>))"

definition with_buffers :: "(mon_world \<Rightarrow> mon_world) \<Rightarrow> mon_world \<Rightarrow> unit any_result \<times> mon_world" where
  "with_buffers f w =
     (if mw_set w then (Inr (), f w)
      else (err (ConfigNotFound ''MonitoringBuffers not initialized''), w))"

definition mon_get_db :: "mon_world \<Rightarrow> unit any_result" where
  "mon_get_db w = (if mw_ready w then Inr () else err (DatabaseError ''DB not initialized''))"

definition store_hash :: "uuid_id \<Rightarrow> byte list \<Rightarrow> mon_world \<Rightarrow> mon_world" where
  "store_hash i h w = w\<lparr> mw_hash := map_option (hash_update i h) (mw_hash w) \<rparr>"

text \<open>The whole hash is compared in the table, its first sixteen bytes in the cache.\<close>

definition hash_exists :: "mon_env \<Rightarrow> uuid_id \<Rightarrow> byte list \<Rightarrow> mon_world \<Rightarrow> bool any_result" where
  "hash_exists E i h w =
     (case me_fault E FindHash of
        Some e \<Rightarrow> err (DatabaseError (me_display E e))
      | None \<Rightarrow>
          Inr (list_ex (\<lambda>(_, r). r_uuid_id r = i \<and> s_data_hash r = h) (mt_rows (ln_table (mw_static w)))))"


section \<open>The reports\<close>

datatype report_status = Buffered | SkippedDuplicate

definition authorise_report :: "mon_env \<Rightarrow> string \<Rightarrow> uuid \<Rightarrow> permission \<Rightarrow> string \<Rightarrow> unit any_result" where
  "authorise_report E token u perm denied =
     rbind (parse_token token) (\<lambda>cred.
     rbind (ck_limit (me_checker E) cred [AgentUuid u] [perm]) (\<lambda>is_allowed.
       if is_allowed then Inr () else err (PermissionDenied denied)))"

definition static_model ::
  "uuid_id \<Rightarrow> int \<Rightarrow> int \<Rightarrow> json \<Rightarrow> json \<Rightarrow> json \<Rightarrow> byte list \<Rightarrow> static_row" where
  "static_model i timestamp now cpu system gpu h =
     \<lparr> r_uuid_id = i, r_timestamp = timestamp, r_storage_time = Some now,
       s_cpu_data = cpu, s_system_data = system, s_gpu_data = gpu, s_data_hash = h \<rparr>"

text \<open>The part of \<^verbatim>\<open>report_static\<close> behind the fast path: the table, the buffer, the hash.\<close>

definition store_static ::
  "mon_env \<Rightarrow> uuid_id \<Rightarrow> int \<Rightarrow> json \<Rightarrow> json \<Rightarrow> json \<Rightarrow> byte list \<Rightarrow> mon_world
   \<Rightarrow> report_status any_result \<times> mon_world" where
  "store_static E i timestamp cpu system gpu h w =
     wbind (mon_get_db w, w) (\<lambda>_ w.
     wbind (hash_exists E i h w, w) (\<lambda>found w.
       if found then (Inr SkippedDuplicate, store_hash i h w)
       else
         wbind (get_local_timestamp_ms_i64 (me_clock E) (me_ntp E), w) (\<lambda>now w.
         wbind (with_buffers (\<lambda>w. w\<lparr> mw_static :=
                  buffer_send (static_model i timestamp now cpu system gpu h) (mw_static w) \<rparr>) w) (\<lambda>_ w.
           (Inr Buffered, store_hash i h w)))))"

definition report_static ::
  "mon_env \<Rightarrow> string \<Rightarrow> static_monitoring_data \<Rightarrow> mon_world \<Rightarrow> report_status any_result \<times> mon_world" where
  "report_static E token d w =
     wbind (authorise_report E token (sd_uuid d) (PStaticMonitoring StaticMonitoring_Write)
              ''Permission Denied: Missing StaticMonitoring Write permission for this Agent'', w) (\<lambda>_ w.
     wbind (agent_number E (sd_uuid d) w) (\<lambda>uuid_id w.
     let timestamp = sint (sd_time d) in
     wbind (serialized_part ''cpu_data'' (sd_cpu d), w) (\<lambda>cpu w.
     wbind (serialized_part ''system_data'' (sd_system d), w) (\<lambda>system w.
     wbind (serialized_part ''gpu_data'' (sd_gpu d), w) (\<lambda>gpu w.
     wbind (with_last_cache (update_static_prebuilt E (sd_uuid d)
              (build_static_value_prebuilt E (sd_uuid d) timestamp cpu system gpu)) w) (\<lambda>_ w.
     wbind (ok_or (Nodeget (ConfigNotFound ''StaticHashCache not initialized'')) (mw_hash w), w) (\<lambda>hashes w.
       if is_duplicate hashes uuid_id (sd_data_hash d) then (Inr SkippedDuplicate, w)
       else store_static E uuid_id timestamp cpu system gpu (sd_data_hash d) w)))))))"

definition report_dynamic ::
  "mon_env \<Rightarrow> string \<Rightarrow> dynamic_monitoring_data \<Rightarrow> mon_world \<Rightarrow> report_status any_result \<times> mon_world" where
  "report_dynamic E token d w =
     wbind (authorise_report E token (dd_uuid d) (PDynamicMonitoring DynamicMonitoring_Write)
              ''Permission Denied: Missing DynamicMonitoring Write permission for this Agent'', w) (\<lambda>_ w.
     wbind (agent_number E (dd_uuid d) w) (\<lambda>uuid_id w.
     let timestamp = sint (dd_time d) in
     wbind (get_local_timestamp_ms_i64 (me_clock E) (me_ntp E), w) (\<lambda>received_at w.
     wbind (serialized_part ''cpu_data'' (dd_cpu d), w) (\<lambda>cpu w.
     wbind (serialized_part ''ram_data'' (dd_ram d), w) (\<lambda>ram w.
     wbind (serialized_part ''load_data'' (dd_load d), w) (\<lambda>load w.
     wbind (serialized_part ''system_data'' (dd_system d), w) (\<lambda>system w.
     wbind (serialized_part ''disk_data'' (dd_disk d), w) (\<lambda>disk w.
     wbind (serialized_part ''network_data'' (dd_network d), w) (\<lambda>network w.
     wbind (serialized_part ''gpu_data'' (dd_gpu d), w) (\<lambda>gpu w.
     let in_data = \<lparr> r_uuid_id = uuid_id, r_timestamp = timestamp, r_storage_time = Some received_at,
           d_cpu_data = cpu, d_ram_data = ram, d_load_data = load, d_system_data = system,
           d_disk_data = disk, d_network_data = network, d_gpu_data = gpu \<rparr> in
     wbind (with_buffers (\<lambda>w. w\<lparr> mw_dynamic := buffer_send in_data (mw_dynamic w) \<rparr>) w) (\<lambda>_ w.
     wbind (with_last_cache (update_dynamic_prebuilt E (dd_uuid d)
              (build_dynamic_value_prebuilt E (dd_uuid d) timestamp cpu ram load system disk network gpu))
              (w\<lparr> mw_traffic := update_total_traffic uuid_id (dd_traffic d) (word_of_int received_at) (mw_traffic w) \<rparr>))
       (\<lambda>_ w. (Inr Buffered, w)))))))))))))"

definition report_dynamic_summary ::
  "mon_env \<Rightarrow> string \<Rightarrow> dynamic_monitoring_summary_data \<Rightarrow> mon_world \<Rightarrow> report_status any_result \<times> mon_world" where
  "report_dynamic_summary E token d w =
     wbind (authorise_report E token (md_uuid d) (PDynamicMonitoringSummary DynamicMonitoringSummary_Write)
              ''Permission Denied: Missing DynamicMonitoringSummary Write permission for this Agent'', w) (\<lambda>_ w.
     wbind (agent_number E (md_uuid d) w) (\<lambda>uuid_id w.
     wbind (get_local_timestamp_ms_i64 (me_clock E) (me_ntp E), w) (\<lambda>now w.
     let in_data = \<lparr> r_uuid_id = uuid_id, r_timestamp = sint (md_time d), r_storage_time = Some now,
           m_values = md_values d \<rparr> in
     wbind (with_buffers (\<lambda>w. w\<lparr> mw_summary := buffer_send in_data (mw_summary w) \<rparr>) w) (\<lambda>_ w.
     wbind (with_last_cache (update_dynamic_summary_prebuilt E (md_uuid d)
              (build_dynamic_summary_value E (md_uuid d) (sint (md_time d)) (md_values d))) w)
       (\<lambda>_ w. (Inr Buffered, w))))))"


section \<open>Start and end of the buffers\<close>

text \<open>
  \<^verbatim>\<open>init\<close> builds the three channels and starts the three tasks on the tables;
  \<^const>\<open>None\<close> is the panic of a zero capacity.  \<^verbatim>\<open>flush_and_shutdown\<close> takes
  the senders out of the global and drops them; the tasks then end by themselves.
\<close>

definition buffers_init :: "monitoring_buffer_config option \<Rightarrow> mon_world \<Rightarrow> mon_world option" where
  "buffers_init config w =
     Option.bind (lane_init config STATIC_COLUMNS (ln_table (mw_static w))) (\<lambda>s.
     Option.bind (lane_init config DYNAMIC_COLUMNS (ln_table (mw_dynamic w))) (\<lambda>d.
     Option.bind (lane_init config SUMMARY_COLUMNS (ln_table (mw_summary w))) (\<lambda>m.
       Some (w\<lparr> mw_set := True, mw_static := s, mw_dynamic := d, mw_summary := m \<rparr>))))"

definition buffers_shutdown :: "mon_world \<Rightarrow> mon_world" where
  "buffers_shutdown w =
     (if mw_set w
      then w\<lparr> mw_set := False, mw_static := buffer_close (mw_static w),
              mw_dynamic := buffer_close (mw_dynamic w), mw_summary := buffer_close (mw_summary w) \<rparr>
      else w)"

end
