(* ===== verification/Monitor_Query.thy ===== *)
theory Monitor_Query
  imports Monitor_Intake
begin

text \<open>
  Reading and deleting monitoring records
  (\<^verbatim>\<open>ng-monitoring/src/rpc/agent/query_*.rs\<close> and \<^verbatim>\<open>delete_*.rs\<close>).  The three
  tables are served by the same code over different columns; what they share is
  written once here, and each call names what is its own.

  \<^verbatim>\<open>ORDER BY timestamp\<close> leaves the order of equal timestamps open; here they
  stay in the order of the table.
\<close>


section \<open>Conditions\<close>

datatype query_condition =
    QUuid uuid
  | TimestampFromTo int int | TimestampFrom int | TimestampTo int
  | StorageTimeFromTo int int | StorageTimeFrom int | StorageTimeTo int
  | QLimit nat
  | QLast

datatype resolved_condition =
    UuidId uuid_id
  | RTimestampFromTo int int | RTimestampFrom int | RTimestampTo int
  | RStorageTimeFromTo int int | RStorageTimeFrom int | RStorageTimeTo int

definition MAX_QUERY_LIMIT :: nat where "MAX_QUERY_LIMIT = 10000"
definition DEFAULT_MONITORING_QUERY_LIMIT :: nat where "DEFAULT_MONITORING_QUERY_LIMIT = 10000"

definition cond_uuids :: "query_condition list \<Rightarrow> uuid list" where
  "cond_uuids conds = List.map_filter (\<lambda>c. case c of QUuid u \<Rightarrow> Some u | _ \<Rightarrow> None) conds"

fun dedupe :: "'a list \<Rightarrow> 'a list \<Rightarrow> 'a list" where
  "dedupe seen [] = []"
| "dedupe seen (x # xs) = (if List.member seen x then dedupe seen xs else x # dedupe (x # seen) xs)"

definition scopes_from_conditions :: "query_condition list \<Rightarrow> scope list" where
  "scopes_from_conditions conds =
     (let scs = map AgentUuid (dedupe [] (cond_uuids conds)) in if scs = [] then [Global] else scs)"

definition query_scopes :: "query_condition list \<Rightarrow> scope list" where
  "query_scopes conds =
     (let scs = map AgentUuid (cond_uuids conds) in if scs = [] then [Global] else scs)"

text \<open>The last \<^verbatim>\<open>Limit\<close> counts, and any \<^verbatim>\<open>Last\<close>.\<close>

fun limit_and_last :: "query_condition list \<Rightarrow> nat option \<times> bool \<Rightarrow> nat option \<times> bool" where
  "limit_and_last [] acc = acc"
| "limit_and_last (QLimit n # conds) (l, b) = limit_and_last conds (Some (min n MAX_QUERY_LIMIT), b)"
| "limit_and_last (QLast # conds) (l, b) = limit_and_last conds (l, True)"
| "limit_and_last (c # conds) acc = limit_and_last conds acc"

definition extract_limit_and_last :: "query_condition list \<Rightarrow> nat option \<times> bool" where
  "extract_limit_and_last conds = limit_and_last conds (None, False)"

fun resolve_conditions ::
  "(uuid \<Rightarrow> string) \<Rightarrow> uuid_cache \<Rightarrow> query_condition list \<Rightarrow> resolved_condition list any_result" where
  "resolve_conditions msg c [] = Inr []"
| "resolve_conditions msg c (QUuid u # conds) =
     rbind (ok_or (Nodeget (NotFound (msg u))) (get_id c u)) (\<lambda>i.
     rbind (resolve_conditions msg c conds) (\<lambda>rs. Inr (UuidId i # rs)))"
| "resolve_conditions msg c (TimestampFromTo a b # conds) =
     rbind (resolve_conditions msg c conds) (\<lambda>rs. Inr (RTimestampFromTo a b # rs))"
| "resolve_conditions msg c (TimestampFrom a # conds) =
     rbind (resolve_conditions msg c conds) (\<lambda>rs. Inr (RTimestampFrom a # rs))"
| "resolve_conditions msg c (TimestampTo b # conds) =
     rbind (resolve_conditions msg c conds) (\<lambda>rs. Inr (RTimestampTo b # rs))"
| "resolve_conditions msg c (StorageTimeFromTo a b # conds) =
     rbind (resolve_conditions msg c conds) (\<lambda>rs. Inr (RStorageTimeFromTo a b # rs))"
| "resolve_conditions msg c (StorageTimeFrom a # conds) =
     rbind (resolve_conditions msg c conds) (\<lambda>rs. Inr (RStorageTimeFrom a # rs))"
| "resolve_conditions msg c (StorageTimeTo b # conds) =
     rbind (resolve_conditions msg c conds) (\<lambda>rs. Inr (RStorageTimeTo b # rs))"
| "resolve_conditions msg c (QLimit n # conds) = resolve_conditions msg c conds"
| "resolve_conditions msg c (QLast # conds) = resolve_conditions msg c conds"

text \<open>A comparison with a missing storage time does not hold.\<close>

definition stored_where :: "(int \<Rightarrow> bool) \<Rightarrow> 'a mon_row_scheme \<Rightarrow> bool" where
  "stored_where P r = (case r_storage_time r of None \<Rightarrow> False | Some t \<Rightarrow> P t)"

primrec cond_holds :: "resolved_condition \<Rightarrow> 'a mon_row_scheme \<Rightarrow> bool" where
  "cond_holds (UuidId i) r = (r_uuid_id r = i)"
| "cond_holds (RTimestampFromTo a b) r = (a \<le> r_timestamp r \<and> r_timestamp r \<le> b)"
| "cond_holds (RTimestampFrom a) r = (a \<le> r_timestamp r)"
| "cond_holds (RTimestampTo b) r = (r_timestamp r \<le> b)"
| "cond_holds (RStorageTimeFromTo a b) r = stored_where (\<lambda>t. a \<le> t \<and> t \<le> b) r"
| "cond_holds (RStorageTimeFrom a) r = stored_where (\<lambda>t. a \<le> t) r"
| "cond_holds (RStorageTimeTo b) r = stored_where (\<lambda>t. t \<le> b) r"

definition apply_resolved_conditions ::
  "resolved_condition list \<Rightarrow> (nat \<times> 'a mon_row_scheme) list \<Rightarrow> (nat \<times> 'a mon_row_scheme) list" where
  "apply_resolved_conditions rs rows = filter (\<lambda>(_, r). list_all (\<lambda>c. cond_holds c r) rs) rows"

definition order_desc :: "(nat \<times> 'a mon_row_scheme) list \<Rightarrow> (nat \<times> 'a mon_row_scheme) list" where
  "order_desc rows = sort_key (\<lambda>(_, r). - r_timestamp r) rows"

definition order_asc :: "(nat \<times> 'a mon_row_scheme) list \<Rightarrow> (nat \<times> 'a mon_row_scheme) list" where
  "order_asc rows = sort_key (\<lambda>(_, r). r_timestamp r) rows"


section \<open>Answers\<close>

definition comma_separated :: "string list \<Rightarrow> string" where
  "comma_separated texts =
     (case texts of [] \<Rightarrow> [] | t # ts \<Rightarrow> t @ concat (map (\<lambda>s. CHR '','' # s) ts))"

definition array_text :: "string list \<Rightarrow> string" where
  "array_text texts = ''['' @ comma_separated texts @ '']''"

fun write_all :: "mon_env \<Rightarrow> (string + json) list \<Rightarrow> string list any_result" where
  "write_all E [] = Inr []"
| "write_all E (Inl text # rest) = rbind (write_all E rest) (\<lambda>ts. Inr (text # ts))"
| "write_all E (Inr v # rest) =
     (case me_to_string E v of
        None \<Rightarrow> err (SerializationError ''Serialization failed: '')
      | Some text \<Rightarrow> rbind (write_all E rest) (\<lambda>ts. Inr (text # ts)))"

definition write_array :: "mon_env \<Rightarrow> (string + json) list \<Rightarrow> string any_result" where
  "write_array E items = rbind (write_all E items) (\<lambda>texts. Inr (array_text texts))"

definition as_i64 :: "json_number \<Rightarrow> int option" where
  "as_i64 n =
     (case n of
        PosInt k \<Rightarrow> if int k \<le> i64_max then Some (int k) else None
      | NegInt i \<Rightarrow> Some i
      | FloatBits _ \<Rightarrow> None)"

text \<open>\<^verbatim>\<open>uuid_id\<close> out, \<^verbatim>\<open>uuid\<close> in.\<close>

definition translate_uuid :: "mon_env \<Rightarrow> uuid_cache \<Rightarrow> (string \<times> json) list \<Rightarrow> (string \<times> json) list" where
  "translate_uuid E c obj =
     (let rest = obj_remove ''uuid_id'' obj
      in (case obj_get obj ''uuid_id'' of
            Some (JNumber n) \<Rightarrow>
              (case Option.bind (as_i64 n) (\<lambda>i. get_uuid c (word_of_int i)) of
                 None \<Rightarrow> rest
               | Some u \<Rightarrow> obj_insert ''uuid'' (JString (me_show_uuid E u)) rest)
          | _ \<Rightarrow> rest))"

definition fix_json :: "mon_env \<Rightarrow> json \<Rightarrow> json" where
  "fix_json E v =
     (case v of
        JString s \<Rightarrow> (case me_from_str E s of None \<Rightarrow> v | Some parsed \<Rightarrow> parsed)
      | _ \<Rightarrow> v)"

definition rename_and_fix_json :: "mon_env \<Rightarrow> string \<times> string \<Rightarrow> (string \<times> json) list \<Rightarrow> (string \<times> json) list" where
  "rename_and_fix_json E keys obj =
     (case keys of (old_key, new_key) \<Rightarrow>
        (case obj_get obj old_key of
           None \<Rightarrow> obj
         | Some v \<Rightarrow> obj_insert new_key (fix_json E v) (obj_remove old_key obj)))"

text \<open>A row of the answer of the database: the number, the time and the selected columns.\<close>

definition selected :: "(string \<times> json) list \<Rightarrow> 'a mon_row_scheme \<Rightarrow> (string \<times> json) list" where
  "selected columns r =
     fold (\<lambda>(k, v). obj_insert k v) columns
       (obj_insert ''timestamp'' (json_i64 (r_timestamp r)) (obj_insert ''uuid_id'' (json_i64 (sint (r_uuid_id r))) []))"

primrec static_column :: "static_row \<Rightarrow> static_data_query_field \<Rightarrow> json" where
  "static_column r StaticCpu = s_cpu_data r"
| "static_column r StaticSystem = s_system_data r"
| "static_column r StaticGpu = s_gpu_data r"

primrec dynamic_column :: "dynamic_row \<Rightarrow> dynamic_data_query_field \<Rightarrow> json" where
  "dynamic_column r DynamicCpu = d_cpu_data r"
| "dynamic_column r DynamicRam = d_ram_data r"
| "dynamic_column r DynamicLoad = d_load_data r"
| "dynamic_column r DynamicSystem = d_system_data r"
| "dynamic_column r DynamicDisk = d_disk_data r"
| "dynamic_column r DynamicNetwork = d_network_data r"
| "dynamic_column r DynamicGpu = d_gpu_data r"

definition static_json :: "mon_env \<Rightarrow> uuid_cache \<Rightarrow> static_data_query_field list \<Rightarrow> static_row \<Rightarrow> json" where
  "static_json E c flds r =
     JObject (fold (rename_and_fix_json E) (map (\<lambda>f. (static_column_name f, static_json_key f)) flds)
       (translate_uuid E c
         (selected (map (\<lambda>f. (static_column_name f, me_column E (static_column r f))) flds) r)))"

definition dynamic_json :: "mon_env \<Rightarrow> uuid_cache \<Rightarrow> dynamic_data_query_field list \<Rightarrow> dynamic_row \<Rightarrow> json" where
  "dynamic_json E c flds r =
     JObject (fold (rename_and_fix_json E) (map (\<lambda>f. (dynamic_column_name f, dynamic_json_key f)) flds)
       (translate_uuid E c
         (selected (map (\<lambda>f. (dynamic_column_name f, me_column E (dynamic_column r f))) flds) r)))"

text \<open>No field selects every column; a missing value is the JSON null.\<close>

definition summary_json :: "mon_env \<Rightarrow> uuid_cache \<Rightarrow> dynamic_summary_query_field list \<Rightarrow> summary_row \<Rightarrow> json" where
  "summary_json E c flds r =
     JObject (apply_descaling E (translate_uuid E c
       (selected
          (map (\<lambda>f. (summary_column_name f, case m_values r f of None \<Rightarrow> JNull | Some v \<Rightarrow> json_i64 v))
             (if flds = [] then summary_fields else flds)) r)))"


section \<open>Queries\<close>

text \<open>With no field, one of the permissions is enough; they are tried in turn.\<close>

fun any_allowed :: "limit_checker \<Rightarrow> token_or_auth \<Rightarrow> scope list \<Rightarrow> permission list \<Rightarrow> bool any_result" where
  "any_allowed C cred scs [] = Inr False"
| "any_allowed C cred scs (p # ps) =
     rbind (ck_limit C cred scs [p]) (\<lambda>b. if b then Inr True else any_allowed C cred scs ps)"

definition fields_allowed ::
  "limit_checker \<Rightarrow> token_or_auth \<Rightarrow> scope list \<Rightarrow> permission list \<Rightarrow> permission list \<Rightarrow> bool any_result" where
  "fields_allowed C cred scs wanted every =
     (if wanted = [] then any_allowed C cred scs every else ck_limit C cred scs wanted)"

definition unknown_agent :: "mon_env \<Rightarrow> uuid \<Rightarrow> string" where
  "unknown_agent E u = ''Unknown agent UUID: '' @ me_show_uuid E u"

definition not_registered :: "mon_env \<Rightarrow> uuid \<Rightarrow> string" where
  "not_registered E u = ''Agent UUID not found in monitoring registry: '' @ me_show_uuid E u"

definition mon_uuid_cache :: "mon_world \<Rightarrow> uuid_cache any_result" where
  "mon_uuid_cache w =
     ok_or (Nodeget (ConfigNotFound ''MonitoringUuidCache not initialized'')) (uw_cache (mw_uuid w))"

definition page :: "nat option \<times> bool \<Rightarrow> (nat \<times> 'a mon_row_scheme) list \<Rightarrow> (nat \<times> 'a mon_row_scheme) list" where
  "page lim rows =
     (if snd lim then take 1 (order_desc rows)
      else (case fst lim of
              Some l \<Rightarrow> take l (order_desc rows)
            | None \<Rightarrow> take DEFAULT_MONITORING_QUERY_LIMIT (order_asc rows)))"

text \<open>The body the three queries share, once the permission is known; the stream may fail
  when it opens and at any row.\<close>

definition run_query ::
  "mon_env \<Rightarrow> (uuid_cache \<Rightarrow> 'a mon_row_scheme \<Rightarrow> json) \<Rightarrow> query_condition list
   \<Rightarrow> 'a mon_row_scheme mon_table \<Rightarrow> mon_world \<Rightarrow> string any_result" where
  "run_query E row_json conds t w =
     rbind (mon_get_db w) (\<lambda>_.
     rbind (mon_uuid_cache w) (\<lambda>c.
     rbind (resolve_conditions (unknown_agent E) c conds) (\<lambda>rs.
       (case me_fault E SelectRows of
          Some e \<Rightarrow> err (DatabaseError (''Database query error: '' @ me_display E e))
        | None \<Rightarrow>
            (case me_fault E StreamRows of
               Some e \<Rightarrow> err (DatabaseError (''Stream read error: '' @ me_display E e))
             | None \<Rightarrow>
                 write_array E (map (\<lambda>(_, r). Inr (row_json c r))
                   (page (extract_limit_and_last conds)
                      (apply_resolved_conditions rs (mt_rows t)))))))))"

definition query_static ::
  "mon_env \<Rightarrow> string \<Rightarrow> static_data_query_field list \<Rightarrow> query_condition list \<Rightarrow> mon_world \<Rightarrow> string any_result" where
  "query_static E token flds conds w =
     rbind (parse_token token) (\<lambda>cred.
     rbind (fields_allowed (me_checker E) cred (query_scopes conds)
              (map (\<lambda>f. PStaticMonitoring (StaticMonitoring_Read f)) flds)
              (map (\<lambda>f. PStaticMonitoring (StaticMonitoring_Read f)) [StaticCpu, StaticSystem, StaticGpu]))
       (\<lambda>is_allowed.
          if \<not> is_allowed
          then err (PermissionDenied ''Permission Denied: Insufficient StaticMonitoring Read permissions'')
          else run_query E (\<lambda>c. static_json E c flds) conds (ln_table (mw_static w)) w))"

definition query_dynamic ::
  "mon_env \<Rightarrow> string \<Rightarrow> dynamic_data_query_field list \<Rightarrow> query_condition list \<Rightarrow> mon_world \<Rightarrow> string any_result" where
  "query_dynamic E token flds conds w =
     rbind (parse_token token) (\<lambda>cred.
     rbind (fields_allowed (me_checker E) cred (query_scopes conds)
              (map (\<lambda>f. PDynamicMonitoring (DynamicMonitoring_Read f)) flds)
              (map (\<lambda>f. PDynamicMonitoring (DynamicMonitoring_Read f))
                 [DynamicCpu, DynamicRam, DynamicLoad, DynamicSystem, DynamicDisk, DynamicNetwork, DynamicGpu]))
       (\<lambda>is_allowed.
          if \<not> is_allowed
          then err (PermissionDenied ''Permission Denied: Insufficient DynamicMonitoring Read permissions'')
          else run_query E (\<lambda>c. dynamic_json E c flds) conds (ln_table (mw_dynamic w)) w))"

definition query_dynamic_summary ::
  "mon_env \<Rightarrow> string \<Rightarrow> dynamic_summary_query_field list \<Rightarrow> query_condition list \<Rightarrow> mon_world \<Rightarrow> string any_result" where
  "query_dynamic_summary E token flds conds w =
     rbind (parse_token token) (\<lambda>cred.
     rbind (ck_limit (me_checker E) cred (query_scopes conds)
              [PDynamicMonitoringSummary DynamicMonitoringSummary_Read])
       (\<lambda>is_allowed.
          if \<not> is_allowed
          then err (PermissionDenied ''Permission Denied: Missing DynamicMonitoringSummary Read permission'')
          else run_query E (\<lambda>c. summary_json E c flds) conds (ln_table (mw_summary w)) w))"


section \<open>The newest record of several agents\<close>

fun resolve_all :: "(uuid \<Rightarrow> string) \<Rightarrow> uuid_cache \<Rightarrow> uuid list \<Rightarrow> (uuid \<times> uuid_id) list any_result" where
  "resolve_all msg c [] = Inr []"
| "resolve_all msg c (u # us) =
     rbind (ok_or (Nodeget (NotFound (msg u))) (get_id c u)) (\<lambda>i.
     rbind (resolve_all msg c us) (\<lambda>ps. Inr ((u, i) # ps)))"

definition last_row_of :: "uuid_id \<Rightarrow> (nat \<times> 'a mon_row_scheme) list \<Rightarrow> 'a mon_row_scheme option" where
  "last_row_of i rows =
     (case order_desc (filter (\<lambda>(_, r). r_uuid_id r = i) rows) of [] \<Rightarrow> None | (_, r) # _ \<Rightarrow> Some r)"

text \<open>
  \<open>fill_misses\<close> is the \<^verbatim>\<open>zip\<close> of the rows of the database with the
  positions that missed the cache: the rows go to the first such positions.
\<close>

fun fill_misses :: "(string + json) option list \<Rightarrow> json list \<Rightarrow> (string + json) list" where
  "fill_misses [] vs = []"
| "fill_misses (Some x # hits) vs = x # fill_misses hits vs"
| "fill_misses (None # hits) [] = fill_misses hits []"
| "fill_misses (None # hits) (v # vs) = Inr v # fill_misses hits vs"

definition multi_last ::
  "mon_env \<Rightarrow> (last_cache \<Rightarrow> uuid \<Rightarrow> (string + json) option) \<Rightarrow> (uuid_cache \<Rightarrow> 'a mon_row_scheme \<Rightarrow> json)
   \<Rightarrow> uuid list \<Rightarrow> 'a mon_row_scheme mon_table \<Rightarrow> mon_world \<Rightarrow> string any_result" where
  "multi_last E hit row_json us t w =
     rbind (mon_get_db w) (\<lambda>_.
     rbind (mon_uuid_cache w) (\<lambda>c.
     rbind (resolve_all (not_registered E) c us) (\<lambda>pairs.
     rbind (ok_or (Nodeget (ConfigNotFound ''MonitoringLastCache not initialized'')) (mw_last w)) (\<lambda>last_cache.
       let hits = map (\<lambda>(u, _). hit last_cache u) pairs;
           missed = filter (\<lambda>(u, _). hit last_cache u = None) pairs
       in if missed = [] then write_array E (fill_misses hits [])
          else
            (case me_fault E SelectRows of
               Some e \<Rightarrow> err (DatabaseError (''Database query error: '' @ me_display E e))
             | None \<Rightarrow>
                 (case me_fault E StreamRows of
                    Some e \<Rightarrow> err (DatabaseError (''Stream read error: '' @ me_display E e))
                  | None \<Rightarrow>
                      write_array E (fill_misses hits
                        (map (row_json c) (List.map_filter (\<lambda>(_, i). last_row_of i (mt_rows t)) missed)))))))))"

definition is_all_static_fields :: "static_data_query_field list \<Rightarrow> bool" where
  "is_all_static_fields flds \<longleftrightarrow> set flds = set [StaticCpu, StaticSystem, StaticGpu]"

definition is_all_dynamic_fields :: "dynamic_data_query_field list \<Rightarrow> bool" where
  "is_all_dynamic_fields flds \<longleftrightarrow>
     set flds = set [DynamicCpu, DynamicRam, DynamicLoad, DynamicSystem, DynamicDisk, DynamicNetwork, DynamicGpu]"

definition static_hit :: "static_data_query_field list \<Rightarrow> last_cache \<Rightarrow> uuid \<Rightarrow> (string + json) option" where
  "static_hit flds c u =
     (if is_all_static_fields flds then map_option Inl (get_static_last_raw c u)
      else map_option Inr (get_static_last c u flds))"

definition dynamic_hit :: "dynamic_data_query_field list \<Rightarrow> last_cache \<Rightarrow> uuid \<Rightarrow> (string + json) option" where
  "dynamic_hit flds c u =
     (if is_all_dynamic_fields flds then map_option Inl (get_dynamic_last_raw c u)
      else map_option Inr (get_dynamic_last c u flds))"

definition descale_cached_summary :: "mon_env \<Rightarrow> json \<Rightarrow> json" where
  "descale_cached_summary E v =
     (case as_object v of None \<Rightarrow> v | Some obj \<Rightarrow> JObject (apply_descaling E obj))"

definition summary_hit :: "mon_env \<Rightarrow> dynamic_summary_query_field list \<Rightarrow> last_cache \<Rightarrow> uuid \<Rightarrow> (string + json) option" where
  "summary_hit E flds c u =
     (if flds = [] then map_option Inl (get_dynamic_summary_last_raw c u)
      else map_option (\<lambda>v. Inr (descale_cached_summary E v)) (get_dynamic_summary_last c u flds))"

definition static_data_multi_last_query ::
  "mon_env \<Rightarrow> string \<Rightarrow> uuid list \<Rightarrow> static_data_query_field list \<Rightarrow> mon_world \<Rightarrow> string any_result" where
  "static_data_multi_last_query E token uuids flds w =
     rbind (parse_token token) (\<lambda>cred.
     let us = dedupe [] uuids in
     if us = [] then Inr ''[]''
     else
       rbind (fields_allowed (me_checker E) cred (map AgentUuid us)
                (map (\<lambda>f. PStaticMonitoring (StaticMonitoring_Read f)) flds)
                (map (\<lambda>f. PStaticMonitoring (StaticMonitoring_Read f)) [StaticCpu, StaticSystem, StaticGpu]))
         (\<lambda>is_allowed.
            if \<not> is_allowed
            then err (PermissionDenied ''Permission Denied: Insufficient StaticMonitoring Read permissions'')
            else multi_last E (static_hit flds) (\<lambda>c. static_json E c flds) us (ln_table (mw_static w)) w))"

definition dynamic_data_multi_last_query ::
  "mon_env \<Rightarrow> string \<Rightarrow> uuid list \<Rightarrow> dynamic_data_query_field list \<Rightarrow> mon_world \<Rightarrow> string any_result" where
  "dynamic_data_multi_last_query E token uuids flds w =
     rbind (parse_token token) (\<lambda>cred.
     let us = dedupe [] uuids in
     if us = [] then Inr ''[]''
     else
       rbind (fields_allowed (me_checker E) cred (map AgentUuid us)
                (map (\<lambda>f. PDynamicMonitoring (DynamicMonitoring_Read f)) flds)
                (map (\<lambda>f. PDynamicMonitoring (DynamicMonitoring_Read f))
                   [DynamicCpu, DynamicRam, DynamicLoad, DynamicSystem, DynamicDisk, DynamicNetwork, DynamicGpu]))
         (\<lambda>is_allowed.
            if \<not> is_allowed
            then err (PermissionDenied ''Permission Denied: Insufficient DynamicMonitoring Read permissions'')
            else multi_last E (dynamic_hit flds) (\<lambda>c. dynamic_json E c flds) us (ln_table (mw_dynamic w)) w))"

definition dynamic_summary_multi_last_query ::
  "mon_env \<Rightarrow> string \<Rightarrow> uuid list \<Rightarrow> dynamic_summary_query_field list \<Rightarrow> mon_world \<Rightarrow> string any_result" where
  "dynamic_summary_multi_last_query E token uuids flds w =
     rbind (parse_token token) (\<lambda>cred.
     let us = dedupe [] uuids in
     if us = [] then Inr ''[]''
     else
       rbind (ck_limit (me_checker E) cred (map AgentUuid us)
                [PDynamicMonitoringSummary DynamicMonitoringSummary_Read])
         (\<lambda>is_allowed.
            if \<not> is_allowed
            then err (PermissionDenied ''Permission Denied: Missing DynamicMonitoringSummary Read permission'')
            else multi_last E (summary_hit E flds) (\<lambda>c. summary_json E c flds) us (ln_table (mw_summary w)) w))"


section \<open>Deletions\<close>

text \<open>
  With \<^verbatim>\<open>Last\<close> or \<^verbatim>\<open>Limit\<close> the keys of the newest matching rows are read
  first and then deleted; without them the matching rows are deleted at once.  The
  result is the number of deleted rows.
\<close>

definition delete_selected ::
  "mon_env \<Rightarrow> resolved_condition list \<Rightarrow> nat option \<times> bool \<Rightarrow> 'a mon_row_scheme mon_table
   \<Rightarrow> nat any_result \<times> 'a mon_row_scheme mon_table" where
  "delete_selected E rs lim t =
     (if snd lim \<or> fst lim \<noteq> None then
        (case me_fault E SelectRows of
           Some e \<Rightarrow> (err (DatabaseError (''Database query error: '' @ me_display E e)), t)
         | None \<Rightarrow>
             let n = (if snd lim then 1 else case fst lim of None \<Rightarrow> 0 | Some l \<Rightarrow> l);
                 ids = map fst (take n (order_desc (apply_resolved_conditions rs (mt_rows t))))
             in if ids = [] then (Inr 0, t)
                else
                  (case me_fault E DeleteRows of
                     Some e \<Rightarrow> (err (DatabaseError (''Database delete error: '' @ me_display E e)), t)
                   | None \<Rightarrow>
                       (Inr (length (filter (\<lambda>(i, _). List.member ids i) (mt_rows t))),
                        t\<lparr> mt_rows := filter (\<lambda>(i, _). \<not> List.member ids i) (mt_rows t) \<rparr>)))
      else
        (case me_fault E DeleteRows of
           Some e \<Rightarrow> (err (DatabaseError (''Database delete error: '' @ me_display E e)), t)
         | None \<Rightarrow>
             (Inr (length (apply_resolved_conditions rs (mt_rows t))),
              t\<lparr> mt_rows := filter (\<lambda>(_, r). \<not> list_all (\<lambda>c. cond_holds c r) rs) (mt_rows t) \<rparr>)))"

definition run_delete ::
  "mon_env \<Rightarrow> query_condition list \<Rightarrow> 'a mon_row_scheme mon_table \<Rightarrow> mon_world
   \<Rightarrow> nat any_result \<times> 'a mon_row_scheme mon_table" where
  "run_delete E conds t w =
     wbind (mon_get_db w, t) (\<lambda>_ t.
     wbind (mon_uuid_cache w, t) (\<lambda>c t.
     wbind (resolve_conditions (not_registered E) c conds, t) (\<lambda>rs t.
       delete_selected E rs (extract_limit_and_last conds) t)))"

definition set_table :: "'a mon_table \<Rightarrow> 'a lane \<Rightarrow> 'a lane" where
  "set_table t ln = ln\<lparr> ln_table := t \<rparr>"

definition delete_static ::
  "mon_env \<Rightarrow> string \<Rightarrow> query_condition list \<Rightarrow> mon_world \<Rightarrow> nat any_result \<times> mon_world" where
  "delete_static E token conds w =
     wbind (parse_token token, w) (\<lambda>cred w.
     wbind (ck_limit (me_checker E) cred (scopes_from_conditions conds)
              [PStaticMonitoring StaticMonitoring_Delete], w) (\<lambda>is_allowed w.
       if \<not> is_allowed
       then (err (PermissionDenied
              ''Permission Denied: Missing StaticMonitoring Delete permission for requested scope''), w)
       else
         (case run_delete E conds (ln_table (mw_static w)) w of
            (r, t) \<Rightarrow> (r, w\<lparr> mw_static := set_table t (mw_static w) \<rparr>))))"

text \<open>The other two ask the registered checker, which must be there.\<close>

definition delete_dynamic ::
  "mon_env \<Rightarrow> string \<Rightarrow> query_condition list \<Rightarrow> mon_world \<Rightarrow> nat any_result \<times> mon_world" where
  "delete_dynamic E token conds w =
     wbind (parse_token token, w) (\<lambda>cred w.
     wbind (get_checker (checker.truncate (me_checker E)), w) (\<lambda>_ w.
     wbind (ck_limit (me_checker E) cred (scopes_from_conditions conds)
              [PDynamicMonitoring DynamicMonitoring_Delete], w) (\<lambda>is_allowed w.
       if \<not> is_allowed
       then (err (PermissionDenied
              ''Permission Denied: Missing DynamicMonitoring Delete permission for requested scope''), w)
       else
         (case run_delete E conds (ln_table (mw_dynamic w)) w of
            (r, t) \<Rightarrow> (r, w\<lparr> mw_dynamic := set_table t (mw_dynamic w) \<rparr>)))))"

definition delete_dynamic_summary ::
  "mon_env \<Rightarrow> string \<Rightarrow> query_condition list \<Rightarrow> mon_world \<Rightarrow> nat any_result \<times> mon_world" where
  "delete_dynamic_summary E token conds w =
     wbind (parse_token token, w) (\<lambda>cred w.
     wbind (get_checker (checker.truncate (me_checker E)), w) (\<lambda>_ w.
     wbind (ck_limit (me_checker E) cred (scopes_from_conditions conds)
              [PDynamicMonitoringSummary DynamicMonitoringSummary_Delete], w) (\<lambda>is_allowed w.
       if \<not> is_allowed
       then (err (PermissionDenied
              ''Permission Denied: Missing DynamicMonitoringSummary Delete permission''), w)
       else
         (case run_delete E conds (ln_table (mw_summary w)) w of
            (r, t) \<Rightarrow> (r, w\<lparr> mw_summary := set_table t (mw_summary w) \<rparr>)))))"

end
