(* ===== verification/Monitor_Lemmas.thy ===== *)
theory Monitor_Lemmas
  imports Monitor_Query Uuid_Props
begin

text \<open>
  Lemmas on the monitoring pipeline: the invariant of a lane and its steps, the
  end of a lane whose channel is closed, JSON objects as sorted maps, and the
  record a query builds from a row, which is the record the last-value cache
  built from the report.
\<close>


section \<open>Tables\<close>

lemma contents_insert_many [simp]:
  "map snd (mt_rows (insert_many xs t)) = map snd (mt_rows t) @ xs"
  by (simp add: insert_many_def map_snd_zip)

lemma mon_table_ok_insert: "mon_table_ok t \<Longrightarrow> mon_table_ok (insert_many xs t)"
  by (fastforce simp: mon_table_ok_def insert_many_def dest: set_zip_leftD)


section \<open>One lane\<close>

lemma lane_events_Nil [simp]: "accepted [] = []" "handled [] = []" "inserted [] = []"
  by (simp_all add: accepted_def handled_def inserted_def)

lemma lane_events_Cons [simp]:
  "accepted (ev # evs) = accepted_of ev @ accepted evs"
  "handled (ev # evs) = handled_of ev @ handled evs"
  "inserted (ev # evs) = inserted_of ev @ inserted evs"
  by (simp_all add: accepted_def handled_def inserted_def)

lemma lane_events_append [simp]:
  "accepted (evs @ evs') = accepted evs @ accepted evs'"
  "handled (evs @ evs') = handled evs @ handled evs'"
  "inserted (evs @ evs') = inserted evs @ inserted evs'"
  by (simp_all add: accepted_def handled_def inserted_def)

text \<open>What holds at every point of the task.\<close>

definition pc_ok :: "bool \<Rightarrow> nat \<Rightarrow> nat \<Rightarrow> 'a list \<Rightarrow> 'a loop_pc \<Rightarrow> bool" where
  "pc_ok sqlite max_batch columns q pc =
     (case pc of
        Waiting buf \<Rightarrow> buf = []
      | Draining buf \<Rightarrow> length buf \<le> max 1 max_batch
      | Flushing final chunk batch \<Rightarrow>
          \<not> final \<and> 0 < chunk \<and> length batch \<le> max 1 max_batch
          \<and> (sqlite \<longrightarrow> chunk * columns \<le> SQLITE_MAX_VARIABLE_NUMBER)
      | Exited \<Rightarrow> q = [])"

definition lane_ok :: "bool \<Rightarrow> 'a lane \<Rightarrow> bool" where
  "lane_ok sqlite ln \<longleftrightarrow>
     ln_columns ln \<le> SQLITE_MAX_VARIABLE_NUMBER \<and> length (ln_queue ln) \<le> ln_cap ln
     \<and> (ln_closed ln = (\<not> ln_tx ln))
     \<and> pc_ok sqlite (ln_max_batch ln) (ln_columns ln) (ln_queue ln) (ln_pc ln)"

lemma chunk_size_pos: "columns \<le> SQLITE_MAX_VARIABLE_NUMBER \<Longrightarrow> 0 < n \<Longrightarrow> 0 < chunk_size b columns n"
  by (auto simp: chunk_size_def SQLITE_MAX_VARIABLE_NUMBER_def div_greater_zero_iff)

lemma chunk_size_fits: "chunk_size True columns n * columns \<le> SQLITE_MAX_VARIABLE_NUMBER"
proof -
  have "chunk_size True columns n * columns \<le> SQLITE_MAX_VARIABLE_NUMBER div max columns 1 * max columns 1"
    by (intro mult_mono) (auto simp: chunk_size_def)
  also have "\<dots> \<le> SQLITE_MAX_VARIABLE_NUMBER" by (rule div_times_less_eq_dividend)
  finally show ?thesis .
qed

lemmas lane_step_defs = loop_next_def loop_wait_def loop_drain_def do_flush_def flush_chunk_def
  after_flush_def Let_def

lemma loop_next_const:
  assumes "loop_next E ln = (ln', ev)"
  shows "ln_cap ln' = ln_cap ln \<and> ln_max_batch ln' = ln_max_batch ln \<and> ln_columns ln' = ln_columns ln
    \<and> ln_tx ln' = ln_tx ln \<and> ln_closed ln' = ln_closed ln"
  using assms by (auto simp: lane_step_defs split: loop_pc.splits list.splits if_splits option.splits)

lemma lane_ok_pc:
  "lane_ok sqlite (ln\<lparr> ln_pc := pc \<rparr>) \<longleftrightarrow>
     ln_columns ln \<le> SQLITE_MAX_VARIABLE_NUMBER \<and> length (ln_queue ln) \<le> ln_cap ln
     \<and> (ln_closed ln = (\<not> ln_tx ln))
     \<and> pc_ok sqlite (ln_max_batch ln) (ln_columns ln) (ln_queue ln) pc"
  by (simp add: lane_ok_def)

lemma do_flush_ok:
  assumes "do_flush E False batch ln = (ln', ev)" and "lane_ok (le_sqlite E) ln"
    and "length batch \<le> max 1 (ln_max_batch ln)"
  shows "lane_ok (le_sqlite E) ln'"
proof -
  have cols: "ln_columns ln \<le> SQLITE_MAX_VARIABLE_NUMBER" using assms(2) by (simp add: lane_ok_def)
  have pos: "0 < chunk_size (le_sqlite E) (ln_columns ln) (length batch)" if "batch \<noteq> []"
    using chunk_size_pos [OF cols] that by simp
  have fits: "chunk_size (le_sqlite E) (ln_columns ln) (length batch) * ln_columns ln \<le> SQLITE_MAX_VARIABLE_NUMBER"
    if "le_sqlite E" using chunk_size_fits that by simp
  have "lane_ok (le_sqlite E) (ln\<lparr> ln_pc := Waiting [] \<rparr>)"
    using assms(2) by (simp add: lane_ok_def pc_ok_def)
  moreover have "batch \<noteq> [] \<Longrightarrow> lane_ok (le_sqlite E)
      (ln\<lparr> ln_pc := Flushing False (chunk_size (le_sqlite E) (ln_columns ln) (length batch)) batch \<rparr>)"
    using assms(2,3) pos fits unfolding lane_ok_pc by (simp add: lane_ok_def pc_ok_def)
  ultimately show ?thesis using assms(1) by (auto simp: do_flush_def after_flush_def split: if_splits)
qed

lemma loop_wait_ok:
  assumes "loop_wait E buf ln = (ln', ev)" and "lane_ok (le_sqlite E) ln" and "ln_pc ln = Waiting buf"
  shows "lane_ok (le_sqlite E) ln'"
proof -
  have "buf = []" using assms(2,3) by (simp add: lane_ok_def pc_ok_def)
  with assms show ?thesis
    by (auto simp: loop_wait_def lane_ok_def pc_ok_def split: list.splits if_splits)
qed

lemma loop_drain_ok:
  assumes "loop_drain E buf ln = (ln', ev)" and "lane_ok (le_sqlite E) ln" and "ln_pc ln = Draining buf"
  shows "lane_ok (le_sqlite E) ln'"
proof -
  have len: "length buf \<le> max 1 (ln_max_batch ln)" using assms(2,3) by (simp add: lane_ok_def pc_ok_def)
  consider (pop) "length buf < ln_max_batch ln" "ln_queue ln \<noteq> []"
      "ln' = ln\<lparr> ln_queue := tl (ln_queue ln), ln_pc := Draining (buf @ [hd (ln_queue ln)]) \<rparr>"
    | (flush) "do_flush E False buf ln = (ln', ev)"
    | (idle) "ln' = ln\<lparr> ln_pc := Waiting [] \<rparr>"
    using assms(1) by (auto simp: loop_drain_def split: if_splits)
  then show ?thesis
  proof cases
    case pop
    with assms(2) show ?thesis by (auto simp: lane_ok_def pc_ok_def)
  next
    case flush
    then show ?thesis using assms(2) len by (rule do_flush_ok)
  next
    case idle
    with assms(2) show ?thesis by (simp add: lane_ok_def pc_ok_def)
  qed
qed

lemma flush_chunk_ok:
  assumes "flush_chunk E final chunk batch ln = (ln', ev)" and "lane_ok (le_sqlite E) ln"
    and "ln_pc ln = Flushing final chunk batch"
  shows "lane_ok (le_sqlite E) ln'"
  using assms by (auto simp: flush_chunk_def after_flush_def lane_ok_def pc_ok_def Let_def split: if_splits option.splits)

lemma loop_next_ok:
  assumes "loop_next E ln = (ln', ev)" and "lane_ok (le_sqlite E) ln"
  shows "lane_ok (le_sqlite E) ln'"
proof (cases "ln_pc ln")
  case (Waiting buf)
  then show ?thesis using assms loop_wait_ok by (simp add: loop_next_def)
next
  case (Draining buf)
  then show ?thesis using assms loop_drain_ok by (simp add: loop_next_def)
next
  case (Flushing final chunk batch)
  then show ?thesis using assms flush_chunk_ok by (simp add: loop_next_def)
next
  case Exited
  then show ?thesis using assms by (simp add: loop_next_def)
qed

lemma loop_next_conserves:
  assumes "loop_next E ln = (ln', ev)" and "lane_ok (le_sqlite E) ln"
  shows "accepted_of ev = [] \<and> in_flight (ln_pc ln) @ ln_queue ln = handled_of ev @ in_flight (ln_pc ln') @ ln_queue ln'"
  using assms
  by (auto simp: lane_step_defs lane_ok_def pc_ok_def split: loop_pc.splits list.splits if_splits option.splits)

lemma loop_next_table:
  assumes "loop_next E ln = (ln', ev)"
  shows "ln_table ln' = (if inserted_of ev = [] then ln_table ln else insert_many (inserted_of ev) (ln_table ln))"
  using assms
  by (auto simp: lane_step_defs insert_many_def split: loop_pc.splits list.splits if_splits option.splits)

lemma loop_next_fits:
  assumes "loop_next E ln = (ln', ev)" and "lane_ok (le_sqlite E) ln"
  shows "statement_fits (le_sqlite E) (ln_max_batch ln) (ln_columns ln) ev"
proof (cases "statement_of ev")
  case (Some xs)
  then obtain final chunk batch where pc: "ln_pc ln = Flushing final chunk batch"
    and xs: "xs = take (min chunk (length batch)) batch" and ne: "batch \<noteq> []"
    using assms(1)
    by (auto simp: lane_step_defs split: loop_pc.splits list.splits if_splits option.splits)
  have ok: "0 < chunk" "length batch \<le> max 1 (ln_max_batch ln)"
    "le_sqlite E \<longrightarrow> chunk * ln_columns ln \<le> SQLITE_MAX_VARIABLE_NUMBER"
    using assms(2) by (auto simp: lane_ok_def pc_ok_def pc)
  have "length xs \<le> chunk" "length xs \<le> length batch" by (simp_all add: xs)
  have "length xs * ln_columns ln \<le> chunk * ln_columns ln" using \<open>length xs \<le> chunk\<close> by (rule mult_le_mono1)
  then have "le_sqlite E \<longrightarrow> length xs * ln_columns ln \<le> SQLITE_MAX_VARIABLE_NUMBER"
    using ok(3) by (meson order_trans)
  moreover have "length xs \<le> max 1 (ln_max_batch ln)" using \<open>length xs \<le> length batch\<close> ok(2) by simp
  moreover have "xs \<noteq> []" using ok(1) ne by (simp add: xs)
  ultimately show ?thesis using Some by (simp add: statement_fits_def)
qed (simp add: statement_fits_def)

lemma buffer_send_step:
  assumes "lane_ok sqlite ln"
  shows "lane_ok sqlite (buffer_send x ln)"
    and "in_flight (ln_pc (buffer_send x ln)) @ ln_queue (buffer_send x ln)
      = in_flight (ln_pc ln) @ ln_queue ln @ accepted_of (send_event x ln)"
    and "handled_of (send_event x ln) = []" and "inserted_of (send_event x ln) = []"
    and "statement_of (send_event x ln) = None"
proof -
  show "lane_ok sqlite (buffer_send x ln)"
    using assms by (cases "ln_pc ln") (simp_all add: buffer_send_def try_send_ok_def lane_ok_def pc_ok_def)
qed (simp_all add: buffer_send_def send_event_def)

lemma buffer_send_const [simp]:
  "ln_cap (buffer_send x ln) = ln_cap ln" "ln_max_batch (buffer_send x ln) = ln_max_batch ln"
  "ln_columns (buffer_send x ln) = ln_columns ln" "ln_table (buffer_send x ln) = ln_table ln"
  "ln_tx (buffer_send x ln) = ln_tx ln" "ln_closed (buffer_send x ln) = ln_closed ln"
  by (simp_all add: buffer_send_def)

lemma buffer_close_const [simp]:
  "ln_cap (buffer_close ln) = ln_cap ln" "ln_max_batch (buffer_close ln) = ln_max_batch ln"
  "ln_columns (buffer_close ln) = ln_columns ln" "ln_table (buffer_close ln) = ln_table ln"
  "ln_queue (buffer_close ln) = ln_queue ln" "ln_pc (buffer_close ln) = ln_pc ln"
  by (simp_all add: buffer_close_def)

lemma buffer_close_ok: "lane_ok sqlite ln \<Longrightarrow> lane_ok sqlite (buffer_close ln)"
  by (simp add: buffer_close_def lane_ok_def)

text \<open>The whole of a run.\<close>

lemma lane_run_inv:
  assumes "lane_run sqlite ln\<^sub>0 evs ln" and "lane_ok sqlite ln\<^sub>0" and "mon_table_ok (ln_table ln\<^sub>0)"
  shows "lane_ok sqlite ln \<and> mon_table_ok (ln_table ln)
    \<and> ln_cap ln = ln_cap ln\<^sub>0 \<and> ln_max_batch ln = ln_max_batch ln\<^sub>0 \<and> ln_columns ln = ln_columns ln\<^sub>0
    \<and> in_flight (ln_pc ln\<^sub>0) @ ln_queue ln\<^sub>0 @ accepted evs = handled evs @ in_flight (ln_pc ln) @ ln_queue ln
    \<and> map snd (mt_rows (ln_table ln)) = map snd (mt_rows (ln_table ln\<^sub>0)) @ inserted evs
    \<and> list_all (statement_fits sqlite (ln_max_batch ln\<^sub>0) (ln_columns ln\<^sub>0)) evs"
  using assms
proof (induction rule: lane_run.induct)
  case (RunSend evs ln x)
  note IH = RunSend.IH [OF RunSend.prems]
  have "lane_ok sqlite ln" using IH by simp
  note st = buffer_send_step [OF this, of x]
  have eq: "in_flight (ln_pc ln\<^sub>0) @ ln_queue ln\<^sub>0 @ accepted evs = handled evs @ in_flight (ln_pc ln) @ ln_queue ln"
    using IH by simp
  have "in_flight (ln_pc ln\<^sub>0) @ ln_queue ln\<^sub>0 @ accepted (evs @ [send_event x ln])
      = (in_flight (ln_pc ln\<^sub>0) @ ln_queue ln\<^sub>0 @ accepted evs) @ accepted_of (send_event x ln)" by simp
  also have "\<dots> = handled evs @ (in_flight (ln_pc ln) @ ln_queue ln @ accepted_of (send_event x ln))"
    unfolding eq by simp
  also have "\<dots> = handled (evs @ [send_event x ln]) @ in_flight (ln_pc (buffer_send x ln)) @ ln_queue (buffer_send x ln)"
    using st(2,3) by simp
  finally show ?case using IH st(1,3,4,5) by (simp add: statement_fits_def)
next
  case (RunClose evs ln)
  note IH = RunClose.IH [OF RunClose.prems]
  then show ?case by (simp add: buffer_close_ok statement_fits_def)
next
  case (RunLoop evs ln E ln' ev)
  note step = RunLoop.hyps(3) and IH = RunLoop.IH [OF RunLoop.prems]
  have ok: "lane_ok (le_sqlite E) ln" using IH RunLoop.hyps(2) by simp
  have "mon_table_ok (ln_table ln')"
    using IH loop_next_table [OF step] by (simp add: mon_table_ok_insert)
  moreover have "map snd (mt_rows (ln_table ln')) = map snd (mt_rows (ln_table ln\<^sub>0)) @ inserted (evs @ [ev])"
    using IH loop_next_table [OF step] by simp
  moreover have "in_flight (ln_pc ln\<^sub>0) @ ln_queue ln\<^sub>0 @ accepted (evs @ [ev])
      = handled (evs @ [ev]) @ in_flight (ln_pc ln') @ ln_queue ln'"
    using IH loop_next_conserves [OF step ok] by simp
  moreover have "list_all (statement_fits sqlite (ln_max_batch ln\<^sub>0) (ln_columns ln\<^sub>0)) (evs @ [ev])"
    using IH loop_next_fits [OF step ok] RunLoop.hyps(2) by simp
  ultimately show ?case
    using IH loop_next_ok [OF step ok] loop_next_const [OF step] RunLoop.hyps(2) by simp
qed simp

lemma lane_init_ok:
  assumes "lane_init config columns t = Some ln" and "columns \<le> SQLITE_MAX_VARIABLE_NUMBER"
  shows "lane_ok sqlite ln \<and> ln_table ln = t \<and> ln_queue ln = [] \<and> in_flight (ln_pc ln) = []
    \<and> ln_columns ln = columns \<and> ln_tx ln
    \<and> ln_max_batch ln = config_or cf_max_batch_size DEFAULT_MAX_BATCH_SIZE config
    \<and> ln_cap ln = config_or cf_channel_capacity DEFAULT_CHANNEL_CAPACITY config"
  using assms by (auto simp: lane_init_def buffer_sender_new_def lane_ok_def pc_ok_def Let_def split: if_splits)


section \<open>The end of a lane\<close>

text \<open>
  The steps a task still makes once its channel is closed: four for every row
  that waits, one for every row in a batch, and a few to change its loops.
\<close>

definition loop_fuel :: "'a lane \<Rightarrow> nat" where
  "loop_fuel ln =
     4 * length (ln_queue ln)
     + (case ln_pc ln of
          Waiting buf \<Rightarrow> 1
        | Draining buf \<Rightarrow> length buf + 3
        | Flushing final chunk batch \<Rightarrow> length batch + 2
        | Exited \<Rightarrow> 0)"

lemma loop_fuel_decreases:
  assumes "loop_next E ln = (ln', ev)" and "lane_ok (le_sqlite E) ln" and "\<not> ln_tx ln" and "ln_pc ln \<noteq> Exited"
  shows "loop_fuel ln' < loop_fuel ln"
  using assms
  by (auto simp: lane_step_defs loop_fuel_def lane_ok_def pc_ok_def neq_Nil_conv
      split: loop_pc.splits list.splits if_splits option.splits)

lemma loop_fuel_0: "loop_fuel ln = 0 \<longleftrightarrow> ln_pc ln = Exited \<and> ln_queue ln = []"
  by (auto simp: loop_fuel_def split: loop_pc.splits)

lemma loop_run_inv:
  assumes "loop_run n Es ln = (ln', evs)" and "lane_ok sqlite ln" and "\<And>i. le_sqlite (Es i) = sqlite"
  shows "lane_ok sqlite ln' \<and> ln_tx ln' = ln_tx ln \<and> accepted evs = []
    \<and> in_flight (ln_pc ln) @ ln_queue ln = handled evs @ in_flight (ln_pc ln') @ ln_queue ln'
    \<and> map snd (mt_rows (ln_table ln')) = map snd (mt_rows (ln_table ln)) @ inserted evs"
  using assms
proof (induction n arbitrary: Es ln ln' evs)
  case (Suc n)
  obtain ln1 ev where step: "loop_next (Es 0) ln = (ln1, ev)" by (meson surj_pair)
  then obtain evs1 where run: "loop_run n (\<lambda>i. Es (Suc i)) ln1 = (ln', evs1)" and evs: "evs = ev # evs1"
    using Suc.prems(1) by (auto split: prod.splits)
  have ok: "lane_ok (le_sqlite (Es 0)) ln" using Suc.prems by simp
  have "lane_ok sqlite ln1" using loop_next_ok [OF step ok] Suc.prems(3) by simp
  note IH = Suc.IH [OF run this Suc.prems(3)]
  have "evs = [ev] @ evs1" by (simp add: evs)
  with IH loop_next_const [OF step] loop_next_conserves [OF step ok] loop_next_table [OF step]
  show ?case by (auto simp: accepted_def handled_def inserted_def)
qed simp

lemma loop_run_exits:
  assumes "loop_fuel ln \<le> n" and "lane_ok sqlite ln" and "\<not> ln_tx ln" and "\<And>i. le_sqlite (Es i) = sqlite"
  shows "loop_fuel (fst (loop_run n Es ln)) = 0"
  using assms
proof (induction n arbitrary: Es ln)
  case (Suc n)
  obtain ln1 ev where step: "loop_next (Es 0) ln = (ln1, ev)" by (meson surj_pair)
  have ok: "lane_ok (le_sqlite (Es 0)) ln" using Suc.prems by simp
  have "lane_ok sqlite ln1" using loop_next_ok [OF step ok] Suc.prems(4) by simp
  moreover have "\<not> ln_tx ln1" using loop_next_const [OF step] Suc.prems(3) by simp
  moreover have "loop_fuel ln1 \<le> n"
  proof (cases "ln_pc ln = Exited")
    case True
    then have "loop_fuel ln = 0" using Suc.prems(2) by (simp add: loop_fuel_0 lane_ok_def pc_ok_def)
    moreover have "ln1 = ln" using step True by (simp add: loop_next_def)
    ultimately show ?thesis by simp
  next
    case False
    then show ?thesis using loop_fuel_decreases [OF step ok Suc.prems(3)] Suc.prems(1) by simp
  qed
  ultimately have "loop_fuel (fst (loop_run n (\<lambda>i. Es (Suc i)) ln1)) = 0"
    by (intro Suc.IH) (simp_all add: Suc.prems(4))
  with step show ?case by (simp add: case_prod_beta)
qed simp

lemma no_fault_inserted:
  assumes "loop_run n Es ln = (ln', evs)" and "\<And>i. le_ready (Es i) \<and> le_fault (Es i) = None"
  shows "inserted evs = handled evs"
  using assms
proof (induction n arbitrary: Es ln evs)
  case (Suc n)
  obtain ln1 ev where step: "loop_next (Es 0) ln = (ln1, ev)" by (meson surj_pair)
  then obtain evs1 where run: "loop_run n (\<lambda>i. Es (Suc i)) ln1 = (ln', evs1)" and evs: "evs = ev # evs1"
    using Suc.prems(1) by (auto split: prod.splits)
  have "inserted_of ev = handled_of ev"
    using step Suc.prems(2) [of 0]
    by (auto simp: lane_step_defs split: loop_pc.splits list.splits if_splits option.splits)
  with Suc.IH [OF run] Suc.prems(2) show ?case by (simp add: evs inserted_def handled_def)
qed simp


section \<open>JSON objects\<close>

definition obj_sorted :: "(string \<times> json) list \<Rightarrow> bool" where
  "obj_sorted kvs \<longleftrightarrow> sorted_wrt (<) (map fst kvs)"

lemma fst_obj_insert: "fst ` set (obj_insert k v kvs) = insert k (fst ` set kvs)"
  by (induction k v kvs rule: obj_insert.induct) auto

lemma obj_sorted_insert [simp]: "obj_sorted kvs \<Longrightarrow> obj_sorted (obj_insert k v kvs)"
proof (induction k v kvs rule: obj_insert.induct)
  case (2 k v k' v' kvs)
  have keys: "\<forall>x\<in>fst ` set (obj_insert k v kvs). k' < x" if "\<not> k < k'" "k \<noteq> k'"
    using 2(2) that unfolding fst_obj_insert by (auto simp: obj_sorted_def not_less less_le)
  show ?case
  proof (cases "k = k' \<or> k < k'")
    case True
    with 2(2) show ?thesis by (auto simp: obj_sorted_def intro: less_trans)
  next
    case False
    with 2 keys show ?thesis by (simp add: obj_sorted_def)
  qed
qed (simp add: obj_sorted_def)

lemma map_of_obj_insert [simp]: "map_of (obj_insert k v kvs) = (map_of kvs)(k \<mapsto> v)"
  by (induction k v kvs rule: obj_insert.induct) (auto simp: fun_eq_iff)

lemma obj_sorted_remove [simp]: "obj_sorted kvs \<Longrightarrow> obj_sorted (obj_remove k kvs)"
  by (induction kvs) (auto simp: obj_sorted_def obj_remove_def)

lemma map_of_obj_remove [simp]: "map_of (obj_remove k kvs) = (map_of kvs)(k := None)"
  by (induction kvs) (auto simp: obj_remove_def fun_eq_iff)

lemma obj_sorted_Nil [simp]: "obj_sorted []"
  by (simp add: obj_sorted_def)

lemma obj_eqI:
  assumes "obj_sorted xs" and "obj_sorted ys" and "map_of xs = map_of ys"
  shows "xs = ys"
  using assms
proof (induction xs arbitrary: ys)
  case Nil
  then show ?case by simp
next
  case (Cons x xs)
  obtain k v where x: "x = (k, v)" by (cases x)
  have dom: "fst ` set (x # xs) = fst ` set ys"
    using Cons.prems(3) by (simp only: dom_map_of_conv_image_fst [symmetric])
  then have "ys \<noteq> []" by (metis empty_set image_is_empty list.distinct(1) set_empty)
  then obtain k' v' ys' where ys: "ys = (k', v') # ys'" by (metis list.exhaust surj_pair)
  have least: "\<forall>y\<in>fst ` set xs. k < y" "\<forall>y\<in>fst ` set ys'. k' < y"
    using Cons.prems(1,2) by (simp_all add: obj_sorted_def x ys)
  have "k = k'"
  proof (rule ccontr)
    assume ne: "k \<noteq> k'"
    have keys: "insert k (fst ` set xs) = insert k' (fst ` set ys')" using dom by (simp add: x ys)
    have "k \<in> insert k' (fst ` set ys')" unfolding keys [symmetric] by (rule insertI1)
    then have "k \<in> fst ` set ys'" using ne by simp
    moreover have "k' \<in> insert k (fst ` set xs)" unfolding keys by (rule insertI1)
    then have "k' \<in> fst ` set xs" using ne by simp
    ultimately have "k' < k" "k < k'" using least by blast+
    then show False by simp
  qed
  moreover have "v = v'" using fun_cong [OF Cons.prems(3), of k] \<open>k = k'\<close> by (simp add: x ys)
  moreover have "map_of xs = map_of ys'"
  proof
    fix z
    show "map_of xs z = map_of ys' z"
    proof (cases "z = k")
      case True
      then have "z \<notin> fst ` set xs" "z \<notin> fst ` set ys'" using least \<open>k = k'\<close> by auto
      then have "map_of xs z = None" "map_of ys' z = None" by (simp_all only: map_of_eq_None_iff not_False_eq_True)
      then show ?thesis by simp
    next
      case False
      then show ?thesis using fun_cong [OF Cons.prems(3), of z] \<open>k = k'\<close> by (simp add: x ys)
    qed
  qed
  moreover have "obj_sorted xs" "obj_sorted ys'" using Cons.prems(1,2) by (simp_all add: obj_sorted_def x ys)
  ultimately show ?case using Cons.IH [of ys'] by (simp add: x ys)
qed

lemma obj_sorted_fold:
  "obj_sorted kvs \<Longrightarrow> (\<And>x kvs. obj_sorted kvs \<Longrightarrow> obj_sorted (f x kvs)) \<Longrightarrow> obj_sorted (fold f xs kvs)"
  by (induction xs arbitrary: kvs) auto

text \<open>A filtered object holds \<open>uuid\<close>, \<open>timestamp\<close> and the wanted keys.\<close>

lemma map_of_insert_key:
  "map_of (insert_key full k kvs) = (case map_of full k of None \<Rightarrow> map_of kvs | Some v \<Rightarrow> (map_of kvs)(k \<mapsto> v))"
  by (simp add: insert_key_def obj_get_def split: option.split)

lemma insert_key_sorted: "obj_sorted kvs \<Longrightarrow> obj_sorted (insert_key full k kvs)"
  by (simp add: insert_key_def split: option.split)

definition filtered_keys :: "string list \<Rightarrow> string set" where
  "filtered_keys ks = insert ''uuid'' (insert ''timestamp'' (set ks))"

lemma map_of_fold_keys:
  assumes "map_of kvs = map_of full |` S" and "{''uuid'', ''timestamp''} \<subseteq> S"
  shows "map_of (fold (\<lambda>key filtered.
      if key \<noteq> ''uuid'' \<and> key \<noteq> ''timestamp'' then insert_key full key filtered else filtered) ks kvs)
    = map_of full |` (S \<union> set ks)"
  using assms
proof (induction ks arbitrary: kvs S)
  case (Cons k ks)
  let ?kvs = "if k \<noteq> ''uuid'' \<and> k \<noteq> ''timestamp'' then insert_key full k kvs else kvs"
  have "map_of ?kvs = map_of full |` (insert k S)"
    using Cons.prems by (auto simp: map_of_insert_key fun_eq_iff restrict_map_def split: option.split)
  from Cons.IH [OF this] Cons.prems(2) show ?case by (simp add: insert_commute)
qed simp

lemma build_filtered_map_spec:
  obtains kvs where "build_filtered_map full ks = JObject kvs" and "obj_sorted kvs"
    and "map_of kvs = map_of full |` filtered_keys ks"
proof -
  let ?base = "insert_key full ''timestamp'' (insert_key full ''uuid'' [])"
  have "map_of ?base = map_of full |` {''uuid'', ''timestamp''}"
    by (auto simp: map_of_insert_key fun_eq_iff restrict_map_def split: option.split)
  from map_of_fold_keys [OF this order_refl, of ks] show thesis
    by (intro that) (auto simp: build_filtered_map_def filtered_keys_def insert_key_sorted
        intro!: obj_sorted_fold)
qed


text \<open>Columns renamed to keys, one field after the other.\<close>

lemma rename_all:
  assumes "\<And>f g. (col f = col g) = (f = g)" and "\<And>f g. (key f = key g) = (f = g)"
    and "\<And>f g. col f \<noteq> key g"
  shows "(f \<in> set fs \<longrightarrow>
      map_of (fold (rename_and_fix_json E) (map (\<lambda>f. (col f, key f)) fs) obj) (key f)
        = (case map_of obj (col f) of None \<Rightarrow> map_of obj (key f) | Some v \<Rightarrow> Some (fix_json E v)))
    \<and> (f \<in> set fs \<longrightarrow> map_of (fold (rename_and_fix_json E) (map (\<lambda>f. (col f, key f)) fs) obj) (col f) = None)
    \<and> (k \<notin> key ` set fs \<longrightarrow> k \<notin> col ` set fs \<longrightarrow>
      map_of (fold (rename_and_fix_json E) (map (\<lambda>f. (col f, key f)) fs) obj) k = map_of obj k)"
proof (induction fs arbitrary: obj f k)
  case (Cons g fs)
  let ?obj = "rename_and_fix_json E (col g, key g) obj"
  have obj: "map_of ?obj = (case map_of obj (col g) of None \<Rightarrow> map_of obj
      | Some v \<Rightarrow> (map_of obj)(col g := None, key g \<mapsto> fix_json E v))"
    by (simp add: rename_and_fix_json_def obj_get_def split: option.split)
  have mcol: "map_of ?obj (col h) = (if h = g then None else map_of obj (col h))" for h
    by (simp add: obj assms split: option.split)
  have mkey: "map_of ?obj (key h) = (if h = g then (case map_of obj (col g) of None \<Rightarrow> map_of obj (key g)
      | Some v \<Rightarrow> Some (fix_json E v)) else map_of obj (key h))" for h
    by (simp add: obj assms assms(3) [symmetric] split: option.split)
  have moth: "map_of ?obj k = map_of obj k" if "k \<noteq> key g" "k \<noteq> col g"
    using that by (simp add: obj split: option.split)
  let ?res = "fold (rename_and_fix_json E) (map (\<lambda>f. (col f, key f)) (g # fs)) obj"
  have res: "?res = fold (rename_and_fix_json E) (map (\<lambda>f. (col f, key f)) fs) ?obj" by simp
  have absent: "key g \<notin> key ` set fs" "key g \<notin> col ` set fs" "col g \<notin> key ` set fs" "col g \<notin> col ` set fs"
    if "g \<notin> set fs" using that assms(1-3) by (auto simp: assms(3) [symmetric])
  have "map_of ?res (key f) = (case map_of obj (col f) of None \<Rightarrow> map_of obj (key f) | Some v \<Rightarrow> Some (fix_json E v))"
    if "f \<in> set (g # fs)"
  proof (cases "f \<in> set fs")
    case True
    with Cons.IH [of f ?obj k] show ?thesis by (cases "f = g") (simp_all add: mcol mkey split: option.splits)
  next
    case False
    then have "f = g" using that by simp
    then show ?thesis using False Cons.IH [of f ?obj "key g"] absent by (simp add: mkey split: option.splits)
  qed
  moreover have "map_of ?res (col f) = None" if "f \<in> set (g # fs)"
  proof (cases "f \<in> set fs")
    case False
    with that Cons.IH [of f ?obj "col g"] absent show ?thesis by (simp add: mcol)
  qed (use Cons.IH [of f ?obj k] in simp)
  moreover have "map_of ?res k = map_of obj k" if "k \<notin> key ` set (g # fs)" "k \<notin> col ` set (g # fs)"
    using that Cons.IH [of f ?obj k] moth by simp
  ultimately show ?case by blast
qed simp

lemma map_of_columns:
  assumes "\<And>f g. (col f = col g) = (f = g)"
  shows "map_of (fold (\<lambda>(k, v). obj_insert k v) (map (\<lambda>f. (col f, val f)) fs) obj) k
    = (if k \<in> col ` set fs then Some (val (the_inv col k)) else map_of obj k)"
proof (induction fs arbitrary: obj)
  case (Cons g fs)
  have "inj col" by (simp add: inj_def assms)
  then have "the_inv col (col g) = g" by (rule the_inv_f_f)
  with Cons.IH [of "obj_insert (col g) (val g) obj"] show ?case by auto
qed simp

lemma translate_uuid_map:
  assumes "map_of obj ''uuid_id'' = Some (json_i64 (sint i))" and "get_uuid c i = Some u"
  shows "map_of (translate_uuid E c obj) = (map_of obj)(''uuid_id'' := None, ''uuid'' \<mapsto> JString (me_show_uuid E u))"
proof -
  have "sint i < 2 ^ 15" using sint_lt [of i] by simp
  then have "as_i64 (if 0 \<le> sint i then PosInt (nat (sint i)) else NegInt (sint i)) = Some (sint i)"
    by (simp add: as_i64_def i64_max_def)
  with assms show ?thesis
    by (simp add: translate_uuid_def obj_get_def json_i64_def Let_def)
qed

lemma json_sorted [simp]:
  "obj_sorted obj \<Longrightarrow> obj_sorted (rename_and_fix_json E ks obj)"
  "obj_sorted obj \<Longrightarrow> obj_sorted (translate_uuid E c obj)"
  "obj_sorted (selected cols r)"
  "obj_sorted (value_head E u t)"
proof -
  show "obj_sorted obj \<Longrightarrow> obj_sorted (rename_and_fix_json E ks obj)"
    by (simp add: rename_and_fix_json_def split: option.split prod.split)
  show "obj_sorted obj \<Longrightarrow> obj_sorted (translate_uuid E c obj)"
    by (simp add: translate_uuid_def Let_def split: option.split json.split)
  show "obj_sorted (selected cols r)"
    unfolding selected_def
    by (rule obj_sorted_fold) (intro obj_sorted_insert obj_sorted_Nil, auto simp del: obj_insert.simps split: prod.split)
  show "obj_sorted (value_head E u t)"
    unfolding value_head_def by (intro obj_sorted_insert obj_sorted_Nil)
qed

text \<open>
  The object of a row whose columns the driver hands out faithfully: the name of
  the agent, the time, and the wanted columns under their keys.
\<close>

lemma row_object:
  fixes col :: "'f \<Rightarrow> string" and key :: "'f \<Rightarrow> string" and val :: "'f \<Rightarrow> json"
  assumes "\<And>f g. (col f = col g) = (f = g)" and "\<And>f g. (key f = key g) = (f = g)"
    and "\<And>f g. col f \<noteq> key g"
    and "\<And>f. col f \<noteq> ''uuid_id''" "\<And>f. col f \<noteq> ''timestamp''" "\<And>f. col f \<noteq> ''uuid''"
    and "\<And>f. key f \<noteq> ''uuid_id''" "\<And>f. key f \<noteq> ''timestamp''" "\<And>f. key f \<noteq> ''uuid''"
    and "get_uuid c (r_uuid_id r) = Some u"
    and "\<And>f. f \<in> set fs \<Longrightarrow> fix_json E (me_column E (val f)) = val f"
    and "obj = fold (rename_and_fix_json E) (map (\<lambda>f. (col f, key f)) fs)
          (translate_uuid E c (selected (map (\<lambda>f. (col f, me_column E (val f))) fs) r))"
  shows "obj_sorted obj"
    and "map_of obj k =
      (if k = ''uuid'' then Some (JString (me_show_uuid E u))
       else if k = ''timestamp'' then Some (json_i64 (r_timestamp r))
       else if k \<in> key ` set fs then Some (val (the_inv key k)) else None)"
proof -
  let ?sel = "selected (map (\<lambda>f. (col f, me_column E (val f))) fs) r"
  note base = map_of_columns [where col = col and val = "\<lambda>f. me_column E (val f)" and fs = fs, OF assms(1)]
  have inj: "inj col" "inj key" using assms(1,2) by (auto simp: inj_def)
  have sel: "map_of ?sel j = (if j \<in> col ` set fs then Some (me_column E (val (the_inv col j)))
      else if j = ''timestamp'' then Some (json_i64 (r_timestamp r))
      else if j = ''uuid_id'' then Some (json_i64 (sint (r_uuid_id r))) else None)" for j
    unfolding selected_def base by simp
  have "map_of ?sel ''uuid_id'' = Some (json_i64 (sint (r_uuid_id r)))"
    using assms(4) [symmetric] by (auto simp: sel)
  note tr = translate_uuid_map [OF this assms(10), of E]
  show "obj_sorted obj"
    unfolding assms(12) by (rule obj_sorted_fold) simp_all
  have ren: "f \<in> set fs \<Longrightarrow> map_of obj (key f) = Some (val f)" "f \<in> set fs \<Longrightarrow> map_of obj (col f) = None" for f
    using rename_all [where col = col and key = key and fs = fs and f = f, OF assms(1-3)] assms(4,6,11)
    by (auto simp: assms(12) tr sel the_inv_f_f [OF inj(1)])
  have other: "map_of obj k = map_of (translate_uuid E c ?sel) k" if "k \<notin> key ` set fs" "k \<notin> col ` set fs"
    using rename_all [where col = col and key = key and fs = fs and k = k, OF assms(1-3)] that
    by (simp add: assms(12))
  show "map_of obj k =
      (if k = ''uuid'' then Some (JString (me_show_uuid E u))
       else if k = ''timestamp'' then Some (json_i64 (r_timestamp r))
       else if k \<in> key ` set fs then Some (val (the_inv key k)) else None)"
  proof (cases "k \<in> key ` set fs \<or> k \<in> col ` set fs")
    case True
    then obtain f where f: "f \<in> set fs" "k = key f \<or> k = col f" by auto
    show ?thesis
      using f ren [OF f(1)] assms(3,5-9) by (auto simp: the_inv_f_f [OF inj(2)] assms(2))
  next
    case False
    with other show ?thesis by (auto simp: tr sel)
  qed
qed


lemma static_names [simp]:
  "(static_column_name f = static_column_name g) = (f = g)" "(static_json_key f = static_json_key g) = (f = g)"
  "static_column_name f \<noteq> static_json_key g"
  "static_column_name f \<noteq> ''uuid_id''" "static_column_name f \<noteq> ''timestamp''" "static_column_name f \<noteq> ''uuid''"
  "static_json_key f \<noteq> ''uuid_id''" "static_json_key f \<noteq> ''timestamp''" "static_json_key f \<noteq> ''uuid''"
  by (cases f; cases g; simp)+

lemma dynamic_names [simp]:
  "(dynamic_column_name f = dynamic_column_name g) = (f = g)" "(dynamic_json_key f = dynamic_json_key g) = (f = g)"
  "dynamic_column_name f \<noteq> dynamic_json_key g"
  "dynamic_column_name f \<noteq> ''uuid_id''" "dynamic_column_name f \<noteq> ''timestamp''" "dynamic_column_name f \<noteq> ''uuid''"
  "dynamic_json_key f \<noteq> ''uuid_id''" "dynamic_json_key f \<noteq> ''timestamp''" "dynamic_json_key f \<noteq> ''uuid''"
  by (cases f; cases g; simp)+

text \<open>The record the caches hold for a row.\<close>

definition static_record :: "mon_env \<Rightarrow> uuid \<Rightarrow> static_row \<Rightarrow> json" where
  "static_record E u r =
     build_static_value_prebuilt E u (r_timestamp r) (s_cpu_data r) (s_system_data r) (s_gpu_data r)"

definition dynamic_record :: "mon_env \<Rightarrow> uuid \<Rightarrow> dynamic_row \<Rightarrow> json" where
  "dynamic_record E u r =
     build_dynamic_value_prebuilt E u (r_timestamp r) (d_cpu_data r) (d_ram_data r) (d_load_data r)
       (d_system_data r) (d_disk_data r) (d_network_data r) (d_gpu_data r)"

lemma static_record_map:
  obtains obj where "static_record E u r = JObject obj" and "obj_sorted obj"
    and "map_of obj ''uuid'' = Some (JString (me_show_uuid E u))"
    and "map_of obj ''timestamp'' = Some (json_i64 (r_timestamp r))"
    and "\<forall>f. map_of obj (static_json_key f) = Some (static_column r f)"
    and "dom (map_of obj) = insert ''uuid'' (insert ''timestamp'' (range static_json_key))"
proof -
  let ?obj = "obj_insert ''gpu'' (s_gpu_data r) (obj_insert ''system'' (s_system_data r)
    (obj_insert ''cpu'' (s_cpu_data r) (value_head E u (r_timestamp r))))"
  have m: "map_of ?obj = Map.empty(''uuid'' \<mapsto> JString (me_show_uuid E u), ''timestamp'' \<mapsto> json_i64 (r_timestamp r),
      ''cpu'' \<mapsto> s_cpu_data r, ''system'' \<mapsto> s_system_data r, ''gpu'' \<mapsto> s_gpu_data r)"
    unfolding value_head_def map_of_obj_insert by simp
  have range: "range static_json_key = {''cpu'', ''system'', ''gpu''}"
    by (auto intro: range_eqI [of _ _ StaticCpu] range_eqI [of _ _ StaticSystem] range_eqI [of _ _ StaticGpu])
       (metis static_data_query_field.exhaust static_json_key.simps)
  show thesis
  proof (rule that [of ?obj])
    show "obj_sorted ?obj" by (intro obj_sorted_insert json_sorted(4))
    show "\<forall>f. map_of ?obj (static_json_key f) = Some (static_column r f)"
    proof
      show "map_of ?obj (static_json_key f) = Some (static_column r f)" for f
        unfolding m by (cases f) simp_all
    qed
    show "dom (map_of ?obj) = insert ''uuid'' (insert ''timestamp'' (range static_json_key))"
      unfolding m range by auto
  qed (simp_all only: static_record_def build_static_value_prebuilt_def m, simp_all)
qed

lemma dynamic_record_map:
  obtains obj where "dynamic_record E u r = JObject obj" and "obj_sorted obj"
    and "map_of obj ''uuid'' = Some (JString (me_show_uuid E u))"
    and "map_of obj ''timestamp'' = Some (json_i64 (r_timestamp r))"
    and "\<forall>f. map_of obj (dynamic_json_key f) = Some (dynamic_column r f)"
    and "dom (map_of obj) = insert ''uuid'' (insert ''timestamp'' (range dynamic_json_key))"
proof -
  let ?obj = "obj_insert ''gpu'' (d_gpu_data r) (obj_insert ''network'' (d_network_data r)
    (obj_insert ''disk'' (d_disk_data r) (obj_insert ''system'' (d_system_data r) (obj_insert ''load'' (d_load_data r)
    (obj_insert ''ram'' (d_ram_data r) (obj_insert ''cpu'' (d_cpu_data r) (value_head E u (r_timestamp r))))))))"
  have m: "map_of ?obj = Map.empty(''uuid'' \<mapsto> JString (me_show_uuid E u), ''timestamp'' \<mapsto> json_i64 (r_timestamp r),
      ''cpu'' \<mapsto> d_cpu_data r, ''ram'' \<mapsto> d_ram_data r, ''load'' \<mapsto> d_load_data r, ''system'' \<mapsto> d_system_data r,
      ''disk'' \<mapsto> d_disk_data r, ''network'' \<mapsto> d_network_data r, ''gpu'' \<mapsto> d_gpu_data r)"
    unfolding value_head_def map_of_obj_insert by simp
  have range: "range dynamic_json_key = {''cpu'', ''ram'', ''load'', ''system'', ''disk'', ''network'', ''gpu''}"
  proof (intro equalityI subsetI)
    fix k assume "k \<in> range dynamic_json_key"
    then obtain f where "k = dynamic_json_key f" by auto
    then show "k \<in> {''cpu'', ''ram'', ''load'', ''system'', ''disk'', ''network'', ''gpu''}" by (cases f) simp_all
  next
    fix k assume "k \<in> {''cpu'', ''ram'', ''load'', ''system'', ''disk'', ''network'', ''gpu''}"
    then have "k \<in> dynamic_json_key ` set [DynamicCpu, DynamicRam, DynamicLoad, DynamicSystem, DynamicDisk,
        DynamicNetwork, DynamicGpu]" by simp
    then show "k \<in> range dynamic_json_key" by blast
  qed
  show thesis
  proof (rule that [of ?obj])
    show "obj_sorted ?obj" by (intro obj_sorted_insert json_sorted(4))
    show "\<forall>f. map_of ?obj (dynamic_json_key f) = Some (dynamic_column r f)"
    proof
      show "map_of ?obj (dynamic_json_key f) = Some (dynamic_column r f)" for f
        unfolding m by (cases f) simp_all
    qed
    show "dom (map_of ?obj) = insert ''uuid'' (insert ''timestamp'' (range dynamic_json_key))"
      unfolding m range by auto
  qed (simp_all only: dynamic_record_def build_dynamic_value_prebuilt_def m, simp_all)
qed

lemma filtered_record:
  fixes key :: "'f \<Rightarrow> string"
  assumes "\<And>f g. (key f = key g) = (f = g)"
    and "map_of full ''uuid'' = Some a" and "map_of full ''timestamp'' = Some b"
    and "\<And>f. map_of full (key f) = Some (val f)"
    and "obj_sorted obj"
    and "\<And>k. map_of obj k = (if k = ''uuid'' then Some a else if k = ''timestamp'' then Some b
          else if k \<in> key ` set fs then Some (val (the_inv key k)) else None)"
    and "\<And>f. key f \<noteq> ''uuid''" and "\<And>f. key f \<noteq> ''timestamp''"
  shows "build_filtered_map full (map key fs) = JObject obj"
proof -
  obtain kvs where kvs: "build_filtered_map full (map key fs) = JObject kvs" "obj_sorted kvs"
    "map_of kvs = map_of full |` filtered_keys (map key fs)" by (rule build_filtered_map_spec)
  have inj: "inj key" using assms(1) by (auto simp: inj_def)
  have "map_of kvs = map_of obj"
  proof
    fix k
    show "map_of kvs k = map_of obj k"
    proof (cases "k \<in> key ` set fs")
      case True
      then obtain f where "f \<in> set fs" "k = key f" by auto
      then show ?thesis
        using assms(7,8) [of f] by (simp add: kvs(3) filtered_keys_def assms(4,6) the_inv_f_f [OF inj])
    next
      case False
      then show ?thesis by (simp add: kvs(3) filtered_keys_def restrict_map_def assms(2,3,6))
    qed
  qed
  with kvs(1,2) assms(5) show ?thesis by (simp add: obj_eqI)
qed

text \<open>A query of the table and a look into the cache give the same record.\<close>

lemma static_json_record:
  assumes "get_uuid c (r_uuid_id r) = Some u" and "static_record E u r = JObject full"
    and "\<And>f. f \<in> set fs \<Longrightarrow> fix_json E (me_column E (static_column r f)) = static_column r f"
  shows "static_json E c fs r = build_filtered_map full (map static_json_key fs)"
proof -
  let ?obj = "fold (rename_and_fix_json E) (map (\<lambda>f. (static_column_name f, static_json_key f)) fs)
    (translate_uuid E c (selected (map (\<lambda>f. (static_column_name f, me_column E (static_column r f))) fs) r))"
  note row = row_object [OF static_names(1-3) static_names(4-9) assms(1,3) refl]
  obtain full' where "static_record E u r = JObject full'" "obj_sorted full'"
    "map_of full' ''uuid'' = Some (JString (me_show_uuid E u))"
    "map_of full' ''timestamp'' = Some (json_i64 (r_timestamp r))"
    "\<forall>f. map_of full' (static_json_key f) = Some (static_column r f)"
    "dom (map_of full') = insert ''uuid'' (insert ''timestamp'' (range static_json_key))"
    by (rule static_record_map [of E u r])
  with assms(2) have full: "map_of full ''uuid'' = Some (JString (me_show_uuid E u))"
    "map_of full ''timestamp'' = Some (json_i64 (r_timestamp r))"
    "\<And>f. map_of full (static_json_key f) = Some (static_column r f)" by simp_all
  have "build_filtered_map full (map static_json_key fs) = JObject ?obj"
    by (rule filtered_record [OF static_names(2) full row static_names(9,8)])
  then show ?thesis by (simp add: static_json_def)
qed

lemma dynamic_json_record:
  assumes "get_uuid c (r_uuid_id r) = Some u" and "dynamic_record E u r = JObject full"
    and "\<And>f. f \<in> set fs \<Longrightarrow> fix_json E (me_column E (dynamic_column r f)) = dynamic_column r f"
  shows "dynamic_json E c fs r = build_filtered_map full (map dynamic_json_key fs)"
proof -
  let ?obj = "fold (rename_and_fix_json E) (map (\<lambda>f. (dynamic_column_name f, dynamic_json_key f)) fs)
    (translate_uuid E c (selected (map (\<lambda>f. (dynamic_column_name f, me_column E (dynamic_column r f))) fs) r))"
  note row = row_object [OF dynamic_names(1-3) dynamic_names(4-9) assms(1,3) refl]
  obtain full' where "dynamic_record E u r = JObject full'" "obj_sorted full'"
    "map_of full' ''uuid'' = Some (JString (me_show_uuid E u))"
    "map_of full' ''timestamp'' = Some (json_i64 (r_timestamp r))"
    "\<forall>f. map_of full' (dynamic_json_key f) = Some (dynamic_column r f)"
    "dom (map_of full') = insert ''uuid'' (insert ''timestamp'' (range dynamic_json_key))"
    by (rule dynamic_record_map [of E u r])
  with assms(2) have full: "map_of full ''uuid'' = Some (JString (me_show_uuid E u))"
    "map_of full ''timestamp'' = Some (json_i64 (r_timestamp r))"
    "\<And>f. map_of full (dynamic_json_key f) = Some (dynamic_column r f)" by simp_all
  have "build_filtered_map full (map dynamic_json_key fs) = JObject ?obj"
    by (rule filtered_record [OF dynamic_names(2) full row dynamic_names(9,8)])
  then show ?thesis by (simp add: dynamic_json_def)
qed



section \<open>Numbers of agents\<close>

definition numbers_ok :: "mon_env \<Rightarrow> mon_world \<Rightarrow> bool" where
  "numbers_ok E w \<longleftrightarrow> uuid_table_ok (uw_rows (mw_uuid w)) \<and> uuid_coherent (uw_rows (mw_uuid w)) (mw_uuid w)
     \<and> fresh_id (me_uuid E) (mw_uuid w)"

lemma agent_number_frame:
  "agent_number E u w = (r, w') \<Longrightarrow> \<exists>uw. w' = w\<lparr> mw_uuid := uw \<rparr>"
  by (auto simp: agent_number_def split: if_splits prod.splits intro: exI [of _ "mw_uuid w"])

lemma agent_number_ok:
  assumes "numbers_ok E w" and "agent_number E u w = (Inr i, w')"
  obtains c where "uw_cache (mw_uuid w') = Some c" and "get_id c u = Some i" and "get_uuid c i = Some u"
proof -
  from assms(1) obtain c\<^sub>0 where "uw_cache (mw_uuid w) = Some c\<^sub>0" by (auto simp: numbers_ok_def uuid_coherent_iff)
  moreover obtain pc uw where run: "uuid_steps 6 (me_uuid E) (start_pc (OpGet u)) (mw_uuid w) = (pc, uw)"
    by fastforce
  ultimately have pc: "pc = Returned (Inr (AnId i))" and w': "mw_uuid w' = uw"
    using assms(2)
    by (auto simp: agent_number_def get_or_insert_def run_alone_def split: uuid_pc.splits sum.splits uuid_answer.splits)
  have "alone_ok (me_uuid E) (OpGet u) pc uw"
    using uuid_steps_ok [OF alone_ok_start run] assms(1) by (simp add: numbers_ok_def)
  then have "uuid_coherent (uw_rows uw) uw" and "active_as (uw_rows uw) u i"
    by (simp_all add: alone_ok_def pc)
  then obtain c where c: "uw_cache uw = Some c" "image_of (uw_rows uw) c" by (auto simp: uuid_coherent_iff)
  have "hm_get (by_uuid c) u = Some (i, False)"
    using image_ofD(1) [OF c(2)] \<open>active_as (uw_rows uw) u i\<close> by (simp add: active_as_def)
  moreover from this have "hm_get (by_id c) i = Some (u, False)"
    using image_ofD(2) [OF c(2)] by (rule mirroredD(1) [rotated])
  ultimately show thesis using c(1) by (intro that) (auto simp: w' get_id_def get_uuid_def)
qed

end
