(* ===== verification/Monitor_Props.thy ===== *)
theory Monitor_Props
  imports Monitor_Lemmas
begin

text \<open>
  What the monitoring pipeline guarantees: the rows a lane accepts reach the
  database once and in order, in statements that fit, also at shutdown; a report
  can be queried once it is flushed, and its cached copy is the same record;
  deletions remove exactly what they name; and how the cache of static hashes
  loses a record for good.
\<close>


section \<open>Helpers\<close>

primrec dynamic_part :: "dynamic_monitoring_data \<Rightarrow> dynamic_data_query_field \<Rightarrow> string + json" where
  "dynamic_part d DynamicCpu = dd_cpu d"
| "dynamic_part d DynamicRam = dd_ram d"
| "dynamic_part d DynamicLoad = dd_load d"
| "dynamic_part d DynamicSystem = dd_system d"
| "dynamic_part d DynamicDisk = dd_disk d"
| "dynamic_part d DynamicNetwork = dd_network d"
| "dynamic_part d DynamicGpu = dd_gpu d"

text \<open>The agent a stored row belongs to.\<close>

definition row_agent :: "mon_world \<Rightarrow> 'a mon_row_scheme \<Rightarrow> uuid option" where
  "row_agent w r = Option.bind (uw_cache (mw_uuid w)) (\<lambda>c. get_uuid c (r_uuid_id r))"

text \<open>Every row of a lane: stored, in a batch, or in the channel.\<close>

definition lane_rows :: "'a lane \<Rightarrow> 'a list" where
  "lane_rows ln = map snd (mt_rows (ln_table ln)) @ in_flight (ln_pc ln) @ ln_queue ln"

lemma newest_first:
  fixes k :: "'a \<Rightarrow> int"
  assumes "\<And>y. y \<in> set ys \<Longrightarrow> k x < k y"
  shows "take 1 (sort_key k (ys @ [x])) = [x]"
proof -
  let ?s = "sort_key k (ys @ [x])"
  have "set ?s = insert x (set ys)" by simp
  then obtain z zs where s: "?s = z # zs" by (cases ?s) auto
  then have "sorted (map k (z # zs))" by (metis sorted_sort_key)
  moreover have mem: "x \<in> set (z # zs)" "z \<in> insert x (set ys)" using \<open>set ?s = _\<close> s by auto
  ultimately have "k z \<le> k x" by auto
  with assms mem(2) have "z = x" by (metis insertE not_le)
  with s show ?thesis by simp
qed

lemma report_dynamic_Buffered:
  assumes "report_dynamic E tok d w = (Inr Buffered, w')"
  obtains i wn r c where "agent_number E (dd_uuid d) w = (Inr i, wn)" and "mw_last w = Some c"
    and "r_uuid_id r = i" and "r_timestamp r = sint (dd_time d)"
    and "\<forall>f. dynamic_part d f = Inr (dynamic_column r f)"
    and "mw_dynamic w' = buffer_send r (mw_dynamic w)"
    and "mw_last w' = Some (update_dynamic_prebuilt E (dd_uuid d) (dynamic_record E (dd_uuid d) r) c)"
    and "mw_uuid w' = mw_uuid wn" and "mw_ready w' = mw_ready w"
proof -
  obtain i wn where num: "agent_number E (dd_uuid d) w = (Inr i, wn)"
    using assms by (auto simp: report_dynamic_def result_simps Let_def)
  then obtain uw where wn: "wn = w\<lparr> mw_uuid := uw \<rparr>" using agent_number_frame by blast
  obtain now where now: "get_local_timestamp_ms_i64 (me_clock E) (me_ntp E) = Inr now"
    using assms by (auto simp: report_dynamic_def result_simps Let_def)
  obtain cpu ram load system disk network gpu where parts: "dd_cpu d = Inr cpu" "dd_ram d = Inr ram"
    "dd_load d = Inr load" "dd_system d = Inr system" "dd_disk d = Inr disk" "dd_network d = Inr network"
    "dd_gpu d = Inr gpu"
    using assms by (auto simp: report_dynamic_def result_simps Let_def serialized_part_def)
  obtain c where c: "mw_last w = Some c"
    using assms num wn
    by (auto simp: report_dynamic_def result_simps Let_def with_last_cache_def with_buffers_def
        split: option.splits if_splits)
  define r where "r = \<lparr> r_uuid_id = i, r_timestamp = sint (dd_time d), r_storage_time = Some now,
    d_cpu_data = cpu, d_ram_data = ram, d_load_data = load, d_system_data = system,
    d_disk_data = disk, d_network_data = network, d_gpu_data = gpu \<rparr>"
  have "w' = wn\<lparr> mw_dynamic := buffer_send r (mw_dynamic w),
      mw_traffic := update_total_traffic i (dd_traffic d) (word_of_int now) (mw_traffic w),
      mw_last := Some (update_dynamic_prebuilt E (dd_uuid d) (dynamic_record E (dd_uuid d) r) c) \<rparr>"
    using assms num now parts c
    by (auto simp: report_dynamic_def result_simps Let_def serialized_part_def with_last_cache_def with_buffers_def
        dynamic_record_def r_def wn split: if_splits)
  moreover have "\<forall>f. dynamic_part d f = Inr (dynamic_column r f)"
  proof
    show "dynamic_part d f = Inr (dynamic_column r f)" for f by (cases f) (simp_all add: parts r_def)
  qed
  ultimately show thesis using num c by (intro that [of i wn c r]) (simp_all add: r_def wn)
qed

text \<open>The newest record of one agent, when the last row of the table is the newest.\<close>

lemma query_last_row:
  assumes "map snd (mt_rows t) = xs @ [r]" and "r_uuid_id r = i"
    and "\<And>x. x \<in> set xs \<Longrightarrow> r_uuid_id x = i \<Longrightarrow> r_timestamp x < r_timestamp r"
  shows "map snd (page (None, True) (apply_resolved_conditions [UuidId i] (mt_rows t))) = [r]"
proof -
  obtain ys n where rows: "mt_rows t = ys @ [(n, r)]" and ys: "map snd ys = xs"
    using assms(1) by (cases "mt_rows t" rule: rev_cases) auto
  let ?ys = "filter (\<lambda>(_, r). r_uuid_id r = i) ys"
  have sel: "apply_resolved_conditions [UuidId i] (mt_rows t) = ?ys @ [(n, r)]"
    by (simp add: apply_resolved_conditions_def rows assms(2))
  have "(\<lambda>(_, r). - r_timestamp r) (n, r) < (\<lambda>(_, r). - r_timestamp r) y" if "y \<in> set ?ys" for y
  proof -
    from that have "snd y \<in> set xs" "r_uuid_id (snd y) = i" by (auto simp: ys [symmetric])
    with assms(3) have "r_timestamp (snd y) < r_timestamp r" by blast
    then show ?thesis by (cases y) simp
  qed
  from newest_first [of ?ys "\<lambda>(_, r). - r_timestamp r" "(n, r)", OF this]
  have "take 1 (sort_key (\<lambda>(_, r). - r_timestamp r) (?ys @ [(n, r)])) = [(n, r)]" .
  then show ?thesis unfolding sel page_def order_desc_def by simp
qed

lemma dynamic_cached:
  assumes "dynamic_record E u r = JObject full"
  shows "get_dynamic_last (update_dynamic_prebuilt E u (dynamic_record E u r) c) u fs
    = Some (build_filtered_map full (map dynamic_json_key fs))"
  using assms by (simp add: get_dynamic_last_def update_dynamic_prebuilt_def entry_new_def as_object_def)

lemma static_cached:
  assumes "static_record E u r = JObject full"
  shows "get_static_last (update_static_prebuilt E u (static_record E u r) c) u fs
    = Some (build_filtered_map full (map static_json_key fs))"
  using assms by (simp add: get_static_last_def update_static_prebuilt_def entry_new_def as_object_def)

text \<open>A filter that wants every key keeps the object.\<close>

lemma filtered_full:
  assumes "obj_sorted full" and "dom (map_of full) \<subseteq> filtered_keys ks"
  shows "build_filtered_map full ks = JObject full"
proof -
  obtain kvs where kvs: "build_filtered_map full ks = JObject kvs" "obj_sorted kvs"
    "map_of kvs = map_of full |` filtered_keys ks" by (rule build_filtered_map_spec)
  have "map_of full |` filtered_keys ks = map_of full"
  proof
    fix k show "(map_of full |` filtered_keys ks) k = map_of full k"
      using assms(2) by (cases "k \<in> filtered_keys ks") (simp_all, metis domIff subsetD)
  qed
  with kvs assms(1) show ?thesis by (simp add: obj_eqI)
qed

lemma record_keys:
  assumes "map_of full ''uuid'' = Some a" and "map_of full ''timestamp'' = Some b"
    and "\<forall>f. map_of full (dynamic_json_key f) = Some (dynamic_column r f)"
    and "dom (map_of full) = insert ''uuid'' (insert ''timestamp'' (range dynamic_json_key))"
    and "map_of obj = map_of full |` filtered_keys (map dynamic_json_key fs)"
  shows "map_of obj ''uuid'' = Some a" and "map_of obj ''timestamp'' = Some b"
    and "map_of obj (dynamic_json_key f) = (if List.member fs f then Some (dynamic_column r f) else None)"
    and "fst ` set obj = insert ''uuid'' (insert ''timestamp'' (dynamic_json_key ` set fs))"
proof -
  show "map_of obj ''uuid'' = Some a" "map_of obj ''timestamp'' = Some b"
    using assms(1,2) by (simp_all add: assms(5) filtered_keys_def)
  show "map_of obj (dynamic_json_key f) = (if List.member fs f then Some (dynamic_column r f) else None)"
    using assms(3) by (auto simp: assms(5) filtered_keys_def restrict_map_def)
  have "fst ` set obj = dom (map_of obj)" by (rule dom_map_of_conv_image_fst [symmetric])
  also have "\<dots> = insert ''uuid'' (insert ''timestamp'' (dynamic_json_key ` set fs))"
    unfolding assms(5) dom_restrict assms(4) filtered_keys_def by auto
  finally show "fst ` set obj = insert ''uuid'' (insert ''timestamp'' (dynamic_json_key ` set fs))" .
qed

lemma demo_table_ok: "mon_table_ok \<lparr> mt_rows = [], mt_next = 0 \<rparr>"
  by (simp add: mon_table_ok_def)


section \<open>The buffers\<close>

definition monitoring_columns :: "nat list" where
  "monitoring_columns = [STATIC_COLUMNS, DYNAMIC_COLUMNS, SUMMARY_COLUMNS]"

lemma monitoring_columns_fit: "List.member monitoring_columns columns \<Longrightarrow> columns \<le> SQLITE_MAX_VARIABLE_NUMBER"
  by (auto simp: monitoring_columns_def STATIC_COLUMNS_def DYNAMIC_COLUMNS_def SUMMARY_COLUMNS_def
      SQLITE_MAX_VARIABLE_NUMBER_def)

text \<open>
  (C23) No row is lost, doubled or overtaken on its way to the database.  However senders, the
  shutdown and the flush task interleave and whatever statements fail, the rows a channel has
  accepted are, in this order, those already handed to a statement (or discarded because there
  is no database), those in the batch and those in the channel; the table holds its old rows and
  after them the rows of the successful statements, once each and with distinct keys; the channel
  never exceeds its capacity; and no statement is empty, larger than a batch or, on SQLite,
  binds more than 999 parameters.
\<close>

theorem monitor_rows_conserved:
  assumes "lane_init config columns t = Some ln\<^sub>0" and "List.member monitoring_columns columns"
    and "mon_table_ok t" and "lane_run sqlite ln\<^sub>0 evs ln"
  shows "accepted evs = handled evs @ in_flight (ln_pc ln) @ ln_queue ln
    \<and> map snd (mt_rows (ln_table ln)) = map snd (mt_rows t) @ inserted evs
    \<and> mon_table_ok (ln_table ln)
    \<and> length (ln_queue ln) \<le> config_or cf_channel_capacity DEFAULT_CHANNEL_CAPACITY config
    \<and> list_all (statement_fits sqlite (config_or cf_max_batch_size DEFAULT_MAX_BATCH_SIZE config) columns) evs"
proof -
  note init = lane_init_ok [OF assms(1) monitoring_columns_fit [OF assms(2)], of sqlite]
  have "lane_ok sqlite ln\<^sub>0" "mon_table_ok (ln_table ln\<^sub>0)" using init assms(3) by simp_all
  note run = lane_run_inv [OF assms(4) this]
  then have "length (ln_queue ln) \<le> ln_cap ln" by (simp add: lane_ok_def)
  with run init show ?thesis by simp
qed

definition demo_lane :: "nat lane" where
  "demo_lane = buffer_sender_new 10000 1000 8 (Waiting []) \<lparr> mt_rows = [], mt_next = 0 \<rparr>"

lemma demo_lane_init: "lane_init None STATIC_COLUMNS \<lparr> mt_rows = [], mt_next = 0 \<rparr> = Some demo_lane"
  by (simp add: lane_init_def demo_lane_def config_or_def STATIC_COLUMNS_def DEFAULT_CHANNEL_CAPACITY_def
      DEFAULT_MAX_BATCH_SIZE_def DEFAULT_FLUSH_INTERVAL_MS_def)

lemma demo_lane_sent:
  "lane_run True demo_lane [send_event 7 demo_lane] (buffer_send 7 demo_lane)"
  using lane_run.RunSend [OF lane_run.RunStart, of True demo_lane 7] by simp

lemma demo_member: "List.member monitoring_columns STATIC_COLUMNS"
  by (simp add: monitoring_columns_def)

lemmas demo_lane_simps = demo_lane_def buffer_sender_new_def send_event_def buffer_send_def buffer_close_def try_send_ok_def

theorem monitor_rows_conserved_witness:
  "accepted [send_event 7 demo_lane] = [7] \<and> ln_queue (buffer_send 7 demo_lane) = [7]
    \<and> accepted [send_event 7 demo_lane]
      = handled [send_event 7 demo_lane] @ in_flight (ln_pc (buffer_send 7 demo_lane)) @ ln_queue (buffer_send 7 demo_lane)"
  using monitor_rows_conserved [OF demo_lane_init demo_member demo_table_ok demo_lane_sent]
  by (simp add: demo_lane_simps)

text \<open>
  (C24) Shutting down flushes everything.  Once the channel is closed, the flush task ends after a
  bounded number of steps, whatever statements fail; then channel and batch are empty and every
  row the channel ever accepted has been handed to a statement.  If the database answers, the
  table holds its old rows and after them all accepted rows.
\<close>

theorem monitor_shutdown_flushes:
  assumes "lane_init config columns t = Some ln\<^sub>0" and "List.member monitoring_columns columns"
    and "mon_table_ok t" and "lane_run sqlite ln\<^sub>0 evs ln" and "ln_closed ln"
    and "\<And>i. le_sqlite (Es i) = sqlite"
    and "loop_run (loop_fuel ln) Es ln = (ln', evs')"
  shows "ln_pc ln' = Exited \<and> ln_queue ln' = []
    \<and> accepted evs = handled evs @ handled evs'
    \<and> (inserted evs = handled evs \<longrightarrow> (\<forall>i. le_ready (Es i) \<and> le_fault (Es i) = None) \<longrightarrow>
        map snd (mt_rows (ln_table ln')) = map snd (mt_rows t) @ accepted evs)"
proof -
  note init = lane_init_ok [OF assms(1) monitoring_columns_fit [OF assms(2)], of sqlite]
  have ok0: "lane_ok sqlite ln\<^sub>0" "mon_table_ok (ln_table ln\<^sub>0)" using init assms(3) by simp_all
  note run = lane_run_inv [OF assms(4) ok0]
  have ok: "lane_ok sqlite ln" using run by blast
  then have tx: "\<not> ln_tx ln" using assms(5) by (simp add: lane_ok_def)
  have ended: "ln_pc ln' = Exited" "ln_queue ln' = []"
    using loop_run_exits [where Es = Es, OF order_refl ok tx assms(6)] by (simp_all add: assms(7) loop_fuel_0)
  note last = loop_run_inv [OF assms(7) ok assms(6)]
  have acc: "accepted evs = handled evs @ handled evs'"
    using run init last by (simp add: ended)
  have "map snd (mt_rows (ln_table ln')) = map snd (mt_rows t) @ accepted evs"
    if "inserted evs = handled evs" "\<forall>i. le_ready (Es i) \<and> le_fault (Es i) = None"
    using run init last no_fault_inserted [OF assms(7)] that by (simp add: acc)
  with ended acc show ?thesis by blast
qed

definition demo_lane_env :: lane_env where
  "demo_lane_env = \<lparr> le_ready = True, le_sqlite = True, le_fault = None, le_tick = False \<rparr>"

lemma demo_lane_closed:
  "lane_run True demo_lane [send_event 7 demo_lane, Quiet] (buffer_close (buffer_send 7 demo_lane))"
  using lane_run.RunClose [OF demo_lane_sent] by simp

theorem monitor_shutdown_flushes_witness:
  "ln_pc (fst (loop_run (loop_fuel (buffer_close (buffer_send 7 demo_lane))) (\<lambda>_. demo_lane_env)
      (buffer_close (buffer_send 7 demo_lane)))) = Exited
    \<and> map snd (mt_rows (ln_table (fst (loop_run (loop_fuel (buffer_close (buffer_send 7 demo_lane))) (\<lambda>_. demo_lane_env)
      (buffer_close (buffer_send 7 demo_lane)))))) = [7]"
proof -
  let ?ln = "buffer_close (buffer_send 7 demo_lane)"
  obtain ln' evs' where run: "loop_run (loop_fuel ?ln) (\<lambda>_. demo_lane_env) ?ln = (ln', evs')" by fastforce
  have "ln_closed ?ln" by (simp add: demo_lane_simps)
  moreover have "le_sqlite demo_lane_env = True" by (simp add: demo_lane_env_def)
  moreover have "inserted [send_event 7 demo_lane, Quiet] = handled [send_event 7 demo_lane, Quiet]"
    "accepted [send_event 7 demo_lane, Quiet] = [7]" by (simp_all add: demo_lane_simps)
  ultimately have "ln_pc ln' = Exited" "map snd (mt_rows (ln_table ln')) = [7]"
    using monitor_shutdown_flushes [OF demo_lane_init demo_member demo_table_ok demo_lane_closed _ _ run]
    by (simp_all add: demo_lane_env_def)
  then show ?thesis by (simp add: run)
qed


section \<open>Reports and queries\<close>

lemma sent_row_flushed:
  assumes "lane_ok sqlite ln\<^sub>0" and "ln_tx ln\<^sub>0" and "try_send_ok ln\<^sub>0"
    and "\<And>i. le_sqlite (Es i) = sqlite" and "\<And>i. le_ready (Es i) \<and> le_fault (Es i) = None"
    and "loop_run n Es (buffer_send r ln\<^sub>0) = (ln, evs)" and "in_flight (ln_pc ln) = []" and "ln_queue ln = []"
  shows "map snd (mt_rows (ln_table ln)) = lane_rows ln\<^sub>0 @ [r]"
proof -
  note sent = buffer_send_step [OF assms(1), of r]
  note flushed = loop_run_inv [OF assms(6) sent(1) assms(4)]
  have "accepted_of (send_event r ln\<^sub>0) = [r]"
    using assms(1-3) by (simp add: send_event_def lane_ok_def)
  then have "handled evs = in_flight (ln_pc ln\<^sub>0) @ ln_queue ln\<^sub>0 @ [r]"
    using flushed sent(2) by (simp add: assms(7,8))
  then show ?thesis
    using flushed no_fault_inserted [OF assms(6,5)] by (simp add: lane_rows_def)
qed

lemma query_dynamic_last:
  assumes "uw_cache (mw_uuid w) = Some c" and "get_id c u = Some i" and "mw_ready w"
    and "me_fault E SelectRows = None" and "me_fault E StreamRows = None"
    and "parse_token tok = Inr cred" and "fs \<noteq> []"
    and "ck_limit (me_checker E) cred [AgentUuid u] (map (\<lambda>f. PDynamicMonitoring (DynamicMonitoring_Read f)) fs) = Inr True"
  shows "query_dynamic E tok fs [QUuid u, QLast] w
    = write_array E (map (\<lambda>x. Inr (dynamic_json E c fs x))
        (map snd (page (None, True) (apply_resolved_conditions [UuidId i] (mt_rows (ln_table (mw_dynamic w)))))))"
  using assms
  by (simp add: query_dynamic_def fields_allowed_def query_scopes_def cond_uuids_def List.map_filter_simps
      run_query_def mon_get_db_def mon_uuid_cache_def extract_limit_and_last_def comp_def case_prod_unfold)

text \<open>
  (C25) What is reported can be read back, and the cache shows the same.  Take a dynamic report that
  is answered \<open>buffered\<close> while its channel has room, and let the flush task run, on a
  database that answers, until it has nothing left to write.  If the report is newer than the
  agent's other rows, a query for the last record of this agent by a token that may read the
  wanted fields returns exactly one object: the agent's UUID, the time of the report and the
  wanted parts of the report, nothing else; and it is, down to the last byte of its text, the
  object the last-value cache gives for the same fields.
\<close>

theorem report_dynamic_then_query:
  assumes "numbers_ok E w" and "lane_ok sqlite (mw_dynamic w)" and "ln_tx (mw_dynamic w)"
    and "try_send_ok (mw_dynamic w)"
    and "report_dynamic E tok d w = (Inr Buffered, w\<^sub>1)"
    and "\<And>i. le_sqlite (Es i) = sqlite" and "\<And>i. le_ready (Es i) \<and> le_fault (Es i) = None"
    and "loop_run n Es (mw_dynamic w\<^sub>1) = (ln, evs)" and "in_flight (ln_pc ln) = []" and "ln_queue ln = []"
    and "\<And>r. r \<in> set (lane_rows (mw_dynamic w)) \<Longrightarrow> row_agent w\<^sub>1 r = Some (dd_uuid d) \<Longrightarrow>
          r_timestamp r < sint (dd_time d)"
    and "mw_ready w" and "me_fault E' SelectRows = None" and "me_fault E' StreamRows = None"
    and "me_show_uuid E' = me_show_uuid E"
    and "parse_token tok' = Inr cred" and "fs \<noteq> []"
    and "ck_limit (me_checker E') cred [AgentUuid (dd_uuid d)]
          (map (\<lambda>f. PDynamicMonitoring (DynamicMonitoring_Read f)) fs) = Inr True"
    and "\<And>f v. f \<in> set fs \<Longrightarrow> dynamic_part d f = Inr v \<Longrightarrow> fix_json E' (me_column E' v) = v"
  shows "\<exists>c obj. mw_last w\<^sub>1 = Some c \<and> get_dynamic_last c (dd_uuid d) fs = Some (JObject obj)
    \<and> query_dynamic E' tok' fs [QUuid (dd_uuid d), QLast] (w\<^sub>1\<lparr> mw_dynamic := ln \<rparr>) = write_array E' [Inr (JObject obj)]
    \<and> map_of obj ''uuid'' = Some (JString (me_show_uuid E (dd_uuid d)))
    \<and> map_of obj ''timestamp'' = Some (json_i64 (sint (dd_time d)))
    \<and> (\<forall>f. map_of obj (dynamic_json_key f) = (if List.member fs f then Some (projr (dynamic_part d f)) else None))
    \<and> fst ` set obj = insert ''uuid'' (insert ''timestamp'' (dynamic_json_key ` set fs))"
proof -
  let ?u = "dd_uuid d"
  obtain i wn r c\<^sub>0 where num: "agent_number E ?u w = (Inr i, wn)" and r: "r_uuid_id r = i" "r_timestamp r = sint (dd_time d)"
    and parts: "\<forall>f. dynamic_part d f = Inr (dynamic_column r f)"
    and lane: "mw_dynamic w\<^sub>1 = buffer_send r (mw_dynamic w)"
    and last: "mw_last w\<^sub>1 = Some (update_dynamic_prebuilt E ?u (dynamic_record E ?u r) c\<^sub>0)"
    and uu: "mw_uuid w\<^sub>1 = mw_uuid wn" and ready: "mw_ready w\<^sub>1 = mw_ready w"
    by (rule report_dynamic_Buffered [OF assms(5)])
  obtain c where c: "uw_cache (mw_uuid w\<^sub>1) = Some c" "get_id c ?u = Some i" "get_uuid c i = Some ?u"
    using agent_number_ok [OF assms(1) num] by (metis uu)
  have rows: "map snd (mt_rows (ln_table ln)) = lane_rows (mw_dynamic w) @ [r]"
    by (rule sent_row_flushed [OF assms(2-4,6,7) assms(8) [unfolded lane] assms(9,10)])
  have newest: "r_timestamp x < r_timestamp r" if "x \<in> set (lane_rows (mw_dynamic w))" "r_uuid_id x = i" for x
    using assms(11) [OF that(1)] that(2) c by (simp add: row_agent_def r(2))
  have row: "map snd (page (None, True) (apply_resolved_conditions [UuidId i] (mt_rows (ln_table ln)))) = [r]"
    by (rule query_last_row [OF rows r(1) newest])
  obtain full where full: "dynamic_record E ?u r = JObject full" "obj_sorted full"
    "map_of full ''uuid'' = Some (JString (me_show_uuid E ?u))"
    "map_of full ''timestamp'' = Some (json_i64 (r_timestamp r))"
    "\<forall>f. map_of full (dynamic_json_key f) = Some (dynamic_column r f)"
    "dom (map_of full) = insert ''uuid'' (insert ''timestamp'' (range dynamic_json_key))"
    by (rule dynamic_record_map [of E ?u r])
  have full': "dynamic_record E' ?u r = JObject full"
    using full(1) assms(15) by (simp add: dynamic_record_def build_dynamic_value_prebuilt_def value_head_def)
  have "get_uuid c (r_uuid_id r) = Some ?u" using c(3) r(1) by simp
  from dynamic_json_record [OF this full'] assms(19) parts
  have json: "dynamic_json E' c fs r = build_filtered_map full (map dynamic_json_key fs)" by blast
  obtain obj where obj: "build_filtered_map full (map dynamic_json_key fs) = JObject obj"
    "map_of obj = map_of full |` filtered_keys (map dynamic_json_key fs)" by (rule build_filtered_map_spec)
  have "query_dynamic E' tok' fs [QUuid ?u, QLast] (w\<^sub>1\<lparr> mw_dynamic := ln \<rparr>) = write_array E' [Inr (JObject obj)]"
    using query_dynamic_last [of "w\<^sub>1\<lparr> mw_dynamic := ln \<rparr>", OF _ c(2) _ assms(13,14,16-18)] c(1) assms(12) ready
    by (simp add: row [simplified] json obj(1))
  moreover have "get_dynamic_last (update_dynamic_prebuilt E ?u (dynamic_record E ?u r) c\<^sub>0) ?u fs = Some (JObject obj)"
    using dynamic_cached [OF full(1)] obj(1) by simp
  ultimately show ?thesis
    using last record_keys [OF full(3-6) obj(2)] r(2) parts by auto
qed

definition demo_checker :: limit_checker where
  "demo_checker = \<lparr> ck_registered = True, ck_super = (\<lambda>_. Inr False), ck_get = (\<lambda>_. err (NotFound [])),
     ck_now = Inr 0, ck_limit = (\<lambda>_ _ _. Inr True) \<rparr>"

definition demo_mon_env :: mon_env where
  "demo_mon_env = \<lparr> me_checker = demo_checker, me_uuid = demo_uuid_env, me_clock = Inr 1000, me_ntp = 0,
     me_to_string = (\<lambda>_. Some ''{}''), me_from_str = (\<lambda>_. None), me_column = (\<lambda>v. v), me_div10 = (\<lambda>_. None),
     me_fault = (\<lambda>_. None), me_display = (\<lambda>_. []), me_show_uuid = (\<lambda>_. ''5'') \<rparr>"

definition demo_mon_lane :: "nat \<Rightarrow> nat \<Rightarrow> 'a list \<Rightarrow> 'a lane" where
  "demo_mon_lane cap columns q =
     (buffer_sender_new cap 1000 columns (Waiting []) \<lparr> mt_rows = [], mt_next = 0 \<rparr>)\<lparr> ln_queue := q \<rparr>"

definition demo_traffic_world :: traffic_world where
  "demo_traffic_world = \<lparr> tw_db = \<lparr> total_rows = [], loss_rows = [] \<rparr>, tw_ready = True, tw_stats = None,
     tw_published = False, tw_notified = False, tw_job = None, tw_last = False \<rparr>"

definition demo_mon_world :: "static_row lane \<Rightarrow> mon_world" where
  "demo_mon_world static =
     \<lparr> mw_ready = True, mw_uuid = demo_uuid_world False False, mw_hash = Some [],
       mw_last = Some \<lparr> static_cache = [], dynamic_cache = [], dynamic_summary_cache = [] \<rparr>,
       mw_traffic = demo_traffic_world, mw_set = True, mw_static = static,
       mw_dynamic = demo_mon_lane 10 11 [], mw_summary = demo_mon_lane 10 27 [] \<rparr>"

definition demo_dynamic :: dynamic_monitoring_data where
  "demo_dynamic = \<lparr> dd_uuid = 5, dd_time = 42, dd_cpu = Inr (JBool True), dd_ram = Inr JNull, dd_load = Inr JNull,
     dd_system = Inr JNull, dd_disk = Inr JNull, dd_network = Inr JNull, dd_gpu = Inr JNull,
     dd_traffic = \<lparr> rp_time = 42, rp_system = \<lparr> sys_boot_time = 0, sys_uptime = 0, sys_process_count = 0, sys_boot_id = None \<rparr>,
       rp_interfaces = [] \<rparr> \<rparr>"

lemmas demo_mon_defs = demo_mon_env_def demo_checker_def demo_mon_world_def demo_mon_lane_def buffer_sender_new_def

lemma demo_numbers: "numbers_ok demo_mon_env (demo_mon_world static)"
  using demo_uuid_facts by (simp add: numbers_ok_def demo_mon_env_def demo_mon_world_def)

lemma demo_agent_number:
  "uw_cache (mw_uuid w) = uw_cache (demo_uuid_world False False) \<Longrightarrow>
   agent_number demo_mon_env 5 w = (Inr 1, w)"
  by (simp add: agent_number_def get_or_insert_def run_alone_def demo_uuid_world_def g_start_def
      demo_mon_env_def hm_get_def eval_nat_numeral)

lemma demo_token: "parse_token ''a:b'' = Inr (Token ''a'' ''b'')"
  by (simp add: parse_token_def from_full_token_def)

lemma demo_clock: "get_local_timestamp_ms_i64 (me_clock demo_mon_env) (me_ntp demo_mon_env) = Inr 1000"
  by (simp add: get_local_timestamp_ms_i64_def get_local_timestamp_ms_def saturating_add_i64_def i64_max_def
      i64_min_def demo_mon_env_def)

lemma demo_report_authorised: "authorise_report demo_mon_env ''a:b'' u p m = Inr ()"
  by (simp add: authorise_report_def demo_token demo_mon_env_def demo_checker_def)

definition demo_row :: dynamic_row where
  "demo_row = \<lparr> r_uuid_id = 1, r_timestamp = 42, r_storage_time = Some 1000, d_cpu_data = JBool True,
     d_ram_data = JNull, d_load_data = JNull, d_system_data = JNull, d_disk_data = JNull,
     d_network_data = JNull, d_gpu_data = JNull \<rparr>"

definition demo_reported :: mon_world where
  "demo_reported = snd (report_dynamic demo_mon_env ''a:b'' demo_dynamic (demo_mon_world (demo_mon_lane 10 8 [])))"

definition demo_flushed :: "dynamic_row lane" where
  "demo_flushed = fst (loop_run 4 (\<lambda>_. demo_lane_env) (mw_dynamic demo_reported))"

lemma demo_report:
  "fst (report_dynamic demo_mon_env ''a:b'' demo_dynamic (demo_mon_world s)) = Inr Buffered"
  "mw_dynamic (snd (report_dynamic demo_mon_env ''a:b'' demo_dynamic (demo_mon_world s)))
     = demo_mon_lane 10 11 [demo_row]"
proof -
  have "agent_number demo_mon_env 5 (demo_mon_world s) = (Inr 1, demo_mon_world s)"
    by (rule demo_agent_number) (simp add: demo_mon_world_def)
  then show "fst (report_dynamic demo_mon_env ''a:b'' demo_dynamic (demo_mon_world s)) = Inr Buffered"
    and "mw_dynamic (snd (report_dynamic demo_mon_env ''a:b'' demo_dynamic (demo_mon_world s)))
     = demo_mon_lane 10 11 [demo_row]"
    by (simp_all add: report_dynamic_def demo_report_authorised demo_clock demo_dynamic_def serialized_part_def
        with_buffers_def with_last_cache_def demo_mon_world_def buffer_send_def try_send_ok_def demo_mon_lane_def
        buffer_sender_new_def demo_row_def)
qed

lemma demo_flush:
  "ln_queue demo_flushed = [] \<and> in_flight (ln_pc demo_flushed) = []"
proof -
  have four: "(4::nat) = Suc (Suc (Suc (Suc 0)))" by simp
  show ?thesis
    unfolding demo_flushed_def demo_reported_def demo_report four
    by (simp add: demo_lane_env_def demo_mon_lane_def buffer_sender_new_def
        lane_step_defs chunk_size_def SQLITE_MAX_VARIABLE_NUMBER_def)
qed

lemma demo_fix: "fix_json demo_mon_env (me_column demo_mon_env v) = v"
  by (cases v) (simp_all add: fix_json_def demo_mon_env_def)

theorem report_dynamic_then_query_witness:
  "\<exists>obj. query_dynamic demo_mon_env ''a:b'' [DynamicCpu] [QUuid 5, QLast] (demo_reported\<lparr> mw_dynamic := demo_flushed \<rparr>)
      = write_array demo_mon_env [Inr (JObject obj)]
    \<and> map_of obj ''cpu'' = Some (JBool True) \<and> map_of obj ''ram'' = None"
proof -
  let ?w = "demo_mon_world (demo_mon_lane 10 8 [])"
  obtain w\<^sub>1 where rep: "report_dynamic demo_mon_env ''a:b'' demo_dynamic ?w = (Inr Buffered, w\<^sub>1)"
    using demo_report(1) by (metis prod.collapse)
  then have w\<^sub>1: "w\<^sub>1 = demo_reported" by (simp add: demo_reported_def)
  obtain evs where run: "loop_run 4 (\<lambda>_. demo_lane_env) (mw_dynamic w\<^sub>1) = (demo_flushed, evs)"
    by (metis demo_flushed_def prod.collapse w\<^sub>1)
  have lane: "lane_ok True (mw_dynamic ?w)" "ln_tx (mw_dynamic ?w)" "try_send_ok (mw_dynamic ?w)"
    "lane_rows (mw_dynamic ?w) = []" "mw_ready ?w"
    by (simp_all add: demo_mon_defs lane_ok_def pc_ok_def try_send_ok_def lane_rows_def SQLITE_MAX_VARIABLE_NUMBER_def)
  have env: "le_sqlite demo_lane_env = True" "le_ready demo_lane_env \<and> le_fault demo_lane_env = None"
    by (simp_all add: demo_lane_env_def)
  have "\<exists>c obj. mw_last w\<^sub>1 = Some c \<and> get_dynamic_last c (dd_uuid demo_dynamic) [DynamicCpu] = Some (JObject obj)
    \<and> query_dynamic demo_mon_env ''a:b'' [DynamicCpu] [QUuid (dd_uuid demo_dynamic), QLast] (w\<^sub>1\<lparr> mw_dynamic := demo_flushed \<rparr>)
      = write_array demo_mon_env [Inr (JObject obj)]
    \<and> map_of obj ''uuid'' = Some (JString (me_show_uuid demo_mon_env (dd_uuid demo_dynamic)))
    \<and> map_of obj ''timestamp'' = Some (json_i64 (sint (dd_time demo_dynamic)))
    \<and> (\<forall>f. map_of obj (dynamic_json_key f) = (if List.member [DynamicCpu] f then Some (projr (dynamic_part demo_dynamic f)) else None))
    \<and> fst ` set obj = insert ''uuid'' (insert ''timestamp'' (dynamic_json_key ` set [DynamicCpu]))"
    by (rule report_dynamic_then_query [where sqlite = True and w = ?w and Es = "\<lambda>_. demo_lane_env" and n = 4
          and cred = "Token ''a'' ''b''", OF demo_numbers lane(1-3) rep env(1) env(2) run])
       (use demo_flush lane(4,5) in \<open>simp_all add: demo_token demo_fix\<close>, simp_all add: demo_mon_env_def demo_checker_def)
  then obtain obj where q: "query_dynamic demo_mon_env ''a:b'' [DynamicCpu] [QUuid 5, QLast]
      (demo_reported\<lparr> mw_dynamic := demo_flushed \<rparr>) = write_array demo_mon_env [Inr (JObject obj)]"
    and k: "\<forall>f. map_of obj (dynamic_json_key f) = (if List.member [DynamicCpu] f then Some (projr (dynamic_part demo_dynamic f)) else None)"
    by (auto simp: w\<^sub>1 demo_dynamic_def)
  from k [rule_format, of DynamicCpu] k [rule_format, of DynamicRam] q show ?thesis
    by (auto simp: demo_dynamic_def)
qed


section \<open>The last-value cache\<close>

lemma summary_cached:
  "get_dynamic_summary_last (update_dynamic_summary_prebuilt E u v c) u [] = Some v"
  "get_dynamic_summary_last_raw (update_dynamic_summary_prebuilt E u v c) u = me_to_string E (descale_cached_summary E v)"
  by (simp_all add: get_dynamic_summary_last_def get_dynamic_summary_last_raw_def update_dynamic_summary_prebuilt_def
      entry_new_summary_def descale_cached_summary_def Let_def)

lemma static_raw_exact:
  assumes "is_all_static_fields fs"
  shows "\<exists>v. get_static_last (update_static_prebuilt E u (build_static_value_prebuilt E u t cpu sys gpu) c) u fs = Some v
    \<and> get_static_last_raw (update_static_prebuilt E u (build_static_value_prebuilt E u t cpu sys gpu) c) u = me_to_string E v"
proof -
  let ?s = "\<lparr> r_uuid_id = 0, r_timestamp = t, r_storage_time = None, s_cpu_data = cpu, s_system_data = sys,
    s_gpu_data = gpu, s_data_hash = [] \<rparr>"
  obtain sf where sf: "static_record E u ?s = JObject sf" "obj_sorted sf"
    "map_of sf ''uuid'' = Some (JString (me_show_uuid E u))" "map_of sf ''timestamp'' = Some (json_i64 (r_timestamp ?s))"
    "\<forall>f. map_of sf (static_json_key f) = Some (static_column ?s f)"
    "dom (map_of sf) = insert ''uuid'' (insert ''timestamp'' (range static_json_key))"
    by (rule static_record_map [of E u ?s])
  have "set fs = UNIV" using assms by (auto simp: is_all_static_fields_def intro: static_data_query_field.exhaust)
  then have "build_filtered_map sf (map static_json_key fs) = JObject sf"
    by (intro filtered_full [OF sf(2)]) (simp add: sf(6) filtered_keys_def)
  then show ?thesis
    using static_cached [OF sf(1), of c fs] sf(1)
    by (simp add: static_record_def get_static_last_raw_def update_static_prebuilt_def entry_new_def)
qed

lemma dynamic_raw_exact:
  assumes "is_all_dynamic_fields fs"
  shows "\<exists>v. get_dynamic_last (update_dynamic_prebuilt E u
        (build_dynamic_value_prebuilt E u t cpu ram ld sys disk net gpu) c) u fs = Some v
    \<and> get_dynamic_last_raw (update_dynamic_prebuilt E u
        (build_dynamic_value_prebuilt E u t cpu ram ld sys disk net gpu) c) u = me_to_string E v"
proof -
  let ?d = "\<lparr> r_uuid_id = 0, r_timestamp = t, r_storage_time = None, d_cpu_data = cpu, d_ram_data = ram, d_load_data = ld,
    d_system_data = sys, d_disk_data = disk, d_network_data = net, d_gpu_data = gpu \<rparr>"
  obtain df where df: "dynamic_record E u ?d = JObject df" "obj_sorted df"
    "map_of df ''uuid'' = Some (JString (me_show_uuid E u))" "map_of df ''timestamp'' = Some (json_i64 (r_timestamp ?d))"
    "\<forall>f. map_of df (dynamic_json_key f) = Some (dynamic_column ?d f)"
    "dom (map_of df) = insert ''uuid'' (insert ''timestamp'' (range dynamic_json_key))"
    by (rule dynamic_record_map [of E u ?d])
  have "set fs = UNIV" using assms by (auto simp: is_all_dynamic_fields_def intro: dynamic_data_query_field.exhaust)
  then have "build_filtered_map df (map dynamic_json_key fs) = JObject df"
    by (intro filtered_full [OF df(2)]) (simp add: df(6) filtered_keys_def)
  then show ?thesis
    using dynamic_cached [OF df(1), of c fs] df(1)
    by (simp add: dynamic_record_def get_dynamic_last_raw_def update_dynamic_prebuilt_def entry_new_def)
qed

text \<open>
  (C26) The shortcut of the multi-agent queries is exact.  The text the last-value cache keeps for a
  query of every field is the serialisation of the object that the field-by-field path would
  build, for static and dynamic records in whatever order the fields are named, and for a summary
  that of its record with the scaled columns divided; the entry of any other agent is untouched.
\<close>

theorem last_cache_raw_exact:
  assumes "is_all_static_fields fs" and "is_all_dynamic_fields gs" and "u' \<noteq> u"
  shows "(\<exists>v. get_static_last (update_static_prebuilt E u (build_static_value_prebuilt E u t cpu sys gpu) c) u fs = Some v
      \<and> get_static_last_raw (update_static_prebuilt E u (build_static_value_prebuilt E u t cpu sys gpu) c) u = me_to_string E v)
    \<and> (\<exists>v. get_dynamic_last (update_dynamic_prebuilt E u
        (build_dynamic_value_prebuilt E u t cpu ram ld sys disk net gpu) c) u gs = Some v
      \<and> get_dynamic_last_raw (update_dynamic_prebuilt E u
        (build_dynamic_value_prebuilt E u t cpu ram ld sys disk net gpu) c) u = me_to_string E v)
    \<and> (\<exists>v. get_dynamic_summary_last (update_dynamic_summary_prebuilt E u (build_dynamic_summary_value E u t vals) c) u [] = Some v
      \<and> get_dynamic_summary_last_raw (update_dynamic_summary_prebuilt E u (build_dynamic_summary_value E u t vals) c) u
        = me_to_string E (descale_cached_summary E v))
    \<and> get_static_last_raw (update_static_prebuilt E u sv c) u' = get_static_last_raw c u'
    \<and> get_dynamic_last_raw (update_dynamic_prebuilt E u dv c) u' = get_dynamic_last_raw c u'
    \<and> get_dynamic_summary_last_raw (update_dynamic_summary_prebuilt E u mv c) u' = get_dynamic_summary_last_raw c u'"
proof -
  have "get_static_last_raw (update_static_prebuilt E u sv c) u' = get_static_last_raw c u'"
    "get_dynamic_last_raw (update_dynamic_prebuilt E u dv c) u' = get_dynamic_last_raw c u'"
    "get_dynamic_summary_last_raw (update_dynamic_summary_prebuilt E u mv c) u' = get_dynamic_summary_last_raw c u'"
    using assms(3) by (simp_all add: get_static_last_raw_def get_dynamic_last_raw_def
        get_dynamic_summary_last_raw_def update_static_prebuilt_def update_dynamic_prebuilt_def
        update_dynamic_summary_prebuilt_def)
  moreover note static_raw_exact [OF assms(1), of E u t cpu sys gpu c]
    dynamic_raw_exact [OF assms(2), of E u t cpu ram ld sys disk net gpu c]
  moreover have "\<exists>v. get_dynamic_summary_last (update_dynamic_summary_prebuilt E u (build_dynamic_summary_value E u t vals) c) u [] = Some v
      \<and> get_dynamic_summary_last_raw (update_dynamic_summary_prebuilt E u (build_dynamic_summary_value E u t vals) c) u
        = me_to_string E (descale_cached_summary E v)"
    by (intro exI conjI, rule summary_cached(1), rule summary_cached(2))
  ultimately show ?thesis by (intro conjI)
qed

theorem last_cache_raw_exact_witness:
  "\<exists>v. get_static_last (update_static_prebuilt demo_mon_env 5 (build_static_value_prebuilt demo_mon_env 5 42 JNull JNull JNull)
        \<lparr> static_cache = [], dynamic_cache = [], dynamic_summary_cache = [] \<rparr>) 5 [StaticGpu, StaticCpu, StaticSystem] = Some v
    \<and> get_static_last_raw (update_static_prebuilt demo_mon_env 5 (build_static_value_prebuilt demo_mon_env 5 42 JNull JNull JNull)
        \<lparr> static_cache = [], dynamic_cache = [], dynamic_summary_cache = [] \<rparr>) 5 = me_to_string demo_mon_env v"
proof -
  have "is_all_static_fields [StaticGpu, StaticCpu, StaticSystem]"
    "is_all_dynamic_fields [DynamicCpu, DynamicRam, DynamicLoad, DynamicSystem, DynamicDisk, DynamicNetwork, DynamicGpu]"
    "(6::uuid) \<noteq> 5"
    by (auto simp: is_all_static_fields_def is_all_dynamic_fields_def)
  then show ?thesis by (rule last_cache_raw_exact [THEN conjunct1])
qed


section \<open>Deletions\<close>



















section \<open>Static records lost for good\<close>














end
