(* ===== verification/Task.thy ===== *)
theory Task
  imports Kv_Auth "HOL-Library.Word"
begin

text \<open>
  The crate \<^verbatim>\<open>ng-task\<close> without its clean-up: the task types
  (\<^verbatim>\<open>types/mod.rs\<close>), the \<^verbatim>\<open>TaskManager\<close> with the sessions of the agents and
  the callers that wait for a result (\<^verbatim>\<open>rpc/mod.rs\<close>), and the RPC methods that
  create a task and upload its result.

  A request gives up the processor at every query and every lock it awaits.  It is
  a sequence of atomic steps: \<open>task_pc\<close> is the point it has reached and
  \<open>task_next\<close> performs the next step.
\<close>


section \<open>Task types\<close>

record web_shell_task =
  ws_url :: string
  ws_terminal_id :: uuid

record execute_task =
  ex_cmd :: string
  ex_args :: "string list"

record http_request_task =
  hr_url :: string
  hr_method :: string
  hr_headers :: "(string \<times> string) list"
  hr_body :: "string option"
  hr_body_base64 :: "string option"
  hr_ip :: "string option"

datatype dns_record_type = A | Aaaa | Cname | Mx | Txt | Ns | Srv | Ptr | Soa | Caa

record dns_task =
  dns_domain :: string
  dns_record_types :: "dns_record_type list"
  dns_server :: "string option"

record dns_record_result =
  dr_record_type :: dns_record_type
  dr_time :: "64 word"
  dr_data :: string

record http_request_task_result =
  hrr_status :: "16 word"
  hrr_headers :: "(string \<times> string) list list"
  hrr_body :: "string option"
  hrr_body_base64 :: "string option"

datatype task_event_type =
    Ping string | TcpPing string | HttpPing string
  | WebShell web_shell_task | Execute execute_task | HttpRequest http_request_task | Dns dns_task
  | ReadConfig | EditConfig string | Ip | Version | SelfUpdate string

primrec task_name :: "task_event_type \<Rightarrow> string" where
  "task_name (Ping _) = ''ping''"
| "task_name (TcpPing _) = ''tcp_ping''"
| "task_name (HttpPing _) = ''http_ping''"
| "task_name (WebShell _) = ''web_shell''"
| "task_name (Execute _) = ''execute''"
| "task_name (HttpRequest _) = ''http_request''"
| "task_name (Dns _) = ''dns''"
| "task_name (EditConfig _) = ''edit_config''"
| "task_name ReadConfig = ''read_config''"
| "task_name Ip = ''ip''"
| "task_name Version = ''version''"
| "task_name (SelfUpdate _) = ''self_update''"

text \<open>
  The results hold doubles by their bit pattern, addresses as text, and the version
  record of \<^verbatim>\<open>ng-core\<close> as its JSON value.
\<close>

datatype task_event_result =
    RPing "64 word" | RTcpPing "64 word" | RHttpPing "64 word"
  | RWebShell bool | RExecute string | RHttpRequest http_request_task_result
  | RDns "dns_record_result list" | RReadConfig string | REditConfig bool
  | RIp "string option" "string option" | RVersion json | RSelfUpdate bool

primrec result_task_name :: "task_event_result \<Rightarrow> string" where
  "result_task_name (RPing _) = ''ping''"
| "result_task_name (RTcpPing _) = ''tcp_ping''"
| "result_task_name (RHttpPing _) = ''http_ping''"
| "result_task_name (RWebShell _) = ''web_shell''"
| "result_task_name (RExecute _) = ''execute''"
| "result_task_name (RHttpRequest _) = ''http_request''"
| "result_task_name (RDns _) = ''dns''"
| "result_task_name (RReadConfig _) = ''read_config''"
| "result_task_name (REditConfig _) = ''edit_config''"
| "result_task_name (RIp _ _) = ''ip''"
| "result_task_name (RVersion _) = ''version''"
| "result_task_name (RSelfUpdate _) = ''self_update''"

record task_event =
  ev_task_id :: "64 word"
  ev_task_token :: string
  ev_type :: task_event_type

record task_response =
  rs_task_id :: "64 word"
  rs_agent_uuid :: uuid
  rs_task_token :: string
  rs_timestamp :: "64 word"
  rs_success :: bool
  rs_error_message :: "string option"
  rs_result :: "task_event_result option"

record task_row =
  tr_id :: "64 word"
  tr_uuid :: uuid
  tr_token :: string
  tr_cron_source :: "string option"
  tr_timestamp :: "64 word option"
  tr_success :: "bool option"
  tr_error_message :: "string option"
  tr_type :: json
  tr_result :: "json option"
  tr_created_at :: "64 word option"

definition validate_task_type :: "task_event_type \<Rightarrow> unit any_result" where
  "validate_task_type t =
     (case t of
        Execute e \<Rightarrow>
          if trim (ex_cmd e) = [] then err (InvalidInput ''Execute cmd cannot be empty'') else Inr ()
      | _ \<Rightarrow> Inr ())"


section \<open>The task manager\<close>

text \<open>
  A session of an agent is a registration and a queue: \<^verbatim>\<open>mpsc::channel(32)\<close>, with
  the events not yet taken by the forwarding loop.  A waiting caller is a
  \<^verbatim>\<open>oneshot\<close> cell.  Queues and cells live in the world and are named by numbers,
  given out in order.

  The last four fields are history, which no operation reads: the numbers the
  table has issued, the events the forwarding loops have passed to the agents, the
  results written to the table and those passed on to the waiters.
\<close>

record channel =
  ch_queue :: "task_event list"
  ch_open :: bool

datatype oneshot = OEmpty | OSent task_response | OClosed

record task_world =
  tk_ready :: bool
  tk_rows :: "task_row list"
  tk_peers :: "(uuid, uuid \<times> nat) hash_map"
  tk_waiters :: "(64 word, nat) hash_map"
  tk_channels :: "nat \<Rightarrow> channel"
  tk_cells :: "nat \<Rightarrow> oneshot"
  tk_next_channel :: nat
  tk_next_cell :: nat
  tk_issued :: "64 word list"
  tk_delivered :: "task_event list"
  tk_recorded :: "task_response list"
  tk_notified :: "task_response list"

definition QUEUE_CAPACITY :: nat where
  "QUEUE_CAPACITY = 32"

datatype task_send_error = NotConnected uuid | QueueFull uuid

primrec send_error_uuid :: "task_send_error \<Rightarrow> uuid" where
  "send_error_uuid (NotConnected u) = u"
| "send_error_uuid (QueueFull u) = u"

definition is_not_connected :: "task_send_error \<Rightarrow> bool" where
  "is_not_connected e = (case e of NotConnected _ \<Rightarrow> True | QueueFull _ \<Rightarrow> False)"

definition send_error_message :: "(uuid \<Rightarrow> string) \<Rightarrow> task_send_error \<Rightarrow> string" where
  "send_error_message show_uuid e =
     (case e of
        NotConnected u \<Rightarrow> ''Agent '' @ show_uuid u @ '' is not connected''
      | QueueFull u \<Rightarrow> ''Agent '' @ show_uuid u @ '' task queue is full'')"

definition add_session :: "uuid \<Rightarrow> uuid \<Rightarrow> nat \<Rightarrow> task_world \<Rightarrow> task_world" where
  "add_session u reg ch w = w\<lparr> tk_peers := hm_insert u (reg, ch) (tk_peers w) \<rparr>"

definition remove_session :: "uuid \<Rightarrow> uuid \<Rightarrow> task_world \<Rightarrow> task_world" where
  "remove_session u reg w =
     (case hm_get (tk_peers w) u of
        Some (current, _) \<Rightarrow> if current = reg then w\<lparr> tk_peers := hm_remove u (tk_peers w) \<rparr> else w
      | None \<Rightarrow> w)"

definition is_connected :: "task_world \<Rightarrow> uuid \<Rightarrow> bool" where
  "is_connected w u = (hm_get (tk_peers w) u \<noteq> None)"

definition connected_uuids :: "task_world \<Rightarrow> uuid list \<Rightarrow> uuid list" where
  "connected_uuids w candidates = filter (is_connected w) candidates"

definition send_lookup :: "uuid \<Rightarrow> task_world \<Rightarrow> task_send_error + nat" where
  "send_lookup u w =
     (case hm_get (tk_peers w) u of Some (_, ch) \<Rightarrow> Inr ch | None \<Rightarrow> Inl (NotConnected u))"

definition try_send :: "uuid \<Rightarrow> nat \<Rightarrow> task_event \<Rightarrow> task_world \<Rightarrow> (task_send_error + unit) \<times> task_world" where
  "try_send u ch ev w =
     (let c = tk_channels w ch
      in if \<not> ch_open c then (Inl (NotConnected u), w)
         else if length (ch_queue c) \<ge> QUEUE_CAPACITY then (Inl (QueueFull u), w)
         else (Inr (), w\<lparr> tk_channels := (tk_channels w)(ch := c\<lparr> ch_queue := ch_queue c @ [ev] \<rparr>) \<rparr>))"

text \<open>
  Dropping the sender of a cell that holds no value closes it; this happens when an
  entry of the waiters is removed or replaced.
\<close>

definition drop_sender :: "nat option \<Rightarrow> task_world \<Rightarrow> task_world" where
  "drop_sender cell w =
     (case cell of
        None \<Rightarrow> w
      | Some k \<Rightarrow> if tk_cells w k = OEmpty then w\<lparr> tk_cells := (tk_cells w)(k := OClosed) \<rparr> else w)"

definition register_blocking_waiter :: "64 word \<Rightarrow> task_world \<Rightarrow> nat \<times> task_world" where
  "register_blocking_waiter task_id w =
     (let cell = tk_next_cell w;
          w1 = drop_sender (hm_get (tk_waiters w) task_id) w
      in (cell, w1\<lparr> tk_cells := (tk_cells w1)(cell := OEmpty), tk_next_cell := Suc cell,
                    tk_waiters := hm_insert task_id cell (tk_waiters w1) \<rparr>))"

definition remove_blocking_waiter :: "64 word \<Rightarrow> task_world \<Rightarrow> task_world" where
  "remove_blocking_waiter task_id w =
     (drop_sender (hm_get (tk_waiters w) task_id) w)\<lparr> tk_waiters := hm_remove task_id (tk_waiters w) \<rparr>"

definition notify_blocking_waiter :: "64 word \<Rightarrow> task_response \<Rightarrow> task_world \<Rightarrow> bool \<times> task_world" where
  "notify_blocking_waiter task_id r w =
     (let w1 = w\<lparr> tk_waiters := hm_remove task_id (tk_waiters w) \<rparr>
      in case hm_get (tk_waiters w) task_id of
           None \<Rightarrow> (False, w1)
         | Some k \<Rightarrow> (True, w1\<lparr> tk_cells := (tk_cells w1)(k := OSent r) \<rparr>))"


section \<open>The requests\<close>

text \<open>
  What the environment supplies to a step: failures and texts of the database, the
  conversions of \<^verbatim>\<open>serde_json\<close>, the identifiers and the random token that are
  drawn, the clock, whether the timer of a waiting caller has fired, and whether the
  subscription of an agent still takes messages.
\<close>

datatype task_site = InsertTask | RollbackTask | FindTask | UpdateTask

record task_env =
  te_checker :: limit_checker
  te_fault :: "task_site \<Rightarrow> db_err option"
  te_display :: "db_err \<Rightarrow> string"
  te_show_uuid :: "uuid \<Rightarrow> string"
  te_show_u64 :: "64 word \<Rightarrow> string"
  te_type_to_value :: "task_event_type \<Rightarrow> string + json"
  te_type_from_value :: "json \<Rightarrow> string + task_event_type"
  te_result_to_value :: "task_event_result \<Rightarrow> string + json"
  te_new_id :: "64 word"
  te_new_token :: string
  te_new_reg :: uuid
  te_now :: "64 word"
  te_timeout :: bool
  te_sink_ok :: bool

record create_req =
  cq_token :: string
  cq_uuid :: uuid
  cq_type :: task_event_type
  cq_blocking :: bool
  cq_timeout_ms :: "64 word"

datatype task_reply = ReplyId "64 word" | ReplyResponse task_response | ReplyClosed

datatype task_pc =
    CCheck create_req | CInsert create_req json | CRegister create_req "64 word" string
  | CLookup create_req "64 word" string "nat option"
  | CTrySend create_req "64 word" string "nat option" nat
  | CRollback create_req "64 word" task_send_error | CWait create_req "64 word" nat
  | UCheck string task_response | UFind token_or_auth task_response
  | UUpdate task_response "json option" | UNotify task_response
  | LCheck string uuid | LForward uuid uuid nat | LEnd uuid uuid nat
  | Rejected int string
  | TDone "anyhow_error + task_reply"

definition to_pc :: "('a \<Rightarrow> task_pc) \<Rightarrow> 'a any_result \<Rightarrow> task_pc" where
  "to_pc f r = (case r of Inl e \<Rightarrow> TDone (Inl e) | Inr a \<Rightarrow> f a)"


subsection \<open>Creating a task\<close>

definition create_permissions :: "create_req \<Rightarrow> permission list" where
  "create_permissions q =
     PTask (Task_Create (task_name (cq_type q)))
     # (if cq_blocking q then [PTask (Task_Read (task_name (cq_type q)))] else [])"

definition create_denied :: "create_req \<Rightarrow> string" where
  "create_denied q =
     ''Permission Denied: Missing Task Create '' @ (if cq_blocking q then ''or Read '' else [])
     @ ''('' @ task_name (cq_type q) @ '') permission for this Agent''"

definition offline :: "task_env \<Rightarrow> uuid \<Rightarrow> string" where
  "offline D u = ''Agent '' @ te_show_uuid D u @ '' is not connected''"

definition c_check :: "task_env \<Rightarrow> create_req \<Rightarrow> task_world \<Rightarrow> json any_result" where
  "c_check D q w =
     rbind (validate_task_type (cq_type q)) (\<lambda>_.
     rbind (parse_token (cq_token q)) (\<lambda>cred.
     rbind (guard (Nodeget (ConfigNotFound ''PermissionChecker not initialized''))
              (ck_registered (te_checker D))) (\<lambda>_.
     rbind (ck_limit (te_checker D) cred [AgentUuid (cq_uuid q)] (create_permissions q)) (\<lambda>allowed.
     rbind (guard (Nodeget (PermissionDenied (create_denied q))) allowed) (\<lambda>_.
     rbind (guard (Nodeget (AgentOffline (offline D (cq_uuid q)))) (is_connected w (cq_uuid q))) (\<lambda>_.
     rbind (guard (Nodeget (DatabaseError ''DB not initialized'')) (tk_ready w)) (\<lambda>_.
       map_err (\<lambda>e. Nodeget (SerializationError
                       (nodeget_display (SerializationError (''Serialization error: '' @ e)))))
         (te_type_to_value D (cq_type q)))))))))"

definition pending_row :: "task_env \<Rightarrow> create_req \<Rightarrow> json \<Rightarrow> task_row" where
  "pending_row D q v =
     \<lparr> tr_id = te_new_id D, tr_uuid = cq_uuid q, tr_token = te_new_token D, tr_cron_source = None,
       tr_timestamp = None, tr_success = None, tr_error_message = None, tr_type = v, tr_result = None,
       tr_created_at = Some (te_now D) \<rparr>"

text \<open>
  After the insert the agent is registered in \<^verbatim>\<open>monitoring_uuid\<close>; a failure there is
  only logged, and nothing of it is read here.
\<close>

definition c_insert :: "task_env \<Rightarrow> create_req \<Rightarrow> json \<Rightarrow> task_world \<Rightarrow> task_pc \<times> task_world" where
  "c_insert D q v w =
     (case te_fault D InsertTask of
        Some e \<Rightarrow> (TDone (err (DatabaseError (''Database insert error: '' @ te_display D e))), w)
      | None \<Rightarrow>
          (CRegister q (te_new_id D) (te_new_token D),
           w\<lparr> tk_rows := tk_rows w @ [pending_row D q v], tk_issued := te_new_id D # tk_issued w \<rparr>))"

definition c_register :: "create_req \<Rightarrow> 64 word \<Rightarrow> string \<Rightarrow> task_world \<Rightarrow> task_pc \<times> task_world" where
  "c_register q n tok w =
     (if cq_blocking q
      then (case register_blocking_waiter n w of (k, w') \<Rightarrow> (CLookup q n tok (Some k), w'))
      else (CLookup q n tok None, w))"

definition send_failed :: "create_req \<Rightarrow> 64 word \<Rightarrow> task_send_error \<Rightarrow> task_world \<Rightarrow> task_pc \<times> task_world" where
  "send_failed q n e w =
     (CRollback q n e, if cq_blocking q then remove_blocking_waiter n w else w)"

definition c_lookup ::
  "create_req \<Rightarrow> 64 word \<Rightarrow> string \<Rightarrow> nat option \<Rightarrow> task_world \<Rightarrow> task_pc \<times> task_world" where
  "c_lookup q n tok cell w =
     (case send_lookup (cq_uuid q) w of
        Inl e \<Rightarrow> send_failed q n e w
      | Inr ch \<Rightarrow> (CTrySend q n tok cell ch, w))"

definition c_try_send ::
  "create_req \<Rightarrow> 64 word \<Rightarrow> string \<Rightarrow> nat option \<Rightarrow> nat \<Rightarrow> task_world \<Rightarrow> task_pc \<times> task_world" where
  "c_try_send q n tok cell ch w =
     (case try_send (cq_uuid q) ch \<lparr> ev_task_id = n, ev_task_token = tok, ev_type = cq_type q \<rparr> w of
        (Inl e, w') \<Rightarrow> send_failed q n e w'
      | (Inr _, w') \<Rightarrow>
          (case cell of
             None \<Rightarrow> TDone (Inr (ReplyId n))
           | Some k \<Rightarrow> CWait q n k, w'))"

definition rollback_note :: string where
  "rollback_note = ''; rollback also failed, see logs (task row may need manual cleanup)''"

definition c_rollback :: "task_env \<Rightarrow> create_req \<Rightarrow> 64 word \<Rightarrow> task_send_error \<Rightarrow> task_world \<Rightarrow> task_pc \<times> task_world" where
  "c_rollback D q n e w =
     (let failed = (te_fault D RollbackTask \<noteq> None);
          note_text = (if failed then rollback_note else [])
      in (TDone (err (if is_not_connected e then AgentOffline (offline D (cq_uuid q) @ note_text)
                      else AgentConnectionError (''Error sending task event: ''
                             @ send_error_message (te_show_uuid D) e @ note_text))),
          if failed then w else w\<lparr> tk_rows := tbl_delete (\<lambda>r. tr_id r = n) (tk_rows w) \<rparr>))"

definition c_wait :: "task_env \<Rightarrow> create_req \<Rightarrow> 64 word \<Rightarrow> nat \<Rightarrow> task_world \<Rightarrow> task_pc \<times> task_world" where
  "c_wait D q n k w =
     (case tk_cells w k of
        OSent r \<Rightarrow> (TDone (Inr (ReplyResponse r)), w)
      | OClosed \<Rightarrow>
          (TDone (err (Other ''Blocking waiter channel closed unexpectedly'')), remove_blocking_waiter n w)
      | OEmpty \<Rightarrow>
          if te_timeout D
          then (TDone (err (Other (''Task '' @ te_show_u64 D n @ '' timed out after ''
                   @ te_show_u64 D (cq_timeout_ms q) @ ''ms''))), remove_blocking_waiter n w)
          else (CWait q n k, w))"


subsection \<open>Uploading a result\<close>

definition has_any_task_write :: "token \<Rightarrow> uuid \<Rightarrow> bool" where
  "has_any_task_write t u =
     list_ex (\<lambda>l. list_ex (\<lambda>s. s = Global \<or> s = AgentUuid u) (scopes l)
              \<and> list_ex (\<lambda>p. case p of PTask (Task_Write _) \<Rightarrow> True | _ \<Rightarrow> False) (permissions l))
       (token_limit t)"

definition u_check :: "task_env \<Rightarrow> string \<Rightarrow> task_response \<Rightarrow> task_world \<Rightarrow> token_or_auth any_result" where
  "u_check D tok r w =
     rbind (parse_token tok) (\<lambda>cred.
     rbind (guard (Nodeget (ConfigNotFound ''PermissionChecker not initialized''))
              (ck_registered (te_checker D))) (\<lambda>_.
     rbind (map_err (\<lambda>e. Nodeget (PermissionDenied (anyhow_display e))) (ck_super (te_checker D) cred)) (\<lambda>is_super.
     rbind (if is_super then Inr ()
            else
              rbind (map_err (\<lambda>e. Nodeget (PermissionDenied (anyhow_display e))) (ck_get (te_checker D) cred))
                (\<lambda>t. guard (Nodeget (PermissionDenied
                        ''Permission Denied: Missing Task Write permission for this Agent''))
                        (has_any_task_write t (rs_agent_uuid r)))) (\<lambda>_.
     rbind (guard (Nodeget (DatabaseError ''DB not initialized'')) (tk_ready w)) (\<lambda>_.
       Inr cred)))))"

definition addressed :: "task_response \<Rightarrow> task_row \<Rightarrow> bool" where
  "addressed r row \<longleftrightarrow> tr_id row = rs_task_id r \<and> tr_uuid row = rs_agent_uuid r \<and> tr_token row = rs_task_token r"

definition u_find :: "task_env \<Rightarrow> token_or_auth \<Rightarrow> task_response \<Rightarrow> task_world \<Rightarrow> json option any_result" where
  "u_find D cred r w =
     (case te_fault D FindTask of
        Some e \<Rightarrow> err (DatabaseError (''Database query error: '' @ te_display D e))
      | None \<Rightarrow>
          rbind (ok_or (Nodeget (NotFound ''Task validation failed: Invalid ID, UUID, or Token''))
                   (tbl_find (addressed r) (tk_rows w))) (\<lambda>row.
          rbind (guard (Nodeget (InvalidInput ''Task result has already been uploaded''))
                   (tr_success row = None)) (\<lambda>_.
          rbind (map_err (\<lambda>e. Nodeget (SerializationError (''Failed to parse original task type: '' @ e)))
                   (te_type_from_value D (tr_type row))) (\<lambda>ty.
          rbind (ck_limit (te_checker D) cred [AgentUuid (rs_agent_uuid r)]
                   [PTask (Task_Write (task_name ty))]) (\<lambda>allowed.
          rbind (guard (Nodeget (PermissionDenied (''Permission Denied: Missing Task Write (''
                   @ task_name ty @ '') permission for this Agent''))) allowed) (\<lambda>_.
            (case rs_result r of
               None \<Rightarrow> Inr None
             | Some res \<Rightarrow>
                 map_err (\<lambda>e. Nodeget (SerializationError (nodeget_display
                     (SerializationError (''Failed to serialize task event result: '' @ e)))))
                   (rbind (te_result_to_value D res) (\<lambda>v. Inr (Some v))))))))))"

definition record_result :: "task_response \<Rightarrow> json option \<Rightarrow> task_row \<Rightarrow> task_row" where
  "record_result r v row =
     row\<lparr> tr_timestamp := Some (rs_timestamp r), tr_success := Some (rs_success r),
         tr_error_message := rs_error_message r, tr_result := v \<rparr>"

definition u_update :: "task_env \<Rightarrow> task_response \<Rightarrow> json option \<Rightarrow> task_world \<Rightarrow> task_pc \<times> task_world" where
  "u_update D r v w =
     (case te_fault D UpdateTask of
        Some e \<Rightarrow> (TDone (err (DatabaseError (''Database update error: '' @ te_display D e))), w)
      | None \<Rightarrow>
          let P = (\<lambda>row. addressed r row \<and> tr_success row = None)
          in if tbl_find P (tk_rows w) = None
             then (TDone (err (InvalidInput ''Task result has already been uploaded'')), w)
             else (UNotify r, w\<lparr> tk_rows := tbl_update P (record_result r v) (tk_rows w),
                                tk_recorded := r # tk_recorded w \<rparr>))"

definition u_notify :: "task_response \<Rightarrow> task_world \<Rightarrow> task_pc \<times> task_world" where
  "u_notify r w =
     (TDone (Inr (ReplyId (rs_task_id r))),
      (snd (notify_blocking_waiter (rs_task_id r) r w))\<lparr> tk_notified := r # tk_notified w \<rparr>)"


subsection \<open>The session of an agent\<close>

definition l_check :: "task_env \<Rightarrow> string \<Rightarrow> uuid \<Rightarrow> task_world \<Rightarrow> task_pc \<times> task_world" where
  "l_check D tok u w =
     (case from_full_token tok of
        Inl _ \<Rightarrow> (Rejected 101 ''Token Parse Error'', w)
      | Inr cred \<Rightarrow>
          if \<not> ck_registered (te_checker D) then (Rejected 101 ''PermissionChecker not initialized'', w)
          else
            (case ck_limit (te_checker D) cred [AgentUuid u] [PTask Task_Listen] of
               Inl e \<Rightarrow> (Rejected (error_code (anyhow_to_nodeget_error e))
                                (nodeget_display (anyhow_to_nodeget_error e)), w)
             | Inr False \<Rightarrow>
                 (Rejected 102 ''Permission Denied: Missing Task Listen permission for this Agent'', w)
             | Inr True \<Rightarrow>
                 let ch = tk_next_channel w
                 in (LForward u (te_new_reg D) ch,
                     add_session u (te_new_reg D) ch
                       (w\<lparr> tk_channels := (tk_channels w)(ch := \<lparr> ch_queue = [], ch_open = True \<rparr>),
                          tk_next_channel := Suc ch \<rparr>))))"

text \<open>
  \<^verbatim>\<open>rx.recv()\<close> yields the next event, or ends the loop once the session has been
  replaced or removed and the queue is empty.  A sender that a request still holds
  only delays that end.
\<close>

definition l_forward :: "task_env \<Rightarrow> uuid \<Rightarrow> uuid \<Rightarrow> nat \<Rightarrow> task_world \<Rightarrow> task_pc \<times> task_world" where
  "l_forward D u reg ch w =
     (case ch_queue (tk_channels w ch) of
        [] \<Rightarrow> if hm_get (tk_peers w) u = Some (reg, ch) then (LForward u reg ch, w) else (LEnd u reg ch, w)
      | ev # evs \<Rightarrow>
          let w1 = w\<lparr> tk_channels := (tk_channels w)(ch := (tk_channels w ch)\<lparr> ch_queue := evs \<rparr>) \<rparr>
          in if te_sink_ok D then (LForward u reg ch, w1\<lparr> tk_delivered := ev # tk_delivered w \<rparr>)
             else (LEnd u reg ch, w1))"

definition l_end :: "uuid \<Rightarrow> uuid \<Rightarrow> nat \<Rightarrow> task_world \<Rightarrow> task_pc \<times> task_world" where
  "l_end u reg ch w =
     (let w1 = remove_session u reg w
      in (TDone (Inr ReplyClosed),
          w1\<lparr> tk_channels := (tk_channels w1)(ch := \<lparr> ch_queue = [], ch_open = False \<rparr>) \<rparr>))"

primrec task_next :: "task_env \<Rightarrow> task_pc \<Rightarrow> task_world \<Rightarrow> task_pc \<times> task_world" where
  "task_next D (CCheck q) w = (to_pc (CInsert q) (c_check D q w), w)"
| "task_next D (CInsert q v) w = c_insert D q v w"
| "task_next D (CRegister q n tok) w = c_register q n tok w"
| "task_next D (CLookup q n tok cell) w = c_lookup q n tok cell w"
| "task_next D (CTrySend q n tok cell ch) w = c_try_send q n tok cell ch w"
| "task_next D (CRollback q n e) w = c_rollback D q n e w"
| "task_next D (CWait q n k) w = c_wait D q n k w"
| "task_next D (UCheck tok r) w = (to_pc (\<lambda>cred. UFind cred r) (u_check D tok r w), w)"
| "task_next D (UFind cred r) w = (to_pc (UUpdate r) (u_find D cred r w), w)"
| "task_next D (UUpdate r v) w = u_update D r v w"
| "task_next D (UNotify r) w = u_notify r w"
| "task_next D (LCheck tok u) w = l_check D tok u w"
| "task_next D (LForward u reg ch) w = l_forward D u reg ch w"
| "task_next D (LEnd u reg ch) w = l_end u reg ch w"
| "task_next D (Rejected c m) w = (Rejected c m, w)"
| "task_next D (TDone r) w = (TDone r, w)"

primrec task_steps :: "nat \<Rightarrow> task_env \<Rightarrow> task_pc \<Rightarrow> task_world \<Rightarrow> task_pc \<times> task_world" where
  "task_steps 0 D pc w = (pc, w)"
| "task_steps (Suc n) D pc w = (case task_next D pc w of (pc', w') \<Rightarrow> task_steps n D pc' w')"

text \<open>\<^verbatim>\<open>create_task\<close> alone ends after at most six steps.\<close>

definition create_task :: "task_env \<Rightarrow> create_req \<Rightarrow> task_world \<Rightarrow> task_pc \<times> task_world" where
  "create_task D q w = task_steps 6 D (CCheck (q\<lparr> cq_blocking := False \<rparr>)) w"

definition upload_task_result :: "task_env \<Rightarrow> string \<Rightarrow> task_response \<Rightarrow> task_world \<Rightarrow> task_pc \<times> task_world" where
  "upload_task_result D tok r w = task_steps 4 D (UCheck tok r) w"


section \<open>Many requests at once\<close>

datatype task_op = OpCreate create_req | OpUpload string task_response | OpListen string uuid

primrec task_start_pc :: "task_op \<Rightarrow> task_pc" where
  "task_start_pc (OpCreate q) = CCheck q"
| "task_start_pc (OpUpload tok r) = UCheck tok r"
| "task_start_pc (OpListen tok u) = LCheck tok u"

type_synonym task_system = "task_world \<times> (task_op \<times> task_pc) list"

text \<open>
  The token of a task is random and only the event carries it: an upload that
  names a task with its token comes after the event was passed to the agent, and
  no running upload has guessed the pair that is drawn for a new task.
\<close>

definition learned :: "task_world \<Rightarrow> task_response \<Rightarrow> bool" where
  "learned w r \<longleftrightarrow>
     (\<exists>ev\<in>set (tk_delivered w). ev_task_id ev = rs_task_id r \<and> ev_task_token ev = rs_task_token r)"

definition may_start :: "task_world \<Rightarrow> task_op \<Rightarrow> bool" where
  "may_start w oper \<longleftrightarrow>
     (case oper of
        OpUpload tok r \<Rightarrow>
          (\<forall>row\<in>set (tk_rows w). tr_id row = rs_task_id r \<and> tr_token row = rs_task_token r \<longrightarrow> learned w r)
      | _ \<Rightarrow> True)"

definition unguessed :: "task_env \<Rightarrow> (task_op \<times> task_pc) list \<Rightarrow> bool" where
  "unguessed D ts \<longleftrightarrow>
     (\<forall>(oper, pc)\<in>set ts.
        case oper of
          OpUpload tok r \<Rightarrow> (rs_task_id r, rs_task_token r) \<noteq> (te_new_id D, te_new_token D)
        | _ \<Rightarrow> True)"

text \<open>The number of a new registration is drawn at random too.\<close>

primrec session_of :: "task_pc \<Rightarrow> (uuid \<times> uuid \<times> nat) option" where
  "session_of (CCheck q) = None"
| "session_of (CInsert q v) = None"
| "session_of (CRegister q n tok) = None"
| "session_of (CLookup q n tok cell) = None"
| "session_of (CTrySend q n tok cell ch) = None"
| "session_of (CRollback q n e) = None"
| "session_of (CWait q n k) = None"
| "session_of (UCheck tok r) = None"
| "session_of (UFind cred r) = None"
| "session_of (UUpdate r v) = None"
| "session_of (UNotify r) = None"
| "session_of (LCheck tok u) = None"
| "session_of (LForward u reg ch) = Some (u, reg, ch)"
| "session_of (LEnd u reg ch) = Some (u, reg, ch)"
| "session_of (Rejected c m) = None"
| "session_of (TDone r) = None"

definition fresh_reg :: "task_env \<Rightarrow> (task_op \<times> task_pc) list \<Rightarrow> bool" where
  "fresh_reg D ts \<longleftrightarrow>
     (\<forall>(oper, pc)\<in>set ts. case session_of pc of Some (u, reg, ch) \<Rightarrow> reg \<noteq> te_new_reg D | None \<Rightarrow> True)"

inductive task_system_step :: "task_system \<Rightarrow> task_system \<Rightarrow> bool" where
  TStart: "task_system_step (w, ts) (w, ts @ [(oper, task_start_pc oper)])"
    if "may_start w oper"
| TNext: "task_system_step (w, ts) (w', ts[k := (oper, pc')])"
    if "k < length ts" and "ts ! k = (oper, pc)" and "task_next D pc w = (pc', w')"
      and "te_new_id D \<notin> set (tk_issued w)" and "unguessed D ts" and "fresh_reg D ts"
| TErase: "task_system_step (w, ts) (w\<lparr> tk_rows := filter P (tk_rows w) \<rparr>, ts)"

definition task_reach :: "task_system \<Rightarrow> task_system \<Rightarrow> bool" where
  "task_reach = task_system_step\<^sup>*\<^sup>*"

text \<open>A server that has just started: no session, nobody waiting, tasks of earlier runs in the table.\<close>

definition task_start :: "task_world \<Rightarrow> bool" where
  "task_start w \<longleftrightarrow> distinct (map tr_id (tk_rows w)) \<and> tr_id ` set (tk_rows w) \<subseteq> set (tk_issued w)
     \<and> ev_task_id ` set (tk_delivered w) \<subseteq> set (tk_issued w)
     \<and> tk_peers w = [] \<and> tk_waiters w = [] \<and> (\<forall>ch. ch_queue (tk_channels w ch) = [])
     \<and> tk_recorded w = [] \<and> tk_notified w = []"
end
