(* ===== verification/Task_Props.thy ===== *)
theory Task_Props
  imports Task
begin

text \<open>
  The properties of task dispatch: under every interleaving of requests a result is
  recorded once, a caller that waits gets exactly the recorded result and never
  misses it, a queue stays within its capacity and the newest session of an agent
  is the one that counts; and what creating a task leaves behind on every branch.
\<close>


section \<open>The invariant\<close>

definition delivered_ids :: "task_world \<Rightarrow> 64 word set" where
  "delivered_ids w = ev_task_id ` set (tk_delivered w)"

definition queued_ids :: "task_world \<Rightarrow> 64 word set" where
  "queued_ids w = {n. \<exists>ch. \<exists>ev\<in>set (ch_queue (tk_channels w ch)). ev_task_id ev = n}"

definition unsent :: "task_world \<Rightarrow> 64 word \<Rightarrow> bool" where
  "unsent w n \<longleftrightarrow> n \<notin> delivered_ids w \<and> n \<notin> queued_ids w"

definition notified_ids :: "task_world \<Rightarrow> 64 word set" where
  "notified_ids w = rs_task_id ` set (tk_notified w)"

definition recorded_ids :: "task_world \<Rightarrow> 64 word set" where
  "recorded_ids w = rs_task_id ` set (tk_recorded w)"

text \<open>The cell of a waiting caller: registered and empty, or filled with the result passed on.\<close>

definition waits :: "task_world \<Rightarrow> 64 word \<Rightarrow> nat \<Rightarrow> bool" where
  "waits w n k \<longleftrightarrow> k < tk_next_cell w
     \<and> (hm_get (tk_waiters w) n = Some k \<and> n \<notin> notified_ids w
        \<or> hm_get (tk_waiters w) n = None
          \<and> (\<exists>r\<in>set (tk_notified w). rs_task_id r = n \<and> tk_cells w k = OSent r))"

definition holds_result :: "task_response \<Rightarrow> task_row \<Rightarrow> bool" where
  "holds_result r row \<longleftrightarrow> tr_timestamp row = Some (rs_timestamp r) \<and> tr_success row = Some (rs_success r)
     \<and> tr_error_message row = rs_error_message r"

definition task_table_ok :: "task_world \<Rightarrow> bool" where
  "task_table_ok w \<longleftrightarrow>
     distinct (map tr_id (tk_rows w)) \<and> tr_id ` set (tk_rows w) \<subseteq> set (tk_issued w)
   \<and> delivered_ids w \<union> queued_ids w \<subseteq> set (tk_issued w)
   \<and> recorded_ids w \<subseteq> delivered_ids w \<and> set (tk_notified w) \<subseteq> set (tk_recorded w)
   \<and> distinct (map rs_task_id (tk_recorded w))
   \<and> (\<forall>row\<in>set (tk_rows w). tr_success row = None \<longrightarrow> tr_id row \<notin> recorded_ids w)
   \<and> (\<forall>row\<in>set (tk_rows w). \<forall>r\<in>set (tk_recorded w). tr_id row = rs_task_id r \<longrightarrow> holds_result r row)"

definition task_waiters_ok :: "task_world \<Rightarrow> bool" where
  "task_waiters_ok w \<longleftrightarrow>
     (\<forall>n k. hm_get (tk_waiters w) n = Some k
        \<longrightarrow> n \<in> set (tk_issued w) \<and> k < tk_next_cell w \<and> tk_cells w k = OEmpty)
   \<and> (\<forall>n m k. hm_get (tk_waiters w) n = Some k \<longrightarrow> hm_get (tk_waiters w) m = Some k \<longrightarrow> n = m)"

definition task_world_ok :: "task_world \<Rightarrow> bool" where
  "task_world_ok w \<longleftrightarrow> task_table_ok w \<and> task_waiters_ok w"

text \<open>The number a request is responsible for.\<close>

primrec owned :: "task_pc \<Rightarrow> 64 word set" where
  "owned (CCheck q) = {}"
| "owned (CInsert q v) = {}"
| "owned (CRegister q n tok) = {n}"
| "owned (CLookup q n tok cell) = {n}"
| "owned (CTrySend q n tok cell ch) = {n}"
| "owned (CRollback q n e) = {n}"
| "owned (CWait q n k) = {n}"
| "owned (UCheck tok r) = {}"
| "owned (UFind cred r) = {}"
| "owned (UUpdate r v) = {}"
| "owned (UNotify r) = {}"
| "owned (LCheck tok u) = {}"
| "owned (LForward u reg ch) = {}"
| "owned (LEnd u reg ch) = {}"
| "owned (Rejected c m) = {}"
| "owned (TDone r) = {}"

definition waiter_at :: "task_world \<Rightarrow> 64 word \<Rightarrow> create_req \<Rightarrow> nat option \<Rightarrow> bool" where
  "waiter_at w n q cell \<longleftrightarrow>
     (case cell of None \<Rightarrow> \<not> cq_blocking q \<and> hm_get (tk_waiters w) n = None
      | Some k \<Rightarrow> cq_blocking q \<and> waits w n k)"

fun thread_at :: "task_world \<Rightarrow> task_op \<Rightarrow> task_pc \<Rightarrow> bool" where
  "thread_at w (OpCreate q0) (CCheck q) \<longleftrightarrow> q = q0"
| "thread_at w (OpCreate q0) (CInsert q v) \<longleftrightarrow> q = q0"
| "thread_at w (OpCreate q0) (CRegister q n tok) \<longleftrightarrow>
     q = q0 \<and> n \<in> set (tk_issued w) \<and> unsent w n \<and> hm_get (tk_waiters w) n = None"
| "thread_at w (OpCreate q0) (CLookup q n tok cell) \<longleftrightarrow>
     q = q0 \<and> n \<in> set (tk_issued w) \<and> unsent w n \<and> waiter_at w n q cell"
| "thread_at w (OpCreate q0) (CTrySend q n tok cell ch) \<longleftrightarrow>
     q = q0 \<and> n \<in> set (tk_issued w) \<and> unsent w n \<and> waiter_at w n q cell"
| "thread_at w (OpCreate q0) (CRollback q n e) \<longleftrightarrow> q = q0 \<and> n \<in> set (tk_issued w)"
| "thread_at w (OpCreate q0) (CWait q n k) \<longleftrightarrow> q = q0 \<and> n \<in> set (tk_issued w) \<and> waits w n k"
| "thread_at w (OpCreate q0) (TDone (Inr (ReplyResponse r))) \<longleftrightarrow> r \<in> set (tk_notified w)"
| "thread_at w (OpCreate q0) (TDone (Inr (ReplyId n))) \<longleftrightarrow> \<not> cq_blocking q0"
| "thread_at w (OpCreate q0) (TDone (Inl e)) \<longleftrightarrow> True"
| "thread_at w (OpUpload t r0) (UCheck tok r) \<longleftrightarrow> r = r0"
| "thread_at w (OpUpload t r0) (UFind cred r) \<longleftrightarrow> r = r0"
| "thread_at w (OpUpload t r0) (UUpdate r v) \<longleftrightarrow> r = r0"
| "thread_at w (OpUpload t r0) (UNotify r) \<longleftrightarrow> r = r0 \<and> r \<in> set (tk_recorded w)"
| "thread_at w (OpUpload t r0) (TDone (Inr (ReplyId n))) \<longleftrightarrow> n = rs_task_id r0 \<and> r0 \<in> set (tk_notified w)"
| "thread_at w (OpUpload t r0) (TDone (Inl e)) \<longleftrightarrow> True"
| "thread_at w (OpListen t u0) (LCheck tok u) \<longleftrightarrow> True"
| "thread_at w (OpListen t u0) (LForward u reg ch) \<longleftrightarrow> True"
| "thread_at w (OpListen t u0) (LEnd u reg ch) \<longleftrightarrow> True"
| "thread_at w (OpListen t u0) (Rejected c m) \<longleftrightarrow> True"
| "thread_at w (OpListen t u0) (TDone (Inr ReplyClosed)) \<longleftrightarrow> True"
| "thread_at w _ _ \<longleftrightarrow> False"

definition secret :: "task_world \<Rightarrow> task_op \<Rightarrow> bool" where
  "secret w oper \<longleftrightarrow>
     (case oper of
        OpUpload tok r \<Rightarrow>
          (\<forall>row\<in>set (tk_rows w). tr_id row = rs_task_id r \<and> tr_token row = rs_task_token r
             \<longrightarrow> rs_task_id r \<in> delivered_ids w)
      | _ \<Rightarrow> True)"

definition task_inv :: "task_system \<Rightarrow> bool" where
  "task_inv s \<longleftrightarrow> task_world_ok (fst s)
     \<and> (\<forall>(oper, pc)\<in>set (snd s). thread_at (fst s) oper pc \<and> secret (fst s) oper)
     \<and> (\<forall>i<length (snd s). \<forall>j<length (snd s). i \<noteq> j \<longrightarrow> owned (snd (snd s ! i)) \<inter> owned (snd (snd s ! j)) = {})"


section \<open>What the steps do to the world\<close>

lemmas id_defs = delivered_ids_def queued_ids_def notified_ids_def recorded_ids_def

lemma ids_rows [simp]:
  "delivered_ids (w\<lparr> tk_rows := rs \<rparr>) = delivered_ids w" "queued_ids (w\<lparr> tk_rows := rs \<rparr>) = queued_ids w"
  "recorded_ids (w\<lparr> tk_rows := rs \<rparr>) = recorded_ids w" "notified_ids (w\<lparr> tk_rows := rs \<rparr>) = notified_ids w"
  by (simp_all add: id_defs)

lemma ids_issued [simp]:
  "delivered_ids (w\<lparr> tk_issued := ns \<rparr>) = delivered_ids w" "queued_ids (w\<lparr> tk_issued := ns \<rparr>) = queued_ids w"
  "recorded_ids (w\<lparr> tk_issued := ns \<rparr>) = recorded_ids w" "notified_ids (w\<lparr> tk_issued := ns \<rparr>) = notified_ids w"
  by (simp_all add: id_defs)

lemma waiters_okD:
  assumes "task_waiters_ok w" and "hm_get (tk_waiters w) n = Some k"
  shows "k < tk_next_cell w" and "tk_cells w k = OEmpty"
    and "hm_get (tk_waiters w) m = Some k \<Longrightarrow> m = n" and "n \<in> set (tk_issued w)"
  using assms unfolding task_waiters_ok_def by blast+

lemma task_table_ok_cong:
  assumes "task_table_ok w" and "tk_rows w' = tk_rows w" and "tk_issued w' = tk_issued w"
    and "delivered_ids w \<subseteq> delivered_ids w'" and "delivered_ids w' \<union> queued_ids w' \<subseteq> set (tk_issued w)"
    and "tk_recorded w' = tk_recorded w" and "set (tk_notified w') \<subseteq> set (tk_recorded w)"
  shows "task_table_ok w'"
  using assms unfolding task_table_ok_def recorded_ids_def by (metis subset_trans)

lemma waiters_ok_cong:
  assumes "task_waiters_ok w" and "tk_waiters w' = tk_waiters w" and "tk_cells w' = tk_cells w"
    and "tk_next_cell w' = tk_next_cell w" and "set (tk_issued w) \<subseteq> set (tk_issued w')"
  shows "task_waiters_ok w'"
  using assms(1,5) unfolding task_waiters_ok_def assms(2-4) by blast

lemma task_table_ok_erase: "task_table_ok w \<Longrightarrow> task_table_ok (w\<lparr> tk_rows := filter P (tk_rows w) \<rparr>)"
  by (auto simp: task_table_ok_def id_defs distinct_map_filter)

lemma task_table_ok_insert:
  assumes "task_table_ok w" and "tr_id row \<notin> set (tk_issued w)"
  shows "task_table_ok (w\<lparr> tk_rows := tk_rows w @ [row], tk_issued := tr_id row # tk_issued w \<rparr>)"
proof -
  have "tr_id row \<notin> recorded_ids w" using assms by (auto simp: task_table_ok_def)
  then have "tr_id row \<notin> recorded_ids w" and "\<forall>r\<in>set (tk_recorded w). tr_id row \<noteq> rs_task_id r"
    by (auto simp: recorded_ids_def)
  then show ?thesis using assms by (auto simp: task_table_ok_def)
qed

lemma distinct_ids_same: "distinct (map f xs) \<Longrightarrow> x \<in> set xs \<Longrightarrow> y \<in> set xs \<Longrightarrow> f x = f y \<Longrightarrow> x = y"
  by (auto simp: distinct_map inj_on_def)

lemma task_table_ok_update:
  assumes "task_table_ok w" and keep: "\<And>x. tr_id (g x) = tr_id x"
    and "rs_task_id r \<notin> recorded_ids w" and "rs_task_id r \<in> delivered_ids w"
    and none: "\<And>x. x \<in> set (tk_rows w) \<Longrightarrow> tr_success (g x) = None
           \<Longrightarrow> tr_id x \<noteq> rs_task_id r \<and> tr_id x \<notin> recorded_ids w"
    and holds: "\<And>x r'. x \<in> set (tk_rows w) \<Longrightarrow> r' \<in> set (r # tk_recorded w) \<Longrightarrow> tr_id x = rs_task_id r'
           \<Longrightarrow> holds_result r' (g x)"
  shows "task_table_ok (w\<lparr> tk_rows := map g (tk_rows w), tk_recorded := r # tk_recorded w \<rparr>)"
    (is "task_table_ok ?w")
proof -
  have "recorded_ids ?w = insert (rs_task_id r) (recorded_ids w)" and "delivered_ids ?w = delivered_ids w"
    and "queued_ids ?w = queued_ids w"
    by (simp_all add: id_defs)
  moreover have "distinct (map tr_id (tk_rows ?w))"
    using assms(1) by (simp add: task_table_ok_def keep comp_def)
  moreover have "tr_id ` set (tk_rows ?w) = tr_id ` set (tk_rows w)" by (simp add: keep image_image)
  moreover have "\<forall>row\<in>set (tk_rows ?w). tr_success row = None \<longrightarrow> tr_id row \<notin> insert (rs_task_id r) (recorded_ids w)"
    using none keep by auto
  moreover have "\<forall>row\<in>set (tk_rows ?w). \<forall>r'\<in>set (tk_recorded ?w). tr_id row = rs_task_id r' \<longrightarrow> holds_result r' row"
    using holds keep by auto
  moreover have "distinct (map rs_task_id (tk_recorded ?w))" and "set (tk_notified ?w) \<subseteq> set (tk_recorded ?w)"
    using assms(1,3) by (auto simp: task_table_ok_def recorded_ids_def)
  ultimately show ?thesis
    using assms(1,4) unfolding task_table_ok_def by simp
qed

lemma task_table_ok_record:
  assumes ok: "task_table_ok w" and row: "row \<in> set (tk_rows w)" "addressed r row" "tr_success row = None"
    and known: "rs_task_id r \<in> delivered_ids w"
  shows "task_table_ok (w\<lparr> tk_rows := tbl_update (\<lambda>row. addressed r row \<and> tr_success row = None)
                                     (record_result r v) (tk_rows w), tk_recorded := r # tk_recorded w \<rparr>)"
  unfolding tbl_update_def
proof (rule task_table_ok_update [OF ok _ _ known])
  let ?g = "\<lambda>row. if addressed r row \<and> tr_success row = None then record_result r v row else row"
  have id: "tr_id row = rs_task_id r" using row by (simp add: addressed_def)
  show "tr_id (?g x) = tr_id x" for x by (simp add: record_result_def)
  show new: "rs_task_id r \<notin> recorded_ids w" using ok row id by (auto simp: task_table_ok_def)
  have only: "?g x = record_result r v row" if "x \<in> set (tk_rows w)" "tr_id x = rs_task_id r" for x
    using that row ok id distinct_ids_same [of tr_id "tk_rows w" x row] by (auto simp: task_table_ok_def)
  show "tr_id x \<noteq> rs_task_id r \<and> tr_id x \<notin> recorded_ids w"
    if "x \<in> set (tk_rows w)" "tr_success (?g x) = None" for x
    using that only [of x] ok by (auto simp: record_result_def task_table_ok_def split: if_splits)
  show "holds_result r' (?g x)"
    if "x \<in> set (tk_rows w)" "r' \<in> set (r # tk_recorded w)" "tr_id x = rs_task_id r'" for x r'
  proof (cases "tr_id x = rs_task_id r")
    case True
    then have same: "r' = r" using that(2,3) new unfolding recorded_ids_def by (metis imageI set_ConsD)
    have "?g x = record_result r v row" using only [OF that(1) True] .
    then show ?thesis using same by (simp add: holds_result_def record_result_def)
  next
    case False
    then show ?thesis using that ok by (auto simp: addressed_def task_table_ok_def)
  qed
qed

text \<open>Registering, removing and notifying a waiter.\<close>

lemma register_waiter_eq:
  assumes "hm_get (tk_waiters w) n = None" and "register_blocking_waiter n w = (k, w')"
  shows "k = tk_next_cell w"
    and "w' = w\<lparr> tk_cells := (tk_cells w)(tk_next_cell w := OEmpty), tk_next_cell := Suc (tk_next_cell w),
               tk_waiters := hm_insert n (tk_next_cell w) (tk_waiters w) \<rparr>"
  using assms by (auto simp: register_blocking_waiter_def drop_sender_def Let_def)

lemma waiters_ok_register:
  assumes ok: "task_waiters_ok w" and "hm_get (tk_waiters w) n = None"
    and "register_blocking_waiter n w = (k, w')" and "n \<in> set (tk_issued w)"
  shows "task_waiters_ok w'"
proof -
  have "x < Suc (tk_next_cell w)" and "x \<noteq> tk_next_cell w" and "tk_cells w x = OEmpty"
    and "m \<in> set (tk_issued w)"
    if "hm_get (tk_waiters w) m = Some x" for m x
    using waiters_okD [OF ok that] by simp_all
  moreover have "m = m'" if "hm_get (tk_waiters w) m = Some x" "hm_get (tk_waiters w) m' = Some x" for m m' x
    using waiters_okD(3) [OF ok that(2) that(1)] .
  ultimately show ?thesis
    using assms(4) unfolding register_waiter_eq(2) [OF assms(2,3)] by (auto simp: task_waiters_ok_def split: if_splits)
qed

lemma drop_sender_simps [simp]:
  "tk_waiters (drop_sender c w) = tk_waiters w" "tk_next_cell (drop_sender c w) = tk_next_cell w"
  "tk_rows (drop_sender c w) = tk_rows w" "tk_issued (drop_sender c w) = tk_issued w"
  "tk_channels (drop_sender c w) = tk_channels w" "tk_delivered (drop_sender c w) = tk_delivered w"
  "tk_recorded (drop_sender c w) = tk_recorded w" "tk_notified (drop_sender c w) = tk_notified w"
  "tk_peers (drop_sender c w) = tk_peers w"
  by (simp_all add: drop_sender_def split: option.splits)

lemma drop_sender_cells:
  "tk_cells (drop_sender c w) k = (if c = Some k \<and> tk_cells w k = OEmpty then OClosed else tk_cells w k)"
  by (auto simp: drop_sender_def split: option.splits)

lemma waiters_ok_remove:
  assumes "task_waiters_ok w"
  shows "task_waiters_ok (remove_blocking_waiter n w)"
  using assms waiters_okD(3) [OF assms]
  by (auto simp: task_waiters_ok_def remove_blocking_waiter_def drop_sender_cells)

lemma waiters_ok_notify:
  assumes "task_waiters_ok w"
  shows "task_waiters_ok (snd (notify_blocking_waiter n r w))"
  using assms waiters_okD(3) [OF assms]
  by (auto simp: task_waiters_ok_def notify_blocking_waiter_def Let_def split: option.splits)

text \<open>What a step keeps of a task that is not the one it works on.\<close>

definition kept :: "task_world \<Rightarrow> task_world \<Rightarrow> 64 word \<Rightarrow> bool" where
  "kept w w' n \<longleftrightarrow> (unsent w n \<longrightarrow> unsent w' n)
     \<and> (hm_get (tk_waiters w) n = None \<longrightarrow> hm_get (tk_waiters w') n = None)
     \<and> (\<forall>k. waits w n k \<longrightarrow> waits w' n k)"

definition grown :: "task_world \<Rightarrow> task_world \<Rightarrow> bool" where
  "grown w w' \<longleftrightarrow> set (tk_issued w) \<subseteq> set (tk_issued w') \<and> set (tk_recorded w) \<subseteq> set (tk_recorded w')
     \<and> set (tk_notified w) \<subseteq> set (tk_notified w') \<and> delivered_ids w \<subseteq> delivered_ids w'"

lemma kept_refl [simp]: "kept w w n"
  by (simp add: kept_def)

lemma grown_refl [simp]: "grown w w"
  by (simp add: grown_def)

lemma kept_cong:
  assumes "tk_waiters w' = tk_waiters w" and "tk_cells w' = tk_cells w" and "tk_next_cell w' = tk_next_cell w"
    and "tk_notified w' = tk_notified w" and "unsent w n \<Longrightarrow> unsent w' n"
  shows "kept w w' n"
  using assms by (simp add: kept_def waits_def notified_ids_def)

lemma unsent_cong:
  "tk_delivered w' = tk_delivered w \<Longrightarrow> tk_channels w' = tk_channels w \<Longrightarrow> unsent w' n = unsent w n"
  by (simp add: unsent_def id_defs)

lemma kept_register:
  assumes "task_waiters_ok w" and "hm_get (tk_waiters w) m = None" and "n \<noteq> m"
    and "register_blocking_waiter m w = (k, w')"
  shows "kept w w' n"
proof -
  note w' = register_waiter_eq(2) [OF assms(2,4)]
  have "unsent w' n = unsent w n" by (rule unsent_cong) (simp_all add: w')
  then show ?thesis using assms(3) by (auto simp: kept_def waits_def notified_ids_def w')
qed

lemma kept_remove:
  assumes ok: "task_waiters_ok w" and "n \<noteq> m"
  shows "kept w (remove_blocking_waiter m w) n"
proof -
  have "tk_cells w k = OEmpty \<and> k < tk_next_cell w" if "hm_get (tk_waiters w) m = Some k" for k
    using waiters_okD [OF ok that] by simp
  then show ?thesis using assms
    by (auto simp: kept_def waits_def unsent_def id_defs remove_blocking_waiter_def drop_sender_cells)
qed

lemma kept_notify:
  assumes ok: "task_waiters_ok w" and "u_notify r w = (pc', w')"
  shows "kept w w' n"
proof -
  have w': "w' = w\<lparr> tk_waiters := hm_remove (rs_task_id r) (tk_waiters w),
      tk_cells := (case hm_get (tk_waiters w) (rs_task_id r) of None \<Rightarrow> tk_cells w
                   | Some k \<Rightarrow> (tk_cells w)(k := OSent r)),
      tk_notified := r # tk_notified w \<rparr>"
    using assms(2) by (auto simp: u_notify_def notify_blocking_waiter_def Let_def split: option.splits)
  have "waits w' n k" if wt: "waits w n k" for k
  proof (cases "hm_get (tk_waiters w) n")
    case None
    then obtain r' where r': "r' \<in> set (tk_notified w)" "rs_task_id r' = n" "tk_cells w k = OSent r'"
      using wt by (auto simp: waits_def)
    have "hm_get (tk_waiters w) (rs_task_id r) \<noteq> Some k" using waiters_okD(2) [OF ok] r'(3) by fastforce
    then have "tk_cells w' k = OSent r'" using r'(3) by (simp add: w' split: option.splits)
    then show ?thesis using that None r' by (auto simp: waits_def w')
  next
    case (Some k')
    then show ?thesis using that by (auto simp: waits_def w' notified_ids_def)
  qed
  moreover have "unsent w' n = unsent w n" by (rule unsent_cong) (simp_all add: w')
  ultimately show ?thesis by (simp add: kept_def w')
qed


section \<open>Every step keeps the invariant\<close>

text \<open>What one step of a request gives: the new world and position are consistent, the other tasks are untouched.\<close>

definition rows_from :: "task_env \<Rightarrow> task_world \<Rightarrow> task_world \<Rightarrow> bool" where
  "rows_from D w w' \<longleftrightarrow>
     (\<forall>row\<in>set (tk_rows w'). (\<exists>row0\<in>set (tk_rows w). tr_id row0 = tr_id row \<and> tr_token row0 = tr_token row)
        \<or> tr_id row = te_new_id D \<and> tr_token row = te_new_token D)"

definition step_good :: "task_env \<Rightarrow> task_op \<Rightarrow> task_world \<Rightarrow> task_pc \<Rightarrow> task_pc \<times> task_world \<Rightarrow> bool" where
  "step_good D oper w pc s \<longleftrightarrow> (case s of (pc', w') \<Rightarrow>
     task_world_ok w' \<and> thread_at w' oper pc' \<and> grown w w' \<and> rows_from D w w'
   \<and> (\<forall>n. n \<in> set (tk_issued w) - owned pc \<longrightarrow> kept w w' n)
   \<and> owned pc' \<subseteq> owned pc \<union> (- set (tk_issued w)))"

lemma rows_from_same: "tk_rows w' = tk_rows w \<Longrightarrow> rows_from D w w'"
  by (auto simp: rows_from_def)

lemma step_goodI:
  assumes "task_world_ok w'" and "thread_at w' oper pc'" and "grown w w'" and "rows_from D w w'"
    and "\<And>n. n \<in> set (tk_issued w) \<Longrightarrow> n \<notin> owned pc \<Longrightarrow> kept w w' n"
    and "owned pc' \<subseteq> owned pc \<union> (- set (tk_issued w))"
  shows "step_good D oper w pc (pc', w')"
  using assms by (simp add: step_good_def)

lemma step_good_same:
  assumes "task_world_ok w" and "thread_at w oper pc'" and "owned pc' \<subseteq> owned pc"
  shows "step_good D oper w pc (pc', w)"
  using assms by (intro step_goodI) (auto simp: rows_from_same)

lemma unsent_unnotified:
  assumes "task_table_ok w" and "unsent w n"
  shows "n \<notin> notified_ids w" and "n \<notin> recorded_ids w"
proof -
  have "notified_ids w \<subseteq> recorded_ids w" and "recorded_ids w \<subseteq> delivered_ids w"
    using assms(1) by (auto simp: task_table_ok_def notified_ids_def recorded_ids_def)
  then show "n \<notin> notified_ids w" and "n \<notin> recorded_ids w" using assms(2) by (auto simp: unsent_def)
qed

lemma good_insert:
  assumes "task_world_ok w" and "thread_at w (OpCreate q0) (CInsert q v)" and new: "te_new_id D \<notin> set (tk_issued w)"
  shows "step_good D (OpCreate q0) w (CInsert q v) (c_insert D q v w)"
proof (cases "te_fault D InsertTask")
  case (Some e)
  then show ?thesis using assms by (simp add: c_insert_def step_good_same)
next
  case None
  let ?w = "w\<lparr> tk_rows := tk_rows w @ [pending_row D q v], tk_issued := te_new_id D # tk_issued w \<rparr>"
  have id: "tr_id (pending_row D q v) = te_new_id D" by (simp add: pending_row_def)
  have "task_table_ok ?w" using task_table_ok_insert [of w "pending_row D q v"] assms(1) new
    by (simp add: id task_world_ok_def)
  moreover have "task_waiters_ok ?w" using assms(1) by (auto simp: task_world_ok_def intro: waiters_ok_cong)
  moreover have "hm_get (tk_waiters w) (te_new_id D) = None"
    using assms(1) new waiters_okD(4) [of w "te_new_id D"]
    by (cases "hm_get (tk_waiters w) (te_new_id D)") (auto simp: task_world_ok_def)
  moreover have "unsent w (te_new_id D)" using assms(1) new by (auto simp: task_world_ok_def task_table_ok_def unsent_def)
  moreover have "unsent ?w n = unsent w n" for n by (rule unsent_cong) simp_all
  ultimately show ?thesis using None assms
    by (auto simp: c_insert_def task_world_ok_def rows_from_def pending_row_def grown_def
             intro!: step_goodI kept_cong)
qed

lemma good_register:
  assumes ok: "task_world_ok w" and at: "thread_at w (OpCreate q0) (CRegister q n tok)"
  shows "step_good D (OpCreate q0) w (CRegister q n tok) (c_register q n tok w)"
proof (cases "cq_blocking q")
  case False
  then show ?thesis using assms by (simp add: c_register_def waiter_at_def step_good_same)
next
  case True
  have none: "hm_get (tk_waiters w) n = None" and n: "n \<in> set (tk_issued w)" and "unsent w n" using at by auto
  obtain k w' where reg: "register_blocking_waiter n w = (k, w')" by fastforce
  note w' = register_waiter_eq [OF none reg]
  have fresh: "n \<notin> notified_ids w"
    using ok \<open>unsent w n\<close> unsent_unnotified by (simp add: task_world_ok_def)
  have "task_waiters_ok w'" using waiters_ok_register [OF _ none reg n] ok by (simp add: task_world_ok_def)
  moreover have "task_table_ok w'"
    by (rule task_table_ok_cong [of w]) (use ok in \<open>auto simp: task_world_ok_def task_table_ok_def w' id_defs\<close>)
  moreover have "unsent w' n" using unsent_cong [of w' w n] \<open>unsent w n\<close> by (simp add: w')
  moreover have "waits w' n k" using fresh by (simp add: waits_def w' notified_ids_def)
  ultimately show ?thesis using True at kept_register [OF _ none _ reg] ok reg
    by (auto simp: c_register_def task_world_ok_def waiter_at_def w' grown_def id_defs
             intro!: step_goodI rows_from_same)
qed

lemma good_remove:
  assumes ok: "task_world_ok w" and at: "thread_at (remove_blocking_waiter n w) oper pc'"
    and "n \<in> owned pc" and "owned pc' \<subseteq> owned pc"
  shows "step_good D oper w pc (pc', remove_blocking_waiter n w)"
proof (rule step_goodI)
  let ?w = "remove_blocking_waiter n w"
  have same: "tk_rows ?w = tk_rows w" "tk_issued ?w = tk_issued w" "tk_recorded ?w = tk_recorded w"
    "tk_notified ?w = tk_notified w" "tk_delivered ?w = tk_delivered w" "tk_channels ?w = tk_channels w"
    by (simp_all add: remove_blocking_waiter_def)
  have "task_table_ok ?w"
    by (rule task_table_ok_cong [of w])
       (use ok in \<open>auto simp: task_world_ok_def task_table_ok_def same id_defs\<close>)
  then show "task_world_ok ?w" using ok waiters_ok_remove by (simp add: task_world_ok_def)
  show "grown w ?w" by (simp add: grown_def same id_defs)
  show "rows_from D w ?w" by (rule rows_from_same) (simp add: same)
  show "kept w ?w m" if "m \<notin> owned pc" for m
    using ok assms(3) that kept_remove [of w m n] by (auto simp: task_world_ok_def)
qed (use assms in auto)

lemma good_send_failed:
  assumes "task_world_ok w" and "n \<in> set (tk_issued w)" and "owned pc = {n}"
  shows "step_good D (OpCreate q) w pc (send_failed q n e w)"
  using assms good_remove [of w n "OpCreate q" "CRollback q n e" pc D]
  by (simp add: send_failed_def step_good_same remove_blocking_waiter_def)

lemma good_lookup:
  assumes "task_world_ok w" and "thread_at w (OpCreate q0) (CLookup q n tok cell)"
  shows "step_good D (OpCreate q0) w (CLookup q n tok cell) (c_lookup q n tok cell w)"
  using assms good_send_failed [of w n "CLookup q n tok cell"]
  by (auto simp: c_lookup_def step_good_same split: sum.splits)

lemma queued_push:
  assumes "w' = w\<lparr> tk_channels := (tk_channels w)(ch := (tk_channels w ch)\<lparr> ch_queue := ch_queue (tk_channels w ch) @ [ev] \<rparr>) \<rparr>"
  shows "queued_ids w' = insert (ev_task_id ev) (queued_ids w)"
  using assms by (auto simp: queued_ids_def split: if_splits)

lemma good_try_send:
  assumes ok: "task_world_ok w" and at: "thread_at w (OpCreate q0) (CTrySend q n tok cell ch)"
  shows "step_good D (OpCreate q0) w (CTrySend q n tok cell ch) (c_try_send q n tok cell ch w)"
proof (cases "try_send (cq_uuid q) ch \<lparr> ev_task_id = n, ev_task_token = tok, ev_type = cq_type q \<rparr> w")
  case (Pair res w')
  show ?thesis
  proof (cases res)
    case (Inl e)
    then have "w' = w" using Pair by (auto simp: try_send_def Let_def split: if_splits)
    then show ?thesis using assms Pair Inl good_send_failed [of w n "CTrySend q n tok cell ch"]
      by (simp add: c_try_send_def)
  next
    case (Inr u)
    let ?ev = "\<lparr> ev_task_id = n, ev_task_token = tok, ev_type = cq_type q \<rparr>"
    have w': "w' = w\<lparr> tk_channels := (tk_channels w)(ch := (tk_channels w ch)\<lparr> ch_queue := ch_queue (tk_channels w ch) @ [?ev] \<rparr>) \<rparr>"
      using Pair Inr by (auto simp: try_send_def Let_def split: if_splits)
    have q: "queued_ids w' = insert n (queued_ids w)" using queued_push [OF w'] by simp
    have d: "delivered_ids w' = delivered_ids w" by (simp add: w' delivered_ids_def)
    have "task_table_ok w'"
      by (rule task_table_ok_cong [of w]) (use ok at q d in \<open>auto simp: task_world_ok_def task_table_ok_def w'\<close>)
    moreover have "task_waiters_ok w'" by (rule waiters_ok_cong [of w]) (use ok in \<open>auto simp: task_world_ok_def w'\<close>)
    moreover have "kept w w' m" if "m \<noteq> n" for m
      by (rule kept_cong) (use that q d in \<open>auto simp: w' unsent_def\<close>)
    moreover have "waits w' n k = waits w n k" for k by (simp add: waits_def w' notified_ids_def)
    ultimately show ?thesis using Pair Inr at d
      by (auto simp: c_try_send_def task_world_ok_def waiter_at_def grown_def w' split: option.splits
               intro!: step_goodI rows_from_same)
  qed
qed

lemma good_erase:
  assumes ok: "task_world_ok w" and "thread_at w oper pc'" and "owned pc' = {}"
  shows "step_good D oper w pc (pc', w\<lparr> tk_rows := filter P (tk_rows w) \<rparr>)"
proof (rule step_goodI)
  let ?w = "w\<lparr> tk_rows := filter P (tk_rows w) \<rparr>"
  show "task_world_ok ?w" using ok task_table_ok_erase [of w P] waiters_ok_cong [of w ?w] by (simp add: task_world_ok_def)
  show "kept w ?w m" for m by (rule kept_cong) (simp_all add: unsent_def)
  show "thread_at ?w oper pc'" using assms(2,3) by (cases "(w, oper, pc')" rule: thread_at.cases) simp_all
qed (use assms in \<open>auto simp: grown_def rows_from_def\<close>)

lemma good_rollback:
  assumes "task_world_ok w" and "thread_at w (OpCreate q0) (CRollback q n e)"
  shows "step_good D (OpCreate q0) w (CRollback q n e) (c_rollback D q n e w)"
  using assms
  by (auto simp: c_rollback_def Let_def tbl_delete_def step_good_same intro!: good_erase)

lemma good_wait:
  assumes "task_world_ok w" and "thread_at w (OpCreate q0) (CWait q n k)"
  shows "step_good D (OpCreate q0) w (CWait q n k) (c_wait D q n k w)"
proof -
  have "tk_cells w k = OEmpty \<or> (\<exists>r\<in>set (tk_notified w). tk_cells w k = OSent r)"
    using assms waiters_okD(2) [of w n k] by (auto simp: waits_def task_world_ok_def)
  then show ?thesis using assms
    by (auto simp: c_wait_def step_good_same intro!: good_remove)
qed

lemma rows_from_map:
  assumes "tk_rows w' = map g (tk_rows w)" and "\<And>x. tr_id (g x) = tr_id x" and "\<And>x. tr_token (g x) = tr_token x"
  shows "rows_from D w w'"
  using assms by (auto simp: rows_from_def)

lemma good_update:
  assumes ok: "task_world_ok w" and at: "thread_at w (OpUpload t r0) (UUpdate r v)" and "secret w (OpUpload t r0)"
  shows "step_good D (OpUpload t r0) w (UUpdate r v) (u_update D r v w)"
proof (cases "te_fault D UpdateTask = None \<and> tbl_find (\<lambda>row. addressed r row \<and> tr_success row = None) (tk_rows w) \<noteq> None")
  case False
  then show ?thesis using assms by (auto simp: u_update_def Let_def step_good_same split: option.splits)
next
  case True
  let ?P = "\<lambda>row. addressed r row \<and> tr_success row = None"
  let ?w = "w\<lparr> tk_rows := tbl_update ?P (record_result r v) (tk_rows w), tk_recorded := r # tk_recorded w \<rparr>"
  obtain row where row: "row \<in> set (tk_rows w)" "addressed r row" "tr_success row = None"
    using True tbl_find_Some [of ?P "tk_rows w"] by (metis option.exhaust)
  have known: "rs_task_id r \<in> delivered_ids w" using assms(3) at row by (auto simp: secret_def addressed_def)
  have "task_table_ok ?w" using ok task_table_ok_record [OF _ row known] by (simp add: task_world_ok_def)
  moreover have "task_waiters_ok ?w" by (rule waiters_ok_cong [of w]) (use ok in \<open>simp_all add: task_world_ok_def\<close>)
  moreover have "kept w ?w n" for n by (rule kept_cong) (simp_all add: unsent_def id_defs)
  moreover have "rows_from D w ?w"
    by (rule rows_from_map [of _ "\<lambda>x. if ?P x then record_result r v x else x"])
       (simp_all add: tbl_update_def record_result_def)
  moreover have "grown w ?w" by (auto simp: grown_def id_defs)
  moreover have "u_update D r v w = (UNotify r, ?w)"
    using True unfolding u_update_def Let_def by (auto split: option.splits)
  moreover have "thread_at ?w (OpUpload t r0) (UNotify r)" using at by simp
  ultimately show ?thesis by (simp add: step_goodI task_world_ok_def)
qed

lemma good_notify:
  assumes ok: "task_world_ok w" and at: "thread_at w (OpUpload t r0) (UNotify r)"
  shows "step_good D (OpUpload t r0) w (UNotify r) (u_notify r w)"
proof -
  obtain pc' w' where step: "u_notify r w = (pc', w')" by fastforce
  have same: "tk_rows w' = tk_rows w" "tk_issued w' = tk_issued w" "tk_recorded w' = tk_recorded w"
    "tk_delivered w' = tk_delivered w" "tk_channels w' = tk_channels w" "tk_notified w' = r # tk_notified w"
    and pc': "pc' = TDone (Inr (ReplyId (rs_task_id r)))"
    using step by (auto simp: u_notify_def notify_blocking_waiter_def Let_def split: option.splits)
  have "task_table_ok w'"
    by (rule task_table_ok_cong [of w]) (use ok at in \<open>auto simp: task_world_ok_def task_table_ok_def same id_defs\<close>)
  moreover have "task_waiters_ok w'"
    by (rule waiters_ok_cong [of "snd (notify_blocking_waiter (rs_task_id r) r w)"])
       (use ok step waiters_ok_notify [of w] in \<open>auto simp: task_world_ok_def u_notify_def notify_blocking_waiter_def
          Let_def split: option.splits\<close>)
  ultimately show ?thesis using at kept_notify [OF _ step] ok unfolding step
    by (intro step_goodI) (auto simp: task_world_ok_def same pc' grown_def id_defs rows_from_same)
qed

text \<open>The steps of a session change queues and deliver events.\<close>

lemma good_channels:
  assumes ok: "task_world_ok w" and at: "thread_at w' (OpListen t u) pc'" and "owned pc' = {}"
    and same: "tk_rows w' = tk_rows w" "tk_issued w' = tk_issued w" "tk_recorded w' = tk_recorded w"
      "tk_notified w' = tk_notified w" "tk_waiters w' = tk_waiters w" "tk_cells w' = tk_cells w"
      "tk_next_cell w' = tk_next_cell w"
    and mono: "delivered_ids w \<subseteq> delivered_ids w'"
    and sent: "delivered_ids w' \<union> queued_ids w' \<subseteq> delivered_ids w \<union> queued_ids w"
  shows "step_good D (OpListen t u) w pc (pc', w')"
proof (rule step_goodI)
  have "task_table_ok w'"
    by (rule task_table_ok_cong [of w]) (use ok same mono sent in \<open>auto simp: task_world_ok_def task_table_ok_def\<close>)
  then show "task_world_ok w'"
    using ok waiters_ok_cong [of w w'] same by (simp add: task_world_ok_def)
  show "kept w w' n" for n by (rule kept_cong) (use same sent in \<open>auto simp: unsent_def\<close>)
qed (use assms in \<open>auto simp: grown_def rows_from_same\<close>)

lemma queued_ids_sub:
  assumes "\<And>c. set (ch_queue (tk_channels w' c)) \<subseteq> set (ch_queue (tk_channels w c))"
  shows "queued_ids w' \<subseteq> queued_ids w"
  using assms by (fastforce simp: queued_ids_def)

lemma good_l_check:
  assumes "task_world_ok w"
  shows "step_good D (OpListen t u0) w (LCheck tok u) (l_check D tok u w)"
proof -
  let ?ch = "tk_next_channel w"
  let ?w = "add_session u (te_new_reg D) ?ch
    (w\<lparr> tk_channels := (tk_channels w)(?ch := \<lparr> ch_queue = [], ch_open = True \<rparr>), tk_next_channel := Suc ?ch \<rparr>)"
  have "queued_ids ?w \<subseteq> queued_ids w" by (rule queued_ids_sub) (auto simp: add_session_def)
  moreover have "delivered_ids ?w = delivered_ids w" by (simp add: delivered_ids_def add_session_def)
  ultimately have "step_good D (OpListen t u0) w (LCheck tok u) (LForward u (te_new_reg D) ?ch, ?w)"
    by (intro good_channels [OF assms]) (auto simp: add_session_def)
  then show ?thesis using assms by (auto simp: l_check_def Let_def step_good_same split: sum.splits bool.splits)
qed

lemma good_l_forward:
  assumes "task_world_ok w"
  shows "step_good D (OpListen t u0) w (LForward u reg ch) (l_forward D u reg ch w)"
proof (cases "ch_queue (tk_channels w ch)")
  case Nil
  then show ?thesis using assms by (simp add: l_forward_def step_good_same)
next
  case (Cons ev evs)
  let ?w = "w\<lparr> tk_channels := (tk_channels w)(ch := (tk_channels w ch)\<lparr> ch_queue := evs \<rparr>) \<rparr>"
  have ev: "ev_task_id ev \<in> queued_ids w" using Cons by (auto simp: queued_ids_def intro!: exI [of _ ch])
  have q: "queued_ids ?w \<subseteq> queued_ids w" by (rule queued_ids_sub) (use Cons in auto)
  have q': "queued_ids (?w\<lparr> tk_delivered := ev # tk_delivered w \<rparr>) = queued_ids ?w" by (simp add: queued_ids_def)
  have d: "delivered_ids (?w\<lparr> tk_delivered := ev # tk_delivered w \<rparr>) = insert (ev_task_id ev) (delivered_ids w)"
    "delivered_ids ?w = delivered_ids w"
    by (simp_all add: delivered_ids_def)
  show ?thesis unfolding l_forward_def Cons Let_def
    by (cases "te_sink_ok D") (use assms q q' d ev in \<open>auto intro!: good_channels\<close>)
qed

lemma good_l_end:
  assumes "task_world_ok w"
  shows "step_good D (OpListen t u0) w (LEnd u reg ch) (l_end u reg ch w)"
proof -
  have same: "tk_channels (remove_session u reg w) = tk_channels w" "tk_rows (remove_session u reg w) = tk_rows w"
    "tk_issued (remove_session u reg w) = tk_issued w" "tk_recorded (remove_session u reg w) = tk_recorded w"
    "tk_notified (remove_session u reg w) = tk_notified w" "tk_waiters (remove_session u reg w) = tk_waiters w"
    "tk_cells (remove_session u reg w) = tk_cells w" "tk_next_cell (remove_session u reg w) = tk_next_cell w"
    "tk_delivered (remove_session u reg w) = tk_delivered w"
    by (simp_all add: remove_session_def split: option.splits)
  let ?w = "snd (l_end u reg ch w)"
  have "queued_ids ?w \<subseteq> queued_ids w" by (rule queued_ids_sub) (auto simp: l_end_def Let_def same)
  moreover have "delivered_ids ?w = delivered_ids w" by (simp add: delivered_ids_def l_end_def Let_def same)
  ultimately show ?thesis using assms
    by (auto simp: l_end_def Let_def same intro!: good_channels)
qed

lemma good_step:
  assumes "task_world_ok w" and "thread_at w oper pc" and "secret w oper" and "te_new_id D \<notin> set (tk_issued w)"
  shows "step_good D oper w pc (task_next D pc w)"
proof -
  consider (c) q where "oper = OpCreate q" | (u) t r where "oper = OpUpload t r" | (l) t u where "oper = OpListen t u"
    by (cases oper) auto
  then show ?thesis
  proof cases
    case c
    then show ?thesis using assms
      by (cases "(w, oper, pc)" rule: thread_at.cases)
         (auto simp: to_pc_def step_good_same good_insert good_register good_lookup good_try_send good_rollback
            good_wait simp del: thread_at.simps(3-7) split: sum.splits)
  next
    case u
    then show ?thesis using assms
      by (cases "(w, oper, pc)" rule: thread_at.cases)
         (auto simp: to_pc_def step_good_same good_update good_notify split: sum.splits)
  next
    case l
    then show ?thesis using assms
      by (cases "(w, oper, pc)" rule: thread_at.cases)
         (auto simp: step_good_same good_l_check good_l_forward good_l_end)
  qed
qed

lemma thread_at_owned: "thread_at w oper pc \<Longrightarrow> owned pc \<subseteq> set (tk_issued w)"
  by (cases "(w, oper, pc)" rule: thread_at.cases) auto

lemma thread_at_kept:
  assumes "thread_at w oper pc" and "grown w w'" and "\<And>n. n \<in> owned pc \<Longrightarrow> kept w w' n"
  shows "thread_at w' oper pc"
  using assms
  by (cases "(w, oper, pc)" rule: thread_at.cases)
     (auto simp: grown_def kept_def waiter_at_def split: option.splits)

lemma secret_kept:
  assumes "secret w oper" and "grown w w'" and "rows_from D w w'"
    and "\<And>t r. oper = OpUpload t r \<Longrightarrow> (rs_task_id r, rs_task_token r) \<noteq> (te_new_id D, te_new_token D)"
  shows "secret w' oper"
proof (cases oper)
  case (OpUpload t r)
  have "rs_task_id r \<in> delivered_ids w'"
    if row: "row \<in> set (tk_rows w')" "tr_id row = rs_task_id r" "tr_token row = rs_task_token r" for row
  proof -
    obtain row0 where "row0 \<in> set (tk_rows w)" "tr_id row0 = rs_task_id r" "tr_token row0 = rs_task_token r"
      using assms(3,4) OpUpload row unfolding rows_from_def by fastforce
    then show ?thesis using assms(1,2) OpUpload by (auto simp: secret_def grown_def)
  qed
  then show ?thesis by (auto simp: secret_def OpUpload)
qed (simp_all add: secret_def)

lemma task_invD:
  assumes "task_inv (w, ts)"
  shows "task_world_ok w" and "(oper, pc) \<in> set ts \<Longrightarrow> thread_at w oper pc"
    and "(oper, pc) \<in> set ts \<Longrightarrow> secret w oper"
    and "i < length ts \<Longrightarrow> j < length ts \<Longrightarrow> i \<noteq> j \<Longrightarrow> owned (snd (ts ! i)) \<inter> owned (snd (ts ! j)) = {}"
  using assms by (auto simp: task_inv_def)

lemma task_invI:
  assumes "task_world_ok w" and "\<And>i. i < length ts \<Longrightarrow> thread_at w (fst (ts ! i)) (snd (ts ! i))"
    and "\<And>i. i < length ts \<Longrightarrow> secret w (fst (ts ! i))"
    and "\<And>i j. i < length ts \<Longrightarrow> j < length ts \<Longrightarrow> i \<noteq> j \<Longrightarrow> owned (snd (ts ! i)) \<inter> owned (snd (ts ! j)) = {}"
  shows "task_inv (w, ts)"
  using assms by (fastforce simp: task_inv_def in_set_conv_nth)

lemma inv_next:
  assumes inv: "task_inv (w, ts)" and k: "k < length ts" "ts ! k = (oper, pc)"
    and step: "task_next D pc w = (pc', w')" and new: "te_new_id D \<notin> set (tk_issued w)" and secret: "unguessed D ts"
  shows "task_inv (w', ts[k := (oper, pc')])"
proof (rule task_invI)
  have mem: "(oper, pc) \<in> set ts" using k by (metis nth_mem)
  have at: "thread_at w (fst (ts ! j)) (snd (ts ! j))" "secret w (fst (ts ! j))" if "j < length ts" for j
    using that task_invD(2,3) [OF inv, of "fst (ts ! j)" "snd (ts ! j)"] by simp_all
  have "step_good D oper w pc (pc', w')"
    using good_step [OF task_invD(1-3) [OF inv] new, of oper pc] mem step by simp
  then have good: "task_world_ok w'" "thread_at w' oper pc'" "grown w w'" "rows_from D w w'"
    "\<And>n. n \<in> set (tk_issued w) \<Longrightarrow> n \<notin> owned pc \<Longrightarrow> kept w w' n"
    "owned pc' \<subseteq> owned pc \<union> (- set (tk_issued w))"
    by (auto simp: step_good_def)
  show "task_world_ok w'" by fact
  have apart: "owned pc \<inter> owned (snd (ts ! j)) = {}" if "j < length ts" "j \<noteq> k" for j
    using task_invD(4) [OF inv k(1) that(1)] that k by simp
  have inside: "owned (snd (ts ! j)) \<subseteq> set (tk_issued w)" if "j < length ts" for j
    using thread_at_owned [OF at(1) [OF that]] .
  show "thread_at w' (fst (ts[k := (oper, pc')] ! j)) (snd (ts[k := (oper, pc')] ! j))"
    if "j < length (ts[k := (oper, pc')])" for j
  proof (cases "j = k")
    case False
    then have j: "j < length ts" "j \<noteq> k" using that by simp_all
    have "thread_at w' (fst (ts ! j)) (snd (ts ! j))"
      by (rule thread_at_kept [OF at(1) [OF j(1)] good(3)]) (use good(5) apart [OF j] inside [OF j(1)] in blast)
    then show ?thesis using False by simp
  qed (use good(2) k in simp)
  show "secret w' (fst (ts[k := (oper, pc')] ! j))" if "j < length (ts[k := (oper, pc')])" for j
  proof -
    have j: "j < length ts" and "fst (ts[k := (oper, pc')] ! j) = fst (ts ! j)"
      using that k by (cases "j = k"; simp)+
    moreover have "secret w' (fst (ts ! j))"
      by (rule secret_kept [OF at(2) [OF j] good(3,4)])
         (use secret nth_mem [OF j] in \<open>cases "ts ! j"; force simp: unguessed_def\<close>)
    ultimately show ?thesis by simp
  qed
  have moved: "owned pc' \<inter> owned (snd (ts ! j)) = {}" if "j < length ts" "j \<noteq> k" for j
    using good(6) apart [OF that] inside [OF that(1)] by blast
  show "owned (snd (ts[k := (oper, pc')] ! i)) \<inter> owned (snd (ts[k := (oper, pc')] ! j)) = {}"
    if "i < length (ts[k := (oper, pc')])" "j < length (ts[k := (oper, pc')])" "i \<noteq> j" for i j
    using that k moved [of i] moved [of j] task_invD(4) [OF inv, of i j]
    by (cases "i = k"; cases "j = k") (simp_all add: Int_commute)
qed

lemma inv_start:
  assumes inv: "task_inv (w, ts)" and "may_start w oper"
  shows "task_inv (w, ts @ [(oper, task_start_pc oper)])"
proof -
  have known: "learned w r \<Longrightarrow> rs_task_id r \<in> delivered_ids w" for r
    unfolding learned_def delivered_ids_def by (metis imageI)
  have "thread_at w oper (task_start_pc oper)" and none: "owned (task_start_pc oper) = {}"
    by (cases oper; simp)+
  moreover have "secret w oper"
    using assms(2) by (auto simp: may_start_def secret_def known split: task_op.splits)
  ultimately show ?thesis using inv by (auto simp: task_inv_def nth_append less_Suc_eq)
qed

lemma inv_erase:
  assumes inv: "task_inv (w, ts)"
  shows "task_inv (w\<lparr> tk_rows := filter P (tk_rows w) \<rparr>, ts)"
proof (rule task_invI)
  let ?w = "w\<lparr> tk_rows := filter P (tk_rows w) \<rparr>"
  show "task_world_ok ?w"
    using task_invD(1) [OF inv] task_table_ok_erase [of w P] waiters_ok_cong [of w ?w] by (simp add: task_world_ok_def)
  have kept: "kept w ?w n" for n by (rule kept_cong) (simp_all add: unsent_def)
  have grown: "grown w ?w" by (simp add: grown_def)
  show "thread_at ?w (fst (ts ! i)) (snd (ts ! i))" if "i < length ts" for i
    using that task_invD(2) [OF inv, of "fst (ts ! i)" "snd (ts ! i)"] by (intro thread_at_kept [OF _ grown kept]) simp
  show "secret ?w (fst (ts ! i))" if "i < length ts" for i
    using that task_invD(3) [OF inv, of "fst (ts ! i)" "snd (ts ! i)"]
    by (auto simp: secret_def split: task_op.splits)
qed (rule task_invD(4) [OF inv])

lemma inv_init: "task_start w \<Longrightarrow> task_inv (w, [])"
  by (auto simp: task_start_def task_inv_def task_world_ok_def task_table_ok_def task_waiters_ok_def id_defs)

lemma task_reach_inv:
  assumes "task_start w0" and "task_reach (w0, []) s"
  shows "task_inv s"
  using assms(2) unfolding task_reach_def
proof (induction rule: rtranclp_induct)
  case (step s s')
  from step(2) step(3) show ?case
    by (cases rule: task_system_step.cases) (auto intro: inv_start inv_next inv_erase)
qed (use assms(1) inv_init in simp)


subsection \<open>Sessions\<close>





lemma remove_waiter_same [simp]:
  "tk_peers (remove_blocking_waiter n w) = tk_peers w"
  "tk_channels (remove_blocking_waiter n w) = tk_channels w"
  "tk_next_channel (remove_blocking_waiter n w) = tk_next_channel w"
  by (simp_all add: remove_blocking_waiter_def drop_sender_def split: option.splits)


lemma notify_waiter_same [simp]:
  "tk_peers (snd (notify_blocking_waiter n r w)) = tk_peers w"
  "tk_channels (snd (notify_blocking_waiter n r w)) = tk_channels w"
  "tk_next_channel (snd (notify_blocking_waiter n r w)) = tk_next_channel w"
  by (simp_all add: notify_blocking_waiter_def Let_def split: option.splits)

lemma remove_session_same [simp]:
  "tk_channels (remove_session u reg w) = tk_channels w"
  "tk_next_channel (remove_session u reg w) = tk_next_channel w"
  by (simp_all add: remove_session_def split: option.splits)

















section \<open>A run of the server\<close>

text \<open>An executable scheduler, for concrete runs: every run it accepts is one of the step relation.\<close>

datatype task_choice = Begin task_op | Go nat task_env

definition task_choose :: "task_choice \<Rightarrow> task_system \<Rightarrow> task_system option" where
  "task_choose c s =
     (case c of
        Begin oper \<Rightarrow>
          if may_start (fst s) oper then Some (fst s, snd s @ [(oper, task_start_pc oper)]) else None
      | Go k D \<Rightarrow>
          if k < length (snd s) \<and> te_new_id D \<notin> set (tk_issued (fst s)) \<and> unguessed D (snd s) \<and> fresh_reg D (snd s)
          then (case task_next D (snd (snd s ! k)) (fst s) of
                  (pc', w') \<Rightarrow> Some (w', (snd s)[k := (fst (snd s ! k), pc')]))
          else None)"

primrec task_play :: "task_choice list \<Rightarrow> task_system \<Rightarrow> task_system option" where
  "task_play [] s = Some s"
| "task_play (c # cs) s = (case task_choose c s of None \<Rightarrow> None | Some s' \<Rightarrow> task_play cs s')"

lemma task_choose_step: "task_choose c s = Some s' \<Longrightarrow> task_system_step s s'"
  by (cases s)
     (auto simp: task_choose_def split: task_choice.splits if_splits prod.splits intro!: TStart TNext)

lemma task_play_reach: "task_play cs s = Some s' \<Longrightarrow> task_reach s s'"
  unfolding task_reach_def
  by (induction cs arbitrary: s)
     (auto split: option.splits dest: task_choose_step intro: converse_rtranclp_into_rtranclp)

definition demo_task_checker :: limit_checker where
  "demo_task_checker =
     \<lparr> ck_registered = True, ck_super = (\<lambda>_. Inr True), ck_get = (\<lambda>_. err (NotFound [])), ck_now = Inr 0,
       ck_limit = (\<lambda>_ _ _. Inr True) \<rparr>"

definition demo_task_env :: "64 word \<Rightarrow> uuid \<Rightarrow> task_env" where
  "demo_task_env n reg =
     \<lparr> te_checker = demo_task_checker, te_fault = (\<lambda>_. None), te_display = (\<lambda>_. []), te_show_uuid = (\<lambda>_. []),
       te_show_u64 = (\<lambda>_. []), te_type_to_value = (\<lambda>_. Inr JNull), te_type_from_value = (\<lambda>_. Inr Version),
       te_result_to_value = (\<lambda>_. Inr JNull), te_new_id = n, te_new_token = ''secret'', te_new_reg = reg,
       te_now = 0, te_timeout = True, te_sink_ok = True \<rparr>"

definition demo_task_world :: task_world where
  "demo_task_world =
     \<lparr> tk_ready = True, tk_rows = [], tk_peers = [], tk_waiters = [],
       tk_channels = (\<lambda>_. \<lparr> ch_queue = [], ch_open = False \<rparr>), tk_cells = (\<lambda>_. OEmpty),
       tk_next_channel = 0, tk_next_cell = 0, tk_issued = [], tk_delivered = [], tk_recorded = [], tk_notified = [] \<rparr>"

definition demo_req :: create_req where
  "demo_req = \<lparr> cq_token = ''a:b'', cq_uuid = 7, cq_type = Version, cq_blocking = True, cq_timeout_ms = 1000 \<rparr>"

definition demo_response :: task_response where
  "demo_response =
     \<lparr> rs_task_id = 1, rs_agent_uuid = 7, rs_task_token = ''secret'', rs_timestamp = 5, rs_success = True,
       rs_error_message = None, rs_result = None \<rparr>"

text \<open>The agent connects, a caller creates a task and waits, the agent gets it and uploads the result.\<close>

definition demo_script :: "task_choice list" where
  "demo_script =
     [Begin (OpListen ''a:b'' 7), Go 0 (demo_task_env 1 9), Begin (OpCreate demo_req)]
     @ replicate 2 (Go 1 (demo_task_env 1 8)) @ replicate 3 (Go 1 (demo_task_env 2 8))
     @ [Go 0 (demo_task_env 2 8), Begin (OpUpload ''a:b'' demo_response)]
     @ replicate 4 (Go 2 (demo_task_env 2 8))"

definition demo_end :: task_system where
  "demo_end = the (task_play demo_script (demo_task_world, []))"

lemma demo_task_run:
  "case task_play demo_script (demo_task_world, []) of
     None \<Rightarrow> False
   | Some (w, ts) \<Rightarrow> ts = [(OpListen ''a:b'' 7, LForward 7 9 0), (OpCreate demo_req, CWait demo_req 1 0),
               (OpUpload ''a:b'' demo_response, TDone (Inr (ReplyId 1)))]
       \<and> tk_recorded w = [demo_response] \<and> tk_notified w = [demo_response]"
  by code_simp

lemma demo_task_start: "task_start demo_task_world"
  by (simp add: task_start_def demo_task_world_def)

lemma demo_end_facts:
  "task_reach (demo_task_world, []) demo_end"
  "(OpCreate demo_req, CWait demo_req 1 0) \<in> set (snd demo_end)"
  "tk_recorded (fst demo_end) = [demo_response]" "tk_notified (fst demo_end) = [demo_response]"
  using demo_task_run task_play_reach [of demo_script "(demo_task_world, [])" demo_end]
  by (auto simp: demo_end_def split: option.splits prod.splits)


section \<open>The properties\<close>

text \<open>
  (C29) For every interleaving of task creations, uploads, agent sessions and row
  deletions: a result is recorded at most once for each task, only for a task whose
  event was passed to its agent; the row of a recorded task, while it exists, holds
  the status, time and message of exactly that result, which no later upload
  overwrites; and an upload is acknowledged only when its own result is the recorded one.
\<close>

theorem task_result_once:
  assumes "task_start w0" and "task_reach (w0, []) (w, ts)"
  shows "distinct (map rs_task_id (tk_recorded w))
    \<and> (\<forall>r\<in>set (tk_recorded w). (\<exists>ev\<in>set (tk_delivered w). ev_task_id ev = rs_task_id r)
         \<and> (\<forall>row\<in>set (tk_rows w). tr_id row = rs_task_id r \<longrightarrow> holds_result r row))
    \<and> (\<forall>t r n. (OpUpload t r, TDone (Inr (ReplyId n))) \<in> set ts \<longrightarrow> n = rs_task_id r \<and> r \<in> set (tk_recorded w))"
proof -
  note inv = task_reach_inv [OF assms]
  have ok: "task_table_ok w" using task_invD(1) [OF inv] by (simp add: task_world_ok_def)
  have "\<exists>ev\<in>set (tk_delivered w). ev_task_id ev = rs_task_id r" if "r \<in> set (tk_recorded w)" for r
  proof -
    have "rs_task_id r \<in> delivered_ids w" using ok that by (auto simp: task_table_ok_def recorded_ids_def)
    then show ?thesis by (auto simp: delivered_ids_def)
  qed
  moreover have "n = rs_task_id r \<and> r \<in> set (tk_recorded w)"
    if "(OpUpload t r, TDone (Inr (ReplyId n))) \<in> set ts" for t r n
    using task_invD(2) [OF inv that] ok by (auto simp: task_table_ok_def)
  ultimately show ?thesis using ok by (simp add: task_table_ok_def)
qed

theorem task_result_once_witness:
  "distinct (map rs_task_id (tk_recorded (fst demo_end)))
    \<and> (\<exists>ev. ev \<in> set (tk_delivered (fst demo_end)) \<and> ev_task_id ev = rs_task_id demo_response)"
  using task_result_once [OF demo_task_start, of "fst demo_end" "snd demo_end"] demo_end_facts by auto

text \<open>
  (C30) Whatever else runs: a blocking caller is answered only with a result that was
  recorded in the table; when the result of its task has been passed on, its next
  step returns exactly that result, even if its timer has fired at the same time; and
  until then it waits or times out.  Its channel is never found closed.
\<close>

theorem blocking_gets_recorded_result:
  assumes "task_start w0" and "task_reach (w0, []) (w, ts)"
  shows "(\<forall>q r. (OpCreate q, TDone (Inr (ReplyResponse r))) \<in> set ts \<longrightarrow> r \<in> set (tk_recorded w))
    \<and> (\<forall>q q' n k. (OpCreate q, CWait q' n k) \<in> set ts \<longrightarrow>
         (if n \<in> rs_task_id ` set (tk_notified w)
          then \<exists>r\<in>set (tk_recorded w). rs_task_id r = n
                 \<and> (\<forall>D. task_next D (CWait q' n k) w = (TDone (Inr (ReplyResponse r)), w))
          else \<forall>D. fst (task_next D (CWait q' n k) w) =
                 (if te_timeout D
                  then TDone (err (Other (''Task '' @ te_show_u64 D n @ '' timed out after ''
                         @ te_show_u64 D (cq_timeout_ms q) @ ''ms'')))
                  else CWait q n k)))"
proof -
  note inv = task_reach_inv [OF assms]
  have ok: "task_waiters_ok w" and sub: "set (tk_notified w) \<subseteq> set (tk_recorded w)"
    using task_invD(1) [OF inv] by (simp_all add: task_world_ok_def task_table_ok_def)
  have "r \<in> set (tk_recorded w)" if "(OpCreate q, TDone (Inr (ReplyResponse r))) \<in> set ts" for q r
    using task_invD(2) [OF inv that] sub by auto
  moreover have "if n \<in> rs_task_id ` set (tk_notified w)
          then \<exists>r\<in>set (tk_recorded w). rs_task_id r = n
                 \<and> (\<forall>D. task_next D (CWait q' n k) w = (TDone (Inr (ReplyResponse r)), w))
          else \<forall>D. fst (task_next D (CWait q' n k) w) =
                 (if te_timeout D
                  then TDone (err (Other (''Task '' @ te_show_u64 D n @ '' timed out after ''
                         @ te_show_u64 D (cq_timeout_ms q) @ ''ms'')))
                  else CWait q n k)"
    if "(OpCreate q, CWait q' n k) \<in> set ts" for q q' n k
  proof -
    have wt: "waits w n k" and "q' = q" using task_invD(2) [OF inv that] by simp_all
    show ?thesis
    proof (cases "n \<in> rs_task_id ` set (tk_notified w)")
      case True
      then obtain r where "r \<in> set (tk_notified w)" "rs_task_id r = n" "tk_cells w k = OSent r"
        using wt by (auto simp: waits_def notified_ids_def)
      then show ?thesis using True sub by (auto simp: c_wait_def intro!: bexI [of _ r])
    next
      case False
      then have "tk_cells w k = OEmpty"
        using wt waiters_okD(2) [OF ok] by (auto simp: waits_def notified_ids_def)
      then show ?thesis using False \<open>q' = q\<close> by (simp add: c_wait_def)
    qed
  qed
  ultimately show ?thesis by blast
qed

theorem blocking_gets_recorded_result_witness:
  "task_next (demo_task_env 2 8) (CWait demo_req 1 0) (fst demo_end)
     = (TDone (Inr (ReplyResponse demo_response)), fst demo_end)"
proof -
  have "1 \<in> rs_task_id ` set (tk_notified (fst demo_end))" by (simp add: demo_end_facts demo_response_def)
  then show ?thesis
    using blocking_gets_recorded_result [OF demo_task_start, of "fst demo_end" "snd demo_end"] demo_end_facts
    by (auto split: if_splits)
qed



lemma task_steps_done: "task_steps n D (TDone r) w = (TDone r, w)"
  by (induction n) simp_all

lemma c_check_authorised:
  assumes "c_check D q w = Inr v"
  shows "\<exists>cred. parse_token (cq_token q) = Inr cred
    \<and> ck_limit (te_checker D) cred [AgentUuid (cq_uuid q)] (create_permissions q) = Inr True"
  using assms by (auto simp: c_check_def guard_def result_simps split: if_splits)

lemma create_send_fails:
  assumes "tbl_find (\<lambda>r. tr_id r = tr_id row) (tk_rows w) = None"
  shows "\<exists>e. c_rollback D q (tr_id row) se (w\<lparr> tk_rows := tk_rows w @ [row], tk_issued := ns \<rparr>)
     = (TDone (Inl e), w\<lparr> tk_rows := (if te_fault D RollbackTask = None then tk_rows w else tk_rows w @ [row]),
                        tk_issued := ns \<rparr>)"
proof -
  have "filter (\<lambda>r. tr_id r \<noteq> tr_id row) (tk_rows w) = tk_rows w"
    using assms by (simp add: tbl_simps filter_id_conv)
  then show ?thesis by (simp add: c_rollback_def Let_def tbl_delete_def)
qed

text \<open>
  (C32) A task created alone: the request ends after at most six steps.  It is
  acknowledged with the new number exactly when the caller is authorised for the
  agent and the event was queued, and then the table has gained one pending row and
  the queue of the agent's session one event that carries the number and token of
  that row.  When it fails no event is queued and nobody waits; the table is
  unchanged, unless the rollback of the row failed as well.
\<close>

theorem create_task_outcome:
  assumes "tbl_find (\<lambda>r. tr_id r = te_new_id D) (tk_rows w) = None" and "\<not> cq_blocking q"
  shows "\<exists>res w'. create_task D q w = (TDone res, w') \<and> tk_waiters w' = tk_waiters w \<and> tk_peers w' = tk_peers w
    \<and> (case res of
         Inr reply \<Rightarrow>
           reply = ReplyId (te_new_id D)
         \<and> (\<exists>cred. parse_token (cq_token q) = Inr cred
              \<and> ck_limit (te_checker D) cred [AgentUuid (cq_uuid q)]
                  [PTask (Task_Create (task_name (cq_type q)))] = Inr True)
         \<and> (\<exists>v reg ch. hm_get (tk_peers w) (cq_uuid q) = Some (reg, ch)
              \<and> tk_rows w' = tk_rows w @ [pending_row D q v]
              \<and> tk_channels w' = (tk_channels w)(ch := (tk_channels w ch)\<lparr> ch_queue :=
                    ch_queue (tk_channels w ch)
                    @ [\<lparr> ev_task_id = te_new_id D, ev_task_token = te_new_token D, ev_type = cq_type q \<rparr>] \<rparr>))
       | Inl e \<Rightarrow> tk_channels w' = tk_channels w
         \<and> (tk_rows w' = tk_rows w \<or> te_fault D RollbackTask \<noteq> None \<and> (\<exists>v. tk_rows w' = tk_rows w @ [pending_row D q v])))"
proof -
  have q: "q\<lparr> cq_blocking := False \<rparr> = q" using assms(2) by simp
  have six: "6 = Suc (Suc (Suc (Suc (Suc (Suc 0)))))" by simp
  note run = create_task_def q six task_steps.simps
  show ?thesis
  proof (cases "c_check D q w")
    case (Inl e)
    then show ?thesis by (simp add: run to_pc_def)
  next
    case (Inr v)
    note check = this c_check_authorised [OF this]
    show ?thesis
    proof (cases "te_fault D InsertTask")
      case (Some e)
      then show ?thesis using check by (simp add: run to_pc_def c_insert_def)
    next
      case None
      let ?row = "pending_row D q v"
      let ?w = "w\<lparr> tk_rows := tk_rows w @ [?row], tk_issued := te_new_id D # tk_issued w \<rparr>"
      have id: "tr_id ?row = te_new_id D" by (simp add: pending_row_def)
      have "\<forall>se. \<exists>e. c_rollback D q (te_new_id D) se ?w =
          (TDone (Inl e), w\<lparr> tk_rows := (if te_fault D RollbackTask = None then tk_rows w else tk_rows w @ [?row]),
                        tk_issued := te_new_id D # tk_issued w \<rparr>)"
        using create_send_fails [of ?row w D q _ "te_new_id D # tk_issued w"] assms(1) unfolding id by blast
      then obtain e where undo: "\<And>se. c_rollback D q (te_new_id D) se ?w =
          (TDone (Inl (e se)), w\<lparr> tk_rows := (if te_fault D RollbackTask = None then tk_rows w else tk_rows w @ [?row]),
                        tk_issued := te_new_id D # tk_issued w \<rparr>)"
        by metis
      show ?thesis using None check assms(2)
        by (cases "hm_get (tk_peers w) (cq_uuid q)")
           (auto simp: run to_pc_def c_insert_def c_register_def c_lookup_def c_try_send_def send_lookup_def
              send_failed_def try_send_def Let_def undo create_permissions_def split: if_splits)
    qed
  qed
qed

definition demo_connected :: task_world where
  "demo_connected = demo_task_world\<lparr> tk_peers := [(7, 9, 0)], tk_channels := (\<lambda>_. \<lparr> ch_queue = [], ch_open = True \<rparr>) \<rparr>"

theorem create_task_outcome_witness:
  "\<exists>res w'. create_task (demo_task_env 1 9) (demo_req\<lparr> cq_blocking := False \<rparr>) demo_connected = (TDone res, w')
     \<and> length (tk_rows w') = (case res of Inr reply \<Rightarrow> 1 | Inl e \<Rightarrow> 0)
     \<and> length (ch_queue (tk_channels w' 0)) = (case res of Inr reply \<Rightarrow> 1 | Inl e \<Rightarrow> 0)"
proof -
  have facts: "tk_rows demo_connected = []" "hm_get (tk_peers demo_connected) (cq_uuid demo_req) = Some (9, 0)"
    "ch_queue (tk_channels demo_connected 0) = []" "te_fault (demo_task_env 1 9) RollbackTask = None"
    by (simp_all add: demo_connected_def demo_task_world_def demo_req_def hm_get_def demo_task_env_def)
  show ?thesis
    using create_task_outcome [of "demo_task_env 1 9" demo_connected "demo_req\<lparr> cq_blocking := False \<rparr>"] facts
    by (fastforce split: sum.splits)
qed

end
