(* ===== verification/Terminal.thy ===== *)
theory Terminal
  imports Task
begin

text \<open>
  The relay between a user and the shell of an agent (\<^verbatim>\<open>ng-terminal/src/terminal.rs\<close>,
  \<^verbatim>\<open>auth.rs\<close>, \<^verbatim>\<open>check_agent.rs\<close>).  Every websocket is a connection with a number;
  its handler is a machine over \<open>term_pc\<close> that shares the table of sessions with
  the handlers of the other connections.  \<open>term_next\<close> performs one step of one
  handler, \<open>term_run\<close> interleaves them.

  A handler that has passed its checks spawns two tasks, one per direction, and
  waits until one of them ends.  A step of such a handler is a step of one of the
  two.  A task that waits for room in a full channel has not yet taken its message
  from the websocket here.
\<close>


section \<open>Sessions\<close>

definition TERMINAL_CHANNEL_BUFFER_SIZE :: nat where "TERMINAL_CHANNEL_BUFFER_SIZE = 4096"

record terminal_session_key =
  sk_agent_uuid :: uuid
  sk_terminal_id :: uuid

text \<open>
  The two channels of a session belong to the connection of its agent and carry its
  number: \<open>sl_tx_to_agent\<close> is the sender of one of them, \<open>sl_rx_from_agent\<close> says
  whether the receiver of the other is still in the slot.
\<close>

record session_slots =
  sl_tx_to_agent :: nat
  sl_rx_from_agent :: bool
  sl_task_token :: string

record terminal_params =
  tp_agent_uuid :: string
  tp_task_id :: "64 word option"
  tp_task_token :: "string option"
  tp_terminal_id :: "uuid option"
  tp_token :: "string option"

datatype term_pc =
    AgentInsert terminal_session_key string
  | AgentRelay terminal_session_key
  | AgentCleanup terminal_session_key
  | UserTake terminal_session_key
  | UserRelay terminal_session_key nat
  | UserCleanup terminal_session_key
  | TermRejected int string
  | TermClosed

record 'm terminal_state =
  tm_sessions :: "(terminal_session_key, session_slots) hash_map"
  tm_conns :: "(nat, term_pc) hash_map"
  tm_to_agent :: "nat \<Rightarrow> 'm list"
  tm_to_user :: "nat \<Rightarrow> 'm list"

text \<open>
  What a step is given: the task table and the failures of the database, the
  permission checker, the conversions of texts, and whether a message could be
  written to the websocket.
\<close>

record term_env =
  tv_ready :: bool
  tv_tasks :: "task_row list"
  tv_fault :: "db_err option"
  tv_display :: "db_err \<Rightarrow> string"
  tv_type_from_value :: "json \<Rightarrow> string + task_event_type"
  tv_checker :: limit_checker
  tv_parse_uuid :: "string \<Rightarrow> uuid option"
  tv_show_uuid :: "uuid \<Rightarrow> string"
  tv_sent :: bool


section \<open>Checks\<close>

definition parse_agent_uuid :: "term_env \<Rightarrow> string \<Rightarrow> uuid any_result" where
  "parse_agent_uuid E text =
     ok_or (Nodeget (ParseError ''Invalid Agent UUID format'')) (tv_parse_uuid E text)"

definition check_terminal_connect_permission :: "term_env \<Rightarrow> string \<Rightarrow> string \<Rightarrow> unit any_result" where
  "check_terminal_connect_permission E token agent_uuid =
     rbind (parse_agent_uuid E agent_uuid) (\<lambda>u.
     rbind (parse_token token) (\<lambda>cred.
     rbind (get_checker (checker.truncate (tv_checker E))) (\<lambda>_.
     rbind (ck_limit (tv_checker E) cred [AgentUuid u] [PTerminal Terminal_Connect]) (\<lambda>has_agent_permission.
       if has_agent_permission then Inr ()
       else
         rbind (ck_limit (tv_checker E) cred [Global] [PTerminal Terminal_Connect]) (\<lambda>has_global_permission.
           if has_global_permission then Inr ()
           else err (PermissionDenied
                  (''No terminal connect permission for agent '' @ [CHR 0x27] @ tv_show_uuid E u @ [CHR 0x27])))))))"

definition matching_task :: "uuid \<Rightarrow> string \<Rightarrow> 64 word \<Rightarrow> task_row \<Rightarrow> bool" where
  "matching_task u token i r \<longleftrightarrow>
     tr_id r = i \<and> tr_uuid r = u \<and> tr_token r = token \<and> tr_result r = None"

definition is_web_shell :: "task_event_type \<Rightarrow> bool" where
  "is_web_shell t = (case t of WebShell _ \<Rightarrow> True | _ \<Rightarrow> False)"

definition check_agent :: "term_env \<Rightarrow> string \<Rightarrow> string \<Rightarrow> 64 word \<Rightarrow> bool any_result" where
  "check_agent E agent_uuid task_token task_id =
     rbind (parse_agent_uuid E agent_uuid) (\<lambda>u.
     rbind (guard (Nodeget (DatabaseError ''DB not initialized'')) (tv_ready E)) (\<lambda>_.
       (case tv_fault E of
          Some e \<Rightarrow> err (DatabaseError (''Database error: '' @ tv_display E e))
        | None \<Rightarrow>
            (case find (matching_task u task_token task_id) (tv_tasks E) of
               None \<Rightarrow> Inr False
             | Some r \<Rightarrow>
                 rbind (map_err (\<lambda>e. Nodeget (SerializationError (''Failed to parse task_event_type: '' @ e)))
                          (tv_type_from_value E (tr_type r))) (\<lambda>t.
                 if is_web_shell t then Inr True
                 else err (PermissionDenied ''Terminal connection is only allowed for WebShell tasks''))))))"


section \<open>The handlers\<close>

text \<open>
  The checks at the start of \<^verbatim>\<open>handle_agent\<close> and \<^verbatim>\<open>handle_user\<close>.  A rejection is the
  code and the message sent to the client; for an unreadable UUID \<^verbatim>\<open>handle_user\<close> would
  close the websocket without a message.
\<close>

definition agent_start :: "term_env \<Rightarrow> string \<Rightarrow> uuid \<Rightarrow> string \<Rightarrow> 64 word \<Rightarrow> term_pc" where
  "agent_start E agent_uuid terminal_id task_token i =
     (case check_agent E agent_uuid task_token i of
        Inl e \<Rightarrow>
          let ne = anyhow_to_nodeget_error e in TermRejected (error_code ne) (nodeget_display ne)
      | Inr False \<Rightarrow> TermRejected 102 ''Permission Denied: Invalid Task Token or ID''
      | Inr True \<Rightarrow>
          (case tv_parse_uuid E agent_uuid of
             None \<Rightarrow> TermRejected 108 ''Invalid Agent UUID format''
           | Some u \<Rightarrow> AgentInsert \<lparr> sk_agent_uuid = u, sk_terminal_id = terminal_id \<rparr> task_token))"

definition user_start :: "term_env \<Rightarrow> string \<Rightarrow> uuid option \<Rightarrow> string option \<Rightarrow> term_pc" where
  "user_start E agent_uuid terminal_id token =
     (case terminal_id of
        None \<Rightarrow> TermRejected 108 ''Invalid Input: Missing terminal_id for user terminal connection''
      | Some tid \<Rightarrow>
          (case token of
             None \<Rightarrow> TermRejected 108 ''Invalid Input: Missing token for user terminal connection''
           | Some tok \<Rightarrow>
               (case check_terminal_connect_permission E tok agent_uuid of
                  Inl _ \<Rightarrow> TermRejected 102 ''Permission Denied: Terminal connection permission denied''
                | Inr _ \<Rightarrow>
                    (case tv_parse_uuid E agent_uuid of
                       None \<Rightarrow> TermClosed
                     | Some u \<Rightarrow> UserTake \<lparr> sk_agent_uuid = u, sk_terminal_id = tid \<rparr>))))"

definition handle_socket :: "term_env \<Rightarrow> terminal_params \<Rightarrow> term_pc" where
  "handle_socket E p =
     (case (tp_task_token p, tp_task_id p) of
        (Some task_token, Some i) \<Rightarrow>
          (case tp_terminal_id p of
             Some terminal_id \<Rightarrow> agent_start E (tp_agent_uuid p) terminal_id task_token i
           | None \<Rightarrow> TermRejected 108 ''Invalid Input: Missing terminal_id for agent terminal connection'')
      | _ \<Rightarrow> user_start E (tp_agent_uuid p) (tp_terminal_id p) (tp_token p))"

definition set_pc :: "nat \<Rightarrow> term_pc \<Rightarrow> 'm terminal_state \<Rightarrow> 'm terminal_state" where
  "set_pc c pc w = w\<lparr> tm_conns := hm_insert c pc (tm_conns w) \<rparr>"

datatype 'm term_event =
    Opened term_env terminal_params term_pc
  | Registered terminal_session_key
  | Attached terminal_session_key nat
  | Received 'm
  | Delivered 'm
  | Internal

definition agent_insert ::
  "term_env \<Rightarrow> nat \<Rightarrow> terminal_session_key \<Rightarrow> string \<Rightarrow> 'm terminal_state \<Rightarrow> 'm terminal_state \<times> 'm term_event" where
  "agent_insert E c key task_token w =
     (case hm_get (tm_sessions w) key of
        Some _ \<Rightarrow>
          (set_pc c (TermRejected 108 (''Invalid Input: terminal_id '' @ [CHR 0x27]
             @ tv_show_uuid E (sk_terminal_id key) @ [CHR 0x27] @ '' is already active for this agent'')) w, Internal)
      | None \<Rightarrow>
          (set_pc c (AgentRelay key)
             (w\<lparr> tm_sessions := hm_insert key \<lparr> sl_tx_to_agent = c, sl_rx_from_agent = True,
                                               sl_task_token = task_token \<rparr> (tm_sessions w),
                 tm_to_agent := (tm_to_agent w)(c := []),
                 tm_to_user := (tm_to_user w)(c := []) \<rparr>), Registered key))"

definition user_take ::
  "nat \<Rightarrow> terminal_session_key \<Rightarrow> 'm terminal_state \<Rightarrow> 'm terminal_state \<times> 'm term_event" where
  "user_take c key w =
     (case hm_get (tm_sessions w) key of
        None \<Rightarrow> (set_pc c (TermRejected 108 ''Terminal session not found'') w, Internal)
      | Some slots \<Rightarrow>
          if sl_rx_from_agent slots
          then (set_pc c (UserRelay key (sl_tx_to_agent slots))
                  (w\<lparr> tm_sessions := hm_insert key (slots\<lparr> sl_rx_from_agent := False \<rparr>) (tm_sessions w) \<rparr>),
                Attached key (sl_tx_to_agent slots))
          else (set_pc c (TermRejected 108 ''Terminal session already has an attached user'') w, Internal))"


section \<open>The relays\<close>

text \<open>
  A channel end exists while somebody holds it: the slot of the session, the handler
  of the attached user, or the handler of the agent.
\<close>

definition attached :: "nat \<Rightarrow> 'm terminal_state \<Rightarrow> bool" where
  "attached a w = list_ex (\<lambda>(_, pc). case pc of UserRelay _ a' \<Rightarrow> a' = a | _ \<Rightarrow> False) (tm_conns w)"

definition sender_to_agent :: "nat \<Rightarrow> 'm terminal_state \<Rightarrow> bool" where
  "sender_to_agent a w \<longleftrightarrow>
     list_ex (\<lambda>(_, s). sl_tx_to_agent s = a) (tm_sessions w) \<or> attached a w"

definition receiver_of_user :: "nat \<Rightarrow> 'm terminal_state \<Rightarrow> bool" where
  "receiver_of_user a w \<longleftrightarrow>
     list_ex (\<lambda>(_, s). sl_tx_to_agent s = a \<and> sl_rx_from_agent s) (tm_sessions w) \<or> attached a w"

definition agent_alive :: "nat \<Rightarrow> 'm terminal_state \<Rightarrow> bool" where
  "agent_alive a w = (case hm_get (tm_conns w) a of Some (AgentRelay _) \<Rightarrow> True | _ \<Rightarrow> False)"

text \<open>
  What happens to a websocket: a message comes in, it is closed or fails, or it is
  ready to take the next message of the channel.
\<close>

datatype 'm term_input = Open terminal_params | Incoming 'm | Gone | Ready

definition agent_relay ::
  "term_env \<Rightarrow> nat \<Rightarrow> terminal_session_key \<Rightarrow> 'm term_input \<Rightarrow> 'm terminal_state
   \<Rightarrow> 'm terminal_state \<times> 'm term_event" where
  "agent_relay E c key i w =
     (case i of
        Incoming m \<Rightarrow>
          if \<not> receiver_of_user c w then (set_pc c (AgentCleanup key) w, Internal)
          else if length (tm_to_user w c) < TERMINAL_CHANNEL_BUFFER_SIZE
          then (w\<lparr> tm_to_user := (tm_to_user w)(c := tm_to_user w c @ [m]) \<rparr>, Received m)
          else (w, Internal)
      | Ready \<Rightarrow>
          (case tm_to_agent w c of
             [] \<Rightarrow> if sender_to_agent c w then (w, Internal) else (set_pc c (AgentCleanup key) w, Internal)
           | m # ms \<Rightarrow>
               let w1 = w\<lparr> tm_to_agent := (tm_to_agent w)(c := ms) \<rparr>
               in if tv_sent E then (w1, Delivered m) else (set_pc c (AgentCleanup key) w1, Internal))
      | Gone \<Rightarrow> (set_pc c (AgentCleanup key) w, Internal)
      | Open _ \<Rightarrow> (w, Internal))"

definition user_relay ::
  "term_env \<Rightarrow> nat \<Rightarrow> terminal_session_key \<Rightarrow> nat \<Rightarrow> 'm term_input \<Rightarrow> 'm terminal_state
   \<Rightarrow> 'm terminal_state \<times> 'm term_event" where
  "user_relay E c key a i w =
     (case i of
        Incoming m \<Rightarrow>
          if \<not> agent_alive a w then (set_pc c (UserCleanup key) w, Internal)
          else if length (tm_to_agent w a) < TERMINAL_CHANNEL_BUFFER_SIZE
          then (w\<lparr> tm_to_agent := (tm_to_agent w)(a := tm_to_agent w a @ [m]) \<rparr>, Received m)
          else (w, Internal)
      | Ready \<Rightarrow>
          (case tm_to_user w a of
             [] \<Rightarrow> if agent_alive a w then (w, Internal) else (set_pc c (UserCleanup key) w, Internal)
           | m # ms \<Rightarrow>
               let w1 = w\<lparr> tm_to_user := (tm_to_user w)(a := ms) \<rparr>
               in if tv_sent E then (w1, Delivered m) else (set_pc c (UserCleanup key) w1, Internal))
      | Gone \<Rightarrow> (set_pc c (UserCleanup key) w, Internal)
      | Open _ \<Rightarrow> (w, Internal))"

definition remove_key ::
  "nat \<Rightarrow> terminal_session_key \<Rightarrow> 'm terminal_state \<Rightarrow> 'm terminal_state \<times> 'm term_event" where
  "remove_key c key w =
     (set_pc c TermClosed (w\<lparr> tm_sessions := hm_remove key (tm_sessions w) \<rparr>), Internal)"

definition term_next ::
  "term_env \<Rightarrow> nat \<Rightarrow> 'm term_input \<Rightarrow> 'm terminal_state \<Rightarrow> 'm terminal_state \<times> 'm term_event" where
  "term_next E c i w =
     (case hm_get (tm_conns w) c of
        None \<Rightarrow>
          (case i of
             Open p \<Rightarrow> (set_pc c (handle_socket E p) w, Opened E p (handle_socket E p))
           | _ \<Rightarrow> (w, Internal))
      | Some (AgentInsert key task_token) \<Rightarrow> agent_insert E c key task_token w
      | Some (AgentRelay key) \<Rightarrow> agent_relay E c key i w
      | Some (AgentCleanup key) \<Rightarrow> remove_key c key w
      | Some (UserTake key) \<Rightarrow> user_take c key w
      | Some (UserRelay key a) \<Rightarrow> user_relay E c key a i w
      | Some (UserCleanup key) \<Rightarrow> remove_key c key w
      | Some (TermRejected _ _) \<Rightarrow> (w, Internal)
      | Some TermClosed \<Rightarrow> (w, Internal))"

definition terminal_router :: "'m terminal_state" where
  "terminal_router = \<lparr> tm_sessions = [], tm_conns = [], tm_to_agent = (\<lambda>_. []), tm_to_user = (\<lambda>_. []) \<rparr>"

text \<open>A run, with the step of which connection each event is.\<close>

inductive term_run :: "'m terminal_state \<Rightarrow> (nat \<times> 'm term_event) list \<Rightarrow> 'm terminal_state \<Rightarrow> bool" where
  run_start: "term_run w [] w"
| run_step: "term_run w0 evs w \<Longrightarrow> term_next E c i w = (w', ev) \<Longrightarrow> term_run w0 (evs @ [(c, ev)]) w'"

primrec term_steps ::
  "(term_env \<times> nat \<times> 'm term_input) list \<Rightarrow> 'm terminal_state \<Rightarrow> 'm terminal_state \<times> (nat \<times> 'm term_event) list" where
  "term_steps [] w = (w, [])"
| "term_steps (s # ss) w =
     (case s of (E, c, i) \<Rightarrow>
        (case term_next E c i w of (w', ev) \<Rightarrow>
           (case term_steps ss w' of (w'', evs) \<Rightarrow> (w'', (c, ev) # evs))))"

definition received :: "nat \<Rightarrow> (nat \<times> 'm term_event) list \<Rightarrow> 'm list" where
  "received c evs =
     List.map_filter (\<lambda>(c', ev). case ev of Received m \<Rightarrow> if c' = c then Some m else None | _ \<Rightarrow> None) evs"

definition delivered :: "nat \<Rightarrow> (nat \<times> 'm term_event) list \<Rightarrow> 'm list" where
  "delivered c evs =
     List.map_filter (\<lambda>(c', ev). case ev of Delivered m \<Rightarrow> if c' = c then Some m else None | _ \<Rightarrow> None) evs"

end
