(* ===== verification/Terminal_Props.thy ===== *)
theory Terminal_Props
  imports Terminal
begin

text \<open>
  The sessions of the terminal relay under every interleaving of the handlers: who
  is joined to whom, what of the messages of one side the other side gets, and how
  a session ends.
\<close>


section \<open>Events\<close>

abbreviation reg :: "(nat \<times> 'm term_event) list \<Rightarrow> nat \<Rightarrow> terminal_session_key \<Rightarrow> bool" where
  "reg evs a k \<equiv> (a, Registered k) \<in> set evs"

abbreviation att :: "(nat \<times> 'm term_event) list \<Rightarrow> nat \<Rightarrow> terminal_session_key \<Rightarrow> nat \<Rightarrow> bool" where
  "att evs u k a \<equiv> (u, Attached k a) \<in> set evs"

abbreviation pc_of :: "'m terminal_state \<Rightarrow> nat \<Rightarrow> term_pc option" where
  "pc_of w c \<equiv> hm_get (tm_conns w) c"

lemma stream_simps [simp]:
  "received c [] = []" "delivered c [] = []"
  "received c (evs @ [(c', Received m)]) = received c evs @ (if c' = c then [m] else [])"
  "received c (evs @ [(c', Delivered m)]) = received c evs"
  "received c (evs @ [(c', Internal)]) = received c evs"
  "received c (evs @ [(c', Opened E p pc)]) = received c evs"
  "received c (evs @ [(c', Registered k)]) = received c evs"
  "received c (evs @ [(c', Attached k a)]) = received c evs"
  "delivered c (evs @ [(c', Delivered m)]) = delivered c evs @ (if c' = c then [m] else [])"
  "delivered c (evs @ [(c', Received m)]) = delivered c evs"
  "delivered c (evs @ [(c', Internal)]) = delivered c evs"
  "delivered c (evs @ [(c', Opened E p pc)]) = delivered c evs"
  "delivered c (evs @ [(c', Registered k)]) = delivered c evs"
  "delivered c (evs @ [(c', Attached k a)]) = delivered c evs"
  by (simp_all add: received_def delivered_def List.map_filter_def)


section \<open>The invariant\<close>

definition roles_ok :: "(nat \<times> 'm term_event) list \<Rightarrow> 'm terminal_state \<Rightarrow> bool" where
  "roles_ok evs w \<longleftrightarrow>
     (\<forall>a k. reg evs a k \<longrightarrow>
        pc_of w a = Some (AgentRelay k) \<or> pc_of w a = Some (AgentCleanup k) \<or> pc_of w a = Some TermClosed) \<and>
     (\<forall>u k a. att evs u k a \<longrightarrow>
        pc_of w u = Some (UserRelay k a) \<or> pc_of w u = Some (UserCleanup k) \<or> pc_of w u = Some TermClosed) \<and>
     (\<forall>u k a. att evs u k a \<longrightarrow> reg evs a k) \<and>
     (\<forall>u k a. pc_of w u = Some (UserRelay k a) \<longrightarrow> att evs u k a) \<and>
     (\<forall>a k. pc_of w a = Some (AgentRelay k) \<or> pc_of w a = Some (AgentCleanup k) \<longrightarrow> reg evs a k) \<and>
     (\<forall>u k a u' k'. att evs u k a \<and> att evs u' k' a \<longrightarrow> u' = u) \<and>
     (\<forall>u k a k' a'. att evs u k a \<and> att evs u k' a' \<longrightarrow> k' = k \<and> a' = a) \<and>
     (\<forall>a k k'. reg evs a k \<and> reg evs a k' \<longrightarrow> k' = k)"

definition slots_ok :: "(nat \<times> 'm term_event) list \<Rightarrow> 'm terminal_state \<Rightarrow> bool" where
  "slots_ok evs w \<longleftrightarrow>
     hm_wf (tm_sessions w) \<and> hm_wf (tm_conns w) \<and>
     (\<forall>k s. hm_get (tm_sessions w) k = Some s \<longrightarrow>
        reg evs (sl_tx_to_agent s) k \<and> pc_of w (sl_tx_to_agent s) \<noteq> Some TermClosed \<and>
        (sl_rx_from_agent s \<longrightarrow> (\<forall>u k'. \<not> att evs u k' (sl_tx_to_agent s))))"

definition admitted_ok :: "(nat \<times> 'm term_event) list \<Rightarrow> 'm terminal_state \<Rightarrow> bool" where
  "admitted_ok evs w \<longleftrightarrow>
     (\<forall>c E p pc. (c, Opened E p pc) \<in> set evs \<longrightarrow> pc = handle_socket E p) \<and>
     (\<forall>c k t. pc_of w c = Some (AgentInsert k t) \<longrightarrow> (\<exists>E p. (c, Opened E p (AgentInsert k t)) \<in> set evs)) \<and>
     (\<forall>c k. pc_of w c = Some (UserTake k) \<longrightarrow> (\<exists>E p. (c, Opened E p (UserTake k)) \<in> set evs)) \<and>
     (\<forall>a k. reg evs a k \<longrightarrow> (\<exists>E p t. (a, Opened E p (AgentInsert k t)) \<in> set evs)) \<and>
     (\<forall>u k a. att evs u k a \<longrightarrow> (\<exists>E p. (u, Opened E p (UserTake k)) \<in> set evs))"

text \<open>What was read on one side is what was written to the other, followed by the channel.\<close>

definition joined :: "(nat \<times> 'm term_event) list \<Rightarrow> 'm terminal_state \<Rightarrow> nat \<Rightarrow> terminal_session_key \<Rightarrow> nat \<Rightarrow> bool" where
  "joined evs w u k a \<longleftrightarrow>
     (\<exists>rest. received a evs = delivered u evs @ rest \<and>
             (pc_of w u = Some (UserRelay k a) \<longrightarrow> rest = tm_to_user w a)) \<and>
     (\<exists>rest. received u evs = delivered a evs @ rest \<and>
             (pc_of w a = Some (AgentRelay k) \<longrightarrow> rest = tm_to_agent w a))"

definition alone :: "(nat \<times> 'm term_event) list \<Rightarrow> 'm terminal_state \<Rightarrow> nat \<Rightarrow> bool" where
  "alone evs w a \<longleftrightarrow> received a evs = tm_to_user w a \<and> delivered a evs = [] \<and> tm_to_agent w a = []"

definition streams_ok :: "(nat \<times> 'm term_event) list \<Rightarrow> 'm terminal_state \<Rightarrow> bool" where
  "streams_ok evs w \<longleftrightarrow>
     (\<forall>c. (\<forall>k. \<not> reg evs c k) \<longrightarrow> (\<forall>k a. \<not> att evs c k a) \<longrightarrow> received c evs = [] \<and> delivered c evs = []) \<and>
     (\<forall>a k. reg evs a k \<longrightarrow> (\<forall>u k'. \<not> att evs u k' a) \<longrightarrow> alone evs w a) \<and>
     (\<forall>u k a. att evs u k a \<longrightarrow> joined evs w u k a)"

definition term_ok :: "(nat \<times> 'm term_event) list \<Rightarrow> 'm terminal_state \<Rightarrow> bool" where
  "term_ok evs w \<longleftrightarrow> roles_ok evs w \<and> slots_ok evs w \<and> admitted_ok evs w \<and> streams_ok evs w"

lemma term_ok_start: "term_ok [] terminal_router"
  by (simp add: term_ok_def roles_ok_def slots_ok_def admitted_ok_def streams_ok_def terminal_router_def)

lemma roles_okI:
  assumes "\<And>a k. reg evs a k \<Longrightarrow>
        pc_of w a = Some (AgentRelay k) \<or> pc_of w a = Some (AgentCleanup k) \<or> pc_of w a = Some TermClosed"
    and "\<And>u k a. att evs u k a \<Longrightarrow>
        pc_of w u = Some (UserRelay k a) \<or> pc_of w u = Some (UserCleanup k) \<or> pc_of w u = Some TermClosed"
    and "\<And>u k a. att evs u k a \<Longrightarrow> reg evs a k"
    and "\<And>u k a. pc_of w u = Some (UserRelay k a) \<Longrightarrow> att evs u k a"
    and "\<And>a k. pc_of w a = Some (AgentRelay k) \<or> pc_of w a = Some (AgentCleanup k) \<Longrightarrow> reg evs a k"
    and "\<And>u k a u' k'. att evs u k a \<Longrightarrow> att evs u' k' a \<Longrightarrow> u' = u"
    and "\<And>u k a k' a'. att evs u k a \<Longrightarrow> att evs u k' a' \<Longrightarrow> k' = k \<and> a' = a"
    and "\<And>a k k'. reg evs a k \<Longrightarrow> reg evs a k' \<Longrightarrow> k' = k"
  shows "roles_ok evs w"
  unfolding roles_ok_def using assms by (intro conjI) metis+

lemma roles_okD:
  assumes "roles_ok evs w"
  shows reg_pc: "reg evs a k \<Longrightarrow>
        pc_of w a = Some (AgentRelay k) \<or> pc_of w a = Some (AgentCleanup k) \<or> pc_of w a = Some TermClosed"
    and att_pc: "att evs u k a \<Longrightarrow>
        pc_of w u = Some (UserRelay k a) \<or> pc_of w u = Some (UserCleanup k) \<or> pc_of w u = Some TermClosed"
    and att_reg: "att evs u k a \<Longrightarrow> reg evs a k"
    and relay_att: "pc_of w u = Some (UserRelay k a) \<Longrightarrow> att evs u k a"
    and agent_reg: "pc_of w a = Some (AgentRelay k) \<or> pc_of w a = Some (AgentCleanup k) \<Longrightarrow> reg evs a k"
    and att_unique: "att evs u k a \<Longrightarrow> att evs u' k' a \<Longrightarrow> u' = u"
    and att_one: "att evs u k a \<Longrightarrow> att evs u k' a' \<Longrightarrow> k' = k \<and> a' = a"
    and reg_one: "reg evs a k \<Longrightarrow> reg evs a k' \<Longrightarrow> k' = k"
  by (insert assms, unfold roles_ok_def, elim conjE, metis)+

lemma slots_okI:
  assumes "hm_wf (tm_sessions w)" "hm_wf (tm_conns w)"
    and "\<And>k s. hm_get (tm_sessions w) k = Some s \<Longrightarrow> reg evs (sl_tx_to_agent s) k"
    and "\<And>k s. hm_get (tm_sessions w) k = Some s \<Longrightarrow> pc_of w (sl_tx_to_agent s) \<noteq> Some TermClosed"
    and "\<And>k s u k'. hm_get (tm_sessions w) k = Some s \<Longrightarrow> sl_rx_from_agent s \<Longrightarrow> \<not> att evs u k' (sl_tx_to_agent s)"
  shows "slots_ok evs w"
  using assms unfolding slots_ok_def by blast

lemma slots_okD:
  assumes "slots_ok evs w"
  shows slots_wf: "hm_wf (tm_sessions w)" "hm_wf (tm_conns w)"
    and slot_reg: "hm_get (tm_sessions w) k = Some s \<Longrightarrow> reg evs (sl_tx_to_agent s) k"
    and slot_open: "hm_get (tm_sessions w) k = Some s \<Longrightarrow> pc_of w (sl_tx_to_agent s) \<noteq> Some TermClosed"
    and slot_free: "hm_get (tm_sessions w) k = Some s \<Longrightarrow> sl_rx_from_agent s \<Longrightarrow> \<not> att evs u k' (sl_tx_to_agent s)"
  using assms unfolding slots_ok_def by blast+

lemma admitted_okI:
  assumes "\<And>c E p pc. (c, Opened E p pc) \<in> set evs \<Longrightarrow> pc = handle_socket E p"
    and "\<And>c k t. pc_of w c = Some (AgentInsert k t) \<Longrightarrow> \<exists>E p. (c, Opened E p (AgentInsert k t)) \<in> set evs"
    and "\<And>c k. pc_of w c = Some (UserTake k) \<Longrightarrow> \<exists>E p. (c, Opened E p (UserTake k)) \<in> set evs"
    and "\<And>a k. reg evs a k \<Longrightarrow> \<exists>E p t. (a, Opened E p (AgentInsert k t)) \<in> set evs"
    and "\<And>u k a. att evs u k a \<Longrightarrow> \<exists>E p. (u, Opened E p (UserTake k)) \<in> set evs"
  shows "admitted_ok evs w"
  using assms unfolding admitted_ok_def by blast

lemma admitted_okD:
  assumes "admitted_ok evs w"
  shows opened_pc: "(c, Opened E p pc) \<in> set evs \<Longrightarrow> pc = handle_socket E p"
    and insert_opened: "pc_of w c = Some (AgentInsert k t) \<Longrightarrow> \<exists>E p. (c, Opened E p (AgentInsert k t)) \<in> set evs"
    and take_opened: "pc_of w c = Some (UserTake k) \<Longrightarrow> \<exists>E p. (c, Opened E p (UserTake k)) \<in> set evs"
    and reg_opened: "reg evs a k \<Longrightarrow> \<exists>E p t. (a, Opened E p (AgentInsert k t)) \<in> set evs"
    and att_opened: "att evs u k a \<Longrightarrow> \<exists>E p. (u, Opened E p (UserTake k)) \<in> set evs"
  using assms unfolding admitted_ok_def by blast+

lemma streams_okI:
  assumes "\<And>c. (\<And>k. \<not> reg evs c k) \<Longrightarrow> (\<And>k a. \<not> att evs c k a) \<Longrightarrow> received c evs = [] \<and> delivered c evs = []"
    and "\<And>a k. reg evs a k \<Longrightarrow> (\<And>u k'. \<not> att evs u k' a) \<Longrightarrow> alone evs w a"
    and "\<And>u k a. att evs u k a \<Longrightarrow> joined evs w u k a"
  shows "streams_ok evs w"
  using assms unfolding streams_ok_def by blast

lemma streams_okD:
  assumes "streams_ok evs w"
  shows fresh_silent: "(\<forall>k. \<not> reg evs c k) \<Longrightarrow> (\<forall>k a. \<not> att evs c k a) \<Longrightarrow> received c evs = [] \<and> delivered c evs = []"
    and reg_alone: "reg evs a k \<Longrightarrow> (\<forall>u k'. \<not> att evs u k' a) \<Longrightarrow> alone evs w a"
    and att_joined: "att evs u k a \<Longrightarrow> joined evs w u k a"
  using assms unfolding streams_ok_def by blast+

lemma set_pc_simps [simp]:
  "tm_conns (set_pc c pc w) = hm_insert c pc (tm_conns w)"
  "tm_sessions (set_pc c pc w) = tm_sessions w"
  "tm_to_agent (set_pc c pc w) = tm_to_agent w"
  "tm_to_user (set_pc c pc w) = tm_to_user w"
  by (simp_all add: set_pc_def)

lemma handle_socket_cases:
  "(\<exists>k t. handle_socket E p = AgentInsert k t) \<or> (\<exists>k. handle_socket E p = UserTake k)
   \<or> (\<exists>n m. handle_socket E p = TermRejected n m) \<or> handle_socket E p = TermClosed"
  by (auto simp: handle_socket_def agent_start_def user_start_def Let_def split: option.split sum.split bool.split)


section \<open>One step\<close>

definition fresh :: "(nat \<times> 'm term_event) list \<Rightarrow> nat \<Rightarrow> bool" where
  "fresh evs c \<longleftrightarrow> (\<forall>k. \<not> reg evs c k) \<and> (\<forall>k a. \<not> att evs c k a) \<and> (\<forall>u k. \<not> att evs u k c)"

definition newcomer :: "term_pc \<Rightarrow> bool" where
  "newcomer pc =
     (case pc of AgentInsert _ _ \<Rightarrow> True | UserTake _ \<Rightarrow> True | TermRejected _ _ \<Rightarrow> True | TermClosed \<Rightarrow> True | _ \<Rightarrow> False)"

definition quiet :: "'m term_event \<Rightarrow> bool" where
  "quiet ev = (case ev of Opened _ _ _ \<Rightarrow> True | Internal \<Rightarrow> True | _ \<Rightarrow> False)"

lemma quiet_event_simps [simp]: "quiet Internal" "quiet (Opened E p pc)"
  by (simp_all add: quiet_def)

lemma quiet_streams:
  assumes "quiet ev"
  shows "received c (evs @ [(c', ev)]) = received c evs" "delivered c (evs @ [(c', ev)]) = delivered c evs"
  using assms by (simp_all add: quiet_def split: term_event.splits)

lemma quiet_other: "quiet ev \<Longrightarrow> Registered k \<noteq> ev" "quiet ev \<Longrightarrow> Attached k a \<noteq> ev"
  by (auto simp: quiet_def)

lemmas quiet_events = quiet_streams quiet_other

lemma roles_fresh:
  assumes "roles_ok evs w" "pc_of w c = None \<or> pc_of w c = Some (AgentInsert k t) \<or> pc_of w c = Some (UserTake k)"
  shows "fresh evs c"
proof -
  note D = reg_pc [OF assms(1), of c] att_pc [OF assms(1), of c] att_reg [OF assms(1)]
  have n: "\<not> reg evs c k'" for k' using D(1) [of k'] assms(2) by auto
  moreover have "\<not> att evs c k' a" for k' a using D(2) [of k' a] assms(2) by auto
  moreover have "\<not> att evs u k' c" for u k' using D(3) [of u k' c] n by blast
  ultimately show ?thesis by (simp add: fresh_def)
qed

lemma handle_socket_newcomer: "newcomer (handle_socket E p)"
  using handle_socket_cases [of E p] by (elim disjE exE) (simp_all add: newcomer_def)

lemma fresh_roles:
  assumes ok: "roles_ok evs w" and "fresh evs c" "newcomer pc" "quiet ev"
  shows "roles_ok (evs @ [(c, ev)]) (set_pc c pc w)"
proof -
  have n: "pc \<noteq> UserRelay k a" "pc \<noteq> AgentRelay k" "pc \<noteq> AgentCleanup k" for k a
    using assms(3) by (auto simp: newcomer_def)
  have f: "\<not> reg evs c k" "\<not> att evs c k a" "\<not> att evs u k c" for k a u
    using assms(2) by (simp_all add: fresh_def)
  have ne: "reg evs a k \<Longrightarrow> a \<noteq> c" "att evs u k a \<Longrightarrow> u \<noteq> c" for a k u using f by metis+
  note q = quiet_events [OF assms(4)]
  show ?thesis
  proof (rule roles_okI, goal_cases)
    case (1 a k) then show ?case using reg_pc [OF ok, of a k] ne(1) [of a k] by (simp add: q)
  next
    case (2 u k a) then show ?case using att_pc [OF ok, of u k a] ne(2) [of u k a] by (simp add: q)
  next
    case (3 u k a) then show ?case using att_reg [OF ok] by (simp add: q)
  next
    case (4 u k a) then show ?case using relay_att [OF ok] n by (simp add: q split: if_splits)
  next
    case (5 a k) then show ?case using agent_reg [OF ok] n by (simp add: q split: if_splits)
  next
    case (6 u k a u' k') then show ?case using att_unique [OF ok] by (simp add: q)
  next
    case (7 u k a k' a') then show ?case using att_one [OF ok, of u k a k' a'] by (simp add: q)
  next
    case (8 a k k') then show ?case using reg_one [OF ok, of a k k'] by (simp add: q)
  qed
qed

lemma fresh_slots:
  assumes ok: "slots_ok evs w" and "fresh evs c" "quiet ev"
  shows "slots_ok (evs @ [(c, ev)]) (set_pc c pc w)"
proof -
  have ne: "reg evs a k \<Longrightarrow> a \<noteq> c" for a k using assms(2) unfolding fresh_def by metis
  note q = quiet_events [OF assms(3)]
  show ?thesis
  proof (rule slots_okI, goal_cases)
    case 1 then show ?case using slots_wf [OF ok] by simp
  next
    case 2 then show ?case using slots_wf [OF ok] by simp
  next
    case (3 k s) then show ?case using slot_reg [OF ok] by (simp add: q)
  next
    case (4 k s) then show ?case using ne [OF slot_reg [OF ok, of k s]] slot_open [OF ok, of k s] by simp
  next
    case (5 k s u k') then show ?case using slot_free [OF ok] by (simp add: q)
  qed
qed

lemma fresh_streams:
  assumes ok: "streams_ok evs w" and "fresh evs c" "newcomer pc" "quiet ev"
  shows "streams_ok (evs @ [(c, ev)]) (set_pc c pc w)"
proof -
  have n: "pc \<noteq> UserRelay k a" "pc \<noteq> AgentRelay k" for k a
    using assms(3) by (auto simp: newcomer_def)
  note q = quiet_events [OF assms(4)]
  show ?thesis
  proof (rule streams_okI, goal_cases)
    case (1 c') then show ?case using fresh_silent [OF ok] by (simp add: q)
  next
    case (2 a k) then show ?case using reg_alone [OF ok, of a k] by (simp add: q alone_def)
  next
    case (3 u k a) then show ?case using att_joined [OF ok, of u k a] n by (auto simp: q joined_def)
  qed
qed

lemma step_open:
  assumes ok: "term_ok evs w" and none: "pc_of w c = None"
  shows "term_ok (evs @ [(c, Opened E p (handle_socket E p))]) (set_pc c (handle_socket E p) w)"
proof -
  have f: "fresh evs c" using ok none roles_fresh unfolding term_ok_def by blast
  have ad: "admitted_ok evs w" using ok by (simp add: term_ok_def)
  have "admitted_ok (evs @ [(c, Opened E p (handle_socket E p))]) (set_pc c (handle_socket E p) w)"
  proof (rule admitted_okI, goal_cases)
    case (1 c' E' p' pc) then show ?case using opened_pc [OF ad] by auto
  next
    case (2 c' k t) then show ?case using insert_opened [OF ad, of c' k t] by (auto split: if_splits)
  next
    case (3 c' k) then show ?case using take_opened [OF ad, of c' k] by (auto split: if_splits)
  next
    case (4 a k) then show ?case using reg_opened [OF ad, of a k] by auto
  next
    case (5 u k a) then show ?case using att_opened [OF ad, of u k a] by auto
  qed
  then show ?thesis
    using ok f fresh_roles fresh_slots fresh_streams handle_socket_newcomer unfolding term_ok_def by fastforce
qed

lemma step_reject:
  assumes ok: "term_ok evs w" and pc: "pc_of w c = Some (AgentInsert k t) \<or> pc_of w c = Some (UserTake k)"
  shows "term_ok (evs @ [(c, Internal)]) (set_pc c (TermRejected n m) w)"
proof -
  have f: "fresh evs c" using ok pc roles_fresh unfolding term_ok_def by blast
  have "admitted_ok (evs @ [(c, Internal)]) (set_pc c (TermRejected n m) w)"
    using ok unfolding term_ok_def admitted_ok_def by auto
  moreover have "newcomer (TermRejected n m)" by (simp add: newcomer_def)
  ultimately show ?thesis
    using ok f fresh_roles fresh_slots fresh_streams unfolding term_ok_def by fastforce
qed

lemma step_stutter:
  assumes "term_ok evs w"
  shows "term_ok (evs @ [(c, Internal)]) w"
proof -
  have q: "quiet Internal" by simp
  show ?thesis
    using assms
    unfolding term_ok_def roles_ok_def slots_ok_def admitted_ok_def streams_ok_def joined_def alone_def
    by (simp add: quiet_events [OF q])
qed

lemma freshD:
  assumes "fresh evs c"
  shows "reg evs a k \<Longrightarrow> a \<noteq> c" "att evs u k a \<Longrightarrow> u \<noteq> c" "att evs u k a \<Longrightarrow> a \<noteq> c"
  using assms unfolding fresh_def by metis+

lemma register_roles:
  assumes ok: "roles_ok evs w" and "fresh evs c"
  shows "roles_ok (evs @ [(c, Registered k)]) (set_pc c (AgentRelay k) w)"
proof -
  note f = freshD [OF assms(2)]
  show ?thesis
  proof (rule roles_okI, goal_cases)
    case (1 a k') then show ?case using reg_pc [OF ok, of a k'] f(1) [of a k'] by auto
  next
    case (2 u k' a) then show ?case using att_pc [OF ok, of u k' a] f(2) [of u k' a] by auto
  next
    case (3 u k' a) then show ?case using att_reg [OF ok, of u k' a] by auto
  next
    case (4 u k' a) then show ?case using relay_att [OF ok, of u k' a] by (auto split: if_splits)
  next
    case (5 a k') then show ?case using agent_reg [OF ok, of a k'] by (auto split: if_splits)
  next
    case (6 u k' a u' k'') then show ?case using att_unique [OF ok, of u k' a u' k''] by auto
  next
    case (7 u k' a k'' a') then show ?case using att_one [OF ok, of u k' a k'' a'] by auto
  next
    case (8 a k' k'') then show ?case
      using reg_one [OF ok, of a k' k''] f(1) [of a k'] f(1) [of a k''] by auto
  qed
qed

lemma attach_roles:
  assumes ok: "roles_ok evs w" and "fresh evs c" and "reg evs a k" and "\<forall>u k'. \<not> att evs u k' a"
  shows "roles_ok (evs @ [(c, Attached k a)]) (set_pc c (UserRelay k a) w)"
proof -
  note f = freshD [OF assms(2)]
  show ?thesis
  proof (rule roles_okI, goal_cases)
    case (1 a' k') then show ?case using reg_pc [OF ok, of a' k'] f(1) [of a' k'] by auto
  next
    case (2 u k' a') then show ?case using att_pc [OF ok, of u k' a'] f(2) [of u k' a'] by auto
  next
    case (3 u k' a') then show ?case using att_reg [OF ok, of u k' a'] assms(3) by auto
  next
    case (4 u k' a') then show ?case using relay_att [OF ok, of u k' a'] by (auto split: if_splits)
  next
    case (5 a' k') then show ?case using agent_reg [OF ok, of a' k'] by (auto split: if_splits)
  next
    case (6 u k' a' u' k'') then show ?case using att_unique [OF ok, of u k' a' u' k''] assms(4) by auto
  next
    case (7 u k' a' k'' a'') then show ?case
      using att_one [OF ok, of u k' a' k'' a''] f(2) [of u k' a'] f(2) [of u k'' a''] by auto
  next
    case (8 a' k' k'') then show ?case using reg_one [OF ok, of a' k' k''] by auto
  qed
qed

lemma end_roles:
  assumes ok: "roles_ok evs w"
    and "pc_of w c = Some (AgentRelay k) \<and> pc = AgentCleanup k
      \<or> (\<exists>a. pc_of w c = Some (UserRelay k a)) \<and> pc = UserCleanup k
      \<or> (pc_of w c = Some (AgentCleanup k) \<or> pc_of w c = Some (UserCleanup k)) \<and> pc = TermClosed"
  shows "roles_ok (evs @ [(c, Internal)]) (set_pc c pc w)"
proof (rule roles_okI, goal_cases)
  case (1 a k') then show ?case using reg_pc [OF ok, of a k'] assms(2) by (cases "a = c") auto
next
  case (2 u k' a) then show ?case using att_pc [OF ok, of u k' a] assms(2) by (cases "u = c") auto
next
  case (3 u k' a) then show ?case using att_reg [OF ok, of u k' a] by auto
next
  case (4 u k' a) then show ?case using relay_att [OF ok, of u k' a] assms(2) by (auto split: if_splits)
next
  case (5 a k') then show ?case using agent_reg [OF ok, of a k'] assms(2) by (cases "a = c") auto
next
  case (6 u k' a u' k'') then show ?case using att_unique [OF ok, of u k' a u' k''] by auto
next
  case (7 u k' a k'' a') then show ?case using att_one [OF ok, of u k' a k'' a'] by auto
next
  case (8 a k' k'') then show ?case using reg_one [OF ok, of a k' k''] by auto
qed

lemma admitted_step:
  assumes ok: "admitted_ok evs w"
    and old: "\<And>c' k t. pc_of w' c' = Some (AgentInsert k t) \<Longrightarrow> pc_of w c' = Some (AgentInsert k t)"
      "\<And>c' k. pc_of w' c' = Some (UserTake k) \<Longrightarrow> pc_of w c' = Some (UserTake k)"
    and ev: "\<And>E p pc. ev \<noteq> Opened E p pc" "\<And>k. ev = Registered k \<Longrightarrow> \<exists>t. pc_of w c = Some (AgentInsert k t)"
      "\<And>k a. ev = Attached k a \<Longrightarrow> pc_of w c = Some (UserTake k)"
  shows "admitted_ok (evs @ [(c, ev)]) w'"
proof -
  have opened: "(c', Opened E p pc) \<in> set (evs @ [(c, ev)]) \<longleftrightarrow> (c', Opened E p pc) \<in> set evs" for c' E p pc
    using ev(1) [of E p pc] by auto
  show ?thesis
  proof (rule admitted_okI, unfold opened, goal_cases)
    case (1 c' E p pc) then show ?case by (rule opened_pc [OF ok])
  next
    case (2 c' k t) then show ?case by (rule insert_opened [OF ok old(1)])
  next
    case (3 c' k) then show ?case by (rule take_opened [OF ok old(2)])
  next
    case (4 a k)
    then consider "reg evs a k" | "a = c" "ev = Registered k" by auto
    then show ?case
    proof cases
      case 1 then show ?thesis by (rule reg_opened [OF ok])
    next
      case 2 then show ?thesis using ev(2) [of k] insert_opened [OF ok, of c k] by metis
    qed
  next
    case (5 u k a)
    then consider "att evs u k a" | "u = c" "ev = Attached k a" by auto
    then show ?case
    proof cases
      case 1 then show ?thesis by (rule att_opened [OF ok])
    next
      case 2 then show ?thesis using take_opened [OF ok ev(3)] by metis
    qed
  qed
qed

lemma register_slots:
  assumes ok: "slots_ok evs w" and "fresh evs c" and "tm_conns w' = hm_insert c (AgentRelay k) (tm_conns w)"
    and "tm_sessions w' = hm_insert k \<lparr> sl_tx_to_agent = c, sl_rx_from_agent = True, sl_task_token = tt \<rparr> (tm_sessions w)"
  shows "slots_ok (evs @ [(c, Registered k)]) w'"
proof -
  note f = freshD [OF assms(2)]
  show ?thesis
  proof (rule slots_okI, goal_cases)
    case 1 then show ?case using slots_wf [OF ok] by (simp add: assms)
  next
    case 2 then show ?case using slots_wf [OF ok] by (simp add: assms)
  next
    case (3 k' s) then show ?case using slot_reg [OF ok, of k' s] by (auto simp: assms split: if_splits)
  next
    case (4 k' s) then show ?case
      using slot_open [OF ok, of k' s] f(1) [OF slot_reg [OF ok, of k' s]] by (auto simp: assms split: if_splits)
  next
    case (5 k' s u k'') then show ?case
      using slot_free [OF ok, of k' s u k''] f(3) [of u k'' c] by (auto simp: assms split: if_splits)
  qed
qed

lemma register_streams:
  assumes ok: "streams_ok evs w" and "fresh evs c" and "tm_conns w' = hm_insert c (AgentRelay k) (tm_conns w)"
    and "tm_to_agent w' = (tm_to_agent w)(c := [])" and "tm_to_user w' = (tm_to_user w)(c := [])"
  shows "streams_ok (evs @ [(c, Registered k)]) w'"
proof -
  note f = freshD [OF assms(2)]
  have silent: "received c evs = []" "delivered c evs = []"
    using fresh_silent [OF ok, of c] assms(2) by (simp_all add: fresh_def)
  show ?thesis
  proof (rule streams_okI, goal_cases)
    case (1 c')
    then have "\<not> reg evs c' k'" "\<not> att evs c' k' a" for k' a by (metis Un_iff set_append)+
    then show ?case using fresh_silent [OF ok, of c'] by simp
  next
    case (2 a k')
    then have n: "\<not> att evs u k'' a" for u k'' by (metis Un_iff set_append)
    show ?case
    proof (cases "a = c")
      case True then show ?thesis by (simp add: alone_def silent assms)
    next
      case False
      then have "reg evs a k'" using 2(1) by simp
      then have "alone evs w a" using reg_alone [OF ok] n by blast
      with False show ?thesis by (simp add: alone_def assms)
    qed
  next
    case (3 u k' a)
    then have a: "att evs u k' a" by simp
    then show ?case
      using att_joined [OF ok a] f(2) [OF a] f(3) [OF a] by (simp add: joined_def assms)
  qed
qed

lemma roles_conns: "tm_conns w' = tm_conns w \<Longrightarrow> roles_ok evs w' = roles_ok evs w"
  by (simp add: roles_ok_def)

lemma step_register:
  assumes ok: "term_ok evs w" and pc: "pc_of w c = Some (AgentInsert k t)"
  shows "term_ok (evs @ [(c, Registered k)])
    (set_pc c (AgentRelay k)
      (w\<lparr> tm_sessions := hm_insert k \<lparr> sl_tx_to_agent = c, sl_rx_from_agent = True, sl_task_token = tt \<rparr> (tm_sessions w),
          tm_to_agent := (tm_to_agent w)(c := []), tm_to_user := (tm_to_user w)(c := []) \<rparr>))"
    (is "term_ok ?evs ?w")
proof -
  have inv: "roles_ok evs w" "slots_ok evs w" "admitted_ok evs w" "streams_ok evs w"
    using ok by (simp_all add: term_ok_def)
  have fr: "fresh evs c" using roles_fresh [OF inv(1), of c k] pc by simp
  have "roles_ok ?evs ?w" using register_roles [OF inv(1) fr, of k] by (rule roles_conns [THEN iffD1, rotated]) simp
  moreover have "slots_ok ?evs ?w" by (rule register_slots [OF inv(2) fr]) simp_all
  moreover have "admitted_ok ?evs ?w" by (rule admitted_step [OF inv(3)]) (simp_all add: pc split: if_splits)
  moreover have "streams_ok ?evs ?w" by (rule register_streams [OF inv(4) fr]) simp_all
  ultimately show ?thesis by (simp add: term_ok_def)
qed

lemma attach_slots:
  assumes ok: "slots_ok evs w" and fr: "fresh evs c" and slot: "hm_get (tm_sessions w) k = Some s"
    and one: "\<And>k'. reg evs (sl_tx_to_agent s) k' \<Longrightarrow> k' = k"
    and "tm_conns w' = hm_insert c pc (tm_conns w)"
    and "tm_sessions w' = hm_insert k (s\<lparr> sl_rx_from_agent := False \<rparr>) (tm_sessions w)"
  shows "slots_ok (evs @ [(c, Attached k (sl_tx_to_agent s))]) w'"
proof (rule slots_okI, goal_cases)
  case 1 then show ?case using slots_wf [OF ok] by (simp add: assms)
next
  case 2 then show ?case using slots_wf [OF ok] by (simp add: assms)
next
  case (3 k' s') then show ?case
    using slot_reg [OF ok, of k' s'] slot_reg [OF ok slot] by (auto simp: assms split: if_splits)
next
  case (4 k' s')
  have "sl_tx_to_agent s \<noteq> c" using slot_reg [OF ok slot] freshD(1) [OF fr] by blast
  moreover have "hm_get (tm_sessions w) k' = Some s' \<Longrightarrow> sl_tx_to_agent s' \<noteq> c"
    using slot_reg [OF ok, of k' s'] freshD(1) [OF fr] by blast
  ultimately show ?case
    using 4 slot_open [OF ok, of k' s'] slot_open [OF ok slot] by (auto simp: assms split: if_splits)
next
  case (5 k' s' u k'')
  then have "k' \<noteq> k" "hm_get (tm_sessions w) k' = Some s'" by (auto simp: assms split: if_splits)
  then show ?case
    using 5(2) slot_free [OF ok, of k' s' u k''] slot_reg [OF ok, of k' s'] one [of k'] by auto
qed

lemma attach_streams:
  assumes ok: "streams_ok evs w" and fr: "fresh evs c" and rg: "reg evs a k" and free: "\<forall>u k'. \<not> att evs u k' a"
    and "tm_conns w' = hm_insert c (UserRelay k a) (tm_conns w)"
    and "tm_to_agent w' = tm_to_agent w" and "tm_to_user w' = tm_to_user w"
  shows "streams_ok (evs @ [(c, Attached k a)]) w'"
proof -
  have silent: "received c evs = []" "delivered c evs = []"
    using fresh_silent [OF ok, of c] fr by (simp_all add: fresh_def)
  show ?thesis
  proof (rule streams_okI, goal_cases)
    case (1 c')
    then have "\<not> reg evs c' k'" "\<not> att evs c' k' a'" for k' a' by (metis Un_iff set_append)+
    then show ?case using fresh_silent [OF ok, of c'] by simp
  next
    case (2 a' k')
    then have "\<forall>u k''. \<not> att evs u k'' a'" by (metis Un_iff set_append)
    then show ?case using 2(1) reg_alone [OF ok, of a' k'] by (simp add: alone_def assms)
  next
    case (3 u k' a')
    then consider "u = c" "k' = k" "a' = a" | "att evs u k' a'" by auto
    then show ?case
    proof cases
      case 1 then show ?thesis
        using reg_alone [OF ok rg free] silent by (simp add: joined_def alone_def assms)
    next
      case 2 then show ?thesis
        using att_joined [OF ok 2] freshD(2,3) [OF fr 2] by (simp add: joined_def assms)
    qed
  qed
qed

lemma step_attach:
  assumes ok: "term_ok evs w" and pc: "pc_of w c = Some (UserTake k)"
    and slot: "hm_get (tm_sessions w) k = Some s" "sl_rx_from_agent s"
  shows "term_ok (evs @ [(c, Attached k (sl_tx_to_agent s))])
    (set_pc c (UserRelay k (sl_tx_to_agent s))
      (w\<lparr> tm_sessions := hm_insert k (s\<lparr> sl_rx_from_agent := False \<rparr>) (tm_sessions w) \<rparr>))"
    (is "term_ok ?evs ?w")
proof -
  have inv: "roles_ok evs w" "slots_ok evs w" "admitted_ok evs w" "streams_ok evs w"
    using ok by (simp_all add: term_ok_def)
  have fr: "fresh evs c" using roles_fresh [OF inv(1), of c k] pc by simp
  have rg: "reg evs (sl_tx_to_agent s) k" and free: "\<forall>u k'. \<not> att evs u k' (sl_tx_to_agent s)"
    using slot_reg [OF inv(2) slot(1)] slot_free [OF inv(2) slot] by blast+
  have "roles_ok ?evs ?w" using attach_roles [OF inv(1) fr rg free] by (rule roles_conns [THEN iffD1, rotated]) simp
  moreover have "slots_ok ?evs ?w"
    by (rule attach_slots [OF inv(2) fr slot(1) reg_one [OF inv(1) rg]]) simp_all
  moreover have "admitted_ok ?evs ?w" by (rule admitted_step [OF inv(3)]) (simp_all add: pc split: if_splits)
  moreover have "streams_ok ?evs ?w" by (rule attach_streams [OF inv(4) fr rg free]) simp_all
  ultimately show ?thesis by (simp add: term_ok_def)
qed

lemma end_slots:
  assumes ok: "slots_ok evs w" and "pc \<noteq> TermClosed"
    and "tm_conns w' = hm_insert c pc (tm_conns w)" and "tm_sessions w' = tm_sessions w"
  shows "slots_ok (evs @ [(c, Internal)]) w'"
proof (rule slots_okI, goal_cases)
  case 1 then show ?case using slots_wf [OF ok] by (simp add: assms)
next
  case 2 then show ?case using slots_wf [OF ok] by (simp add: assms)
next
  case (3 k' s) then show ?case using slot_reg [OF ok, of k' s] by (simp add: assms)
next
  case (4 k' s) then show ?case using slot_open [OF ok, of k' s] assms(2) by (simp add: assms(3,4))
next
  case (5 k' s u k'') then show ?case using slot_free [OF ok, of k' s u k''] by (simp add: assms)
qed

lemma close_slots:
  assumes ok: "slots_ok evs w" and own: "\<And>k'. reg evs c k' \<Longrightarrow> k' = k"
    and "tm_conns w' = hm_insert c TermClosed (tm_conns w)" and "tm_sessions w' = hm_remove k (tm_sessions w)"
  shows "slots_ok (evs @ [(c, Internal)]) w'"
proof (rule slots_okI, goal_cases)
  case 1 then show ?case using slots_wf [OF ok] by (simp add: assms)
next
  case 2 then show ?case using slots_wf [OF ok] by (simp add: assms)
next
  case (3 k' s) then show ?case using slot_reg [OF ok, of k' s] by (simp add: assms split: if_splits)
next
  case (4 k' s)
  then have s: "k' \<noteq> k" "hm_get (tm_sessions w) k' = Some s" by (simp_all add: assms split: if_splits)
  then have "sl_tx_to_agent s \<noteq> c" using own slot_reg [OF ok s(2)] by blast
  then show ?case using slot_open [OF ok s(2)] by (simp add: assms)
next
  case (5 k' s u k'') then show ?case using slot_free [OF ok, of k' s u k''] by (simp add: assms split: if_splits)
qed

text \<open>A message that is taken from a channel and not delivered is lost with its connection.\<close>

lemma end_streams:
  assumes ok: "streams_ok evs w"
    and "pc_of w' = (pc_of w)(c \<mapsto> pc)" and "\<And>k. pc \<noteq> AgentRelay k" "\<And>k a. pc \<noteq> UserRelay k a"
    and "\<And>a. a \<noteq> c \<or> tm_to_agent w a = [] \<Longrightarrow> tm_to_agent w' a = tm_to_agent w a"
    and "\<And>a. (\<forall>k. \<not> att evs c k a) \<Longrightarrow> tm_to_user w' a = tm_to_user w a"
    and "\<And>u k a. att evs u k a \<Longrightarrow> tm_to_user w' a = tm_to_user w a \<or> u = c"
  shows "streams_ok (evs @ [(c, Internal)]) w'"
proof (rule streams_okI, goal_cases)
  case (1 c') then show ?case using fresh_silent [OF ok, of c'] by simp
next
  case (2 a k')
  then have "alone evs w a" using reg_alone [OF ok, of a k'] by simp
  moreover have "\<forall>k. \<not> att evs c k a" using 2(2) by simp
  ultimately show ?case using assms(5,6) [of a] by (simp add: alone_def)
next
  case (3 u k' a)
  then have a: "att evs u k' a" by simp
  show ?case
    using att_joined [OF ok a] assms(3,4) assms(5) [of a] assms(7) [OF a]
    by (cases "u = c"; cases "a = c") (auto simp: joined_def assms(2))
qed

lemma step_end_agent:
  assumes ok: "term_ok evs w" and pc: "pc_of w c = Some (AgentRelay k)" and "tm_to_agent w c = [] \<Longrightarrow> q = []"
  shows "term_ok (evs @ [(c, Internal)]) (set_pc c (AgentCleanup k) (w\<lparr> tm_to_agent := (tm_to_agent w)(c := q) \<rparr>))"
    (is "term_ok ?evs ?w")
proof -
  have inv: "roles_ok evs w" "slots_ok evs w" "admitted_ok evs w" "streams_ok evs w"
    using ok by (simp_all add: term_ok_def)
  have "roles_ok ?evs (set_pc c (AgentCleanup k) w)" by (rule end_roles [OF inv(1)]) (use pc in simp)
  then have "roles_ok ?evs ?w" by (rule roles_conns [THEN iffD1, rotated]) simp
  moreover have "slots_ok ?evs ?w" by (rule end_slots [OF inv(2)]) (use pc in simp_all)
  moreover have "admitted_ok ?evs ?w" by (rule admitted_step [OF inv(3)]) (simp_all split: if_splits)
  moreover have "streams_ok ?evs ?w"
    by (rule end_streams [OF inv(4), where pc = "AgentCleanup k"]) (use assms(3) in \<open>auto simp: fun_eq_iff\<close>)
  ultimately show ?thesis by (simp add: term_ok_def)
qed

lemma step_end_user:
  assumes ok: "term_ok evs w" and pc: "pc_of w c = Some (UserRelay k a)"
  shows "term_ok (evs @ [(c, Internal)]) (set_pc c (UserCleanup k) (w\<lparr> tm_to_user := (tm_to_user w)(a := q) \<rparr>))"
    (is "term_ok ?evs ?w")
proof -
  have inv: "roles_ok evs w" "slots_ok evs w" "admitted_ok evs w" "streams_ok evs w"
    using ok by (simp_all add: term_ok_def)
  have at: "att evs c k a" by (rule relay_att [OF inv(1) pc])
  have "roles_ok ?evs (set_pc c (UserCleanup k) w)" by (rule end_roles [OF inv(1)]) (use pc in simp)
  then have "roles_ok ?evs ?w" by (rule roles_conns [THEN iffD1, rotated]) simp
  moreover have "slots_ok ?evs ?w" by (rule end_slots [OF inv(2)]) (use pc in simp_all)
  moreover have "admitted_ok ?evs ?w" by (rule admitted_step [OF inv(3)]) (simp_all split: if_splits)
  moreover have "streams_ok ?evs ?w"
  proof (rule end_streams [OF inv(4), where pc = "UserCleanup k"], goal_cases)
    case (5 a') then show ?case using at by auto
  next
    case (6 u k' a') then show ?case using att_unique [OF inv(1) at] by auto
  qed (simp_all add: fun_eq_iff)
  ultimately show ?thesis by (simp add: term_ok_def)
qed

lemma step_close:
  assumes ok: "term_ok evs w" and pc: "pc_of w c = Some (AgentCleanup k) \<or> pc_of w c = Some (UserCleanup k)"
  shows "term_ok (evs @ [(c, Internal)]) (set_pc c TermClosed (w\<lparr> tm_sessions := hm_remove k (tm_sessions w) \<rparr>))"
    (is "term_ok ?evs ?w")
proof -
  have inv: "roles_ok evs w" "slots_ok evs w" "admitted_ok evs w" "streams_ok evs w"
    using ok by (simp_all add: term_ok_def)
  have own: "k' = k" if "reg evs c k'" for k' using reg_pc [OF inv(1) that] pc by auto
  have "roles_ok ?evs (set_pc c TermClosed w)" by (rule end_roles [OF inv(1)]) (use pc in blast)
  then have "roles_ok ?evs ?w" by (rule roles_conns [THEN iffD1, rotated]) simp
  moreover have "slots_ok ?evs ?w" by (rule close_slots [OF inv(2) own]) simp_all
  moreover have "admitted_ok ?evs ?w" by (rule admitted_step [OF inv(3)]) (simp_all split: if_splits)
  moreover have "streams_ok ?evs ?w"
    by (rule end_streams [OF inv(4), where pc = TermClosed]) (simp_all add: fun_eq_iff)
  ultimately show ?thesis by (simp add: term_ok_def)
qed

lemma relay_step:
  assumes ok: "term_ok evs w" and "tm_conns w' = tm_conns w" and "tm_sessions w' = tm_sessions w"
    and "ev = Received m \<or> ev = Delivered m" and "streams_ok (evs @ [(c, ev)]) w'"
  shows "term_ok (evs @ [(c, ev)]) w'"
proof -
  have e: "ev \<noteq> Registered k" "ev \<noteq> Attached k a" "ev \<noteq> Opened E p pc" for k a E p pc using assms(4) by auto
  then have mem: "reg (evs @ [(c, ev)]) a k = reg evs a k" "att (evs @ [(c, ev)]) u k a = att evs u k a"
    "(c', Opened E p pc) \<in> set (evs @ [(c, ev)]) \<longleftrightarrow> (c', Opened E p pc) \<in> set evs" for a k u c' E p pc
    using e by (metis Un_iff empty_iff empty_set insert_iff list.set(2) prod.inject set_append)+
  have "roles_ok (evs @ [(c, ev)]) w' = roles_ok evs w" by (simp only: roles_ok_def mem assms(2))
  moreover have "slots_ok (evs @ [(c, ev)]) w' = slots_ok evs w" by (simp only: slots_ok_def mem assms(2,3))
  moreover have "admitted_ok (evs @ [(c, ev)]) w' = admitted_ok evs w" by (simp only: admitted_ok_def mem assms(2))
  ultimately show ?thesis using ok assms(5) by (simp add: term_ok_def)
qed

lemma step_agent_received:
  assumes ok: "term_ok evs w" and pc: "pc_of w c = Some (AgentRelay k)"
  shows "term_ok (evs @ [(c, Received m)]) (w\<lparr> tm_to_user := (tm_to_user w)(c := tm_to_user w c @ [m]) \<rparr>)"
    (is "term_ok ?evs ?w")
proof (rule relay_step [OF ok], simp, simp, simp)
  have inv: "roles_ok evs w" "streams_ok evs w" using ok by (simp_all add: term_ok_def)
  have rg: "reg evs c k" using agent_reg [OF inv(1)] pc by blast
  have no: "\<not> att evs c k' a" for k' a using att_pc [OF inv(1), of c k' a] pc by auto
  show "streams_ok ?evs ?w"
  proof (rule streams_okI, goal_cases)
    case (1 c')
    then have "c' \<noteq> c" using rg by auto
    then show ?case using 1 fresh_silent [OF inv(2), of c'] by simp
  next
    case (2 a k') then show ?case using reg_alone [OF inv(2), of a k'] by (simp add: alone_def)
  next
    case (3 u k' a)
    then have a: "att evs u k' a" by simp
    then have "u \<noteq> c" using no by blast
    then show ?case using att_joined [OF inv(2) a] by (auto simp: joined_def)
  qed
qed

lemma step_agent_delivered:
  assumes ok: "term_ok evs w" and pc: "pc_of w c = Some (AgentRelay k)" and q: "tm_to_agent w c = m # ms"
  shows "term_ok (evs @ [(c, Delivered m)]) (w\<lparr> tm_to_agent := (tm_to_agent w)(c := ms) \<rparr>)"
    (is "term_ok ?evs ?w")
proof (rule relay_step [OF ok], simp, simp, simp)
  have inv: "roles_ok evs w" "streams_ok evs w" using ok by (simp_all add: term_ok_def)
  have rg: "reg evs c k" using agent_reg [OF inv(1)] pc by blast
  have no: "\<not> att evs c k' a" for k' a using att_pc [OF inv(1), of c k' a] pc by auto
  show "streams_ok ?evs ?w"
  proof (rule streams_okI, goal_cases)
    case (1 c')
    then have "c' \<noteq> c" using rg by auto
    then show ?case using 1 fresh_silent [OF inv(2), of c'] by simp
  next
    case (2 a k') then show ?case using reg_alone [OF inv(2), of a k'] q by (auto simp: alone_def)
  next
    case (3 u k' a)
    then have a: "att evs u k' a" by simp
    then have "u \<noteq> c" using no by blast
    moreover have "a = c \<Longrightarrow> k' = k" using reg_one [OF inv(1) rg] att_reg [OF inv(1) a] by blast
    ultimately show ?case using att_joined [OF inv(2) a] pc q by (auto simp: joined_def)
  qed
qed

lemma step_user_received:
  assumes ok: "term_ok evs w" and pc: "pc_of w c = Some (UserRelay k a)"
  shows "term_ok (evs @ [(c, Received m)]) (w\<lparr> tm_to_agent := (tm_to_agent w)(a := tm_to_agent w a @ [m]) \<rparr>)"
    (is "term_ok ?evs ?w")
proof (rule relay_step [OF ok], simp, simp, simp)
  have inv: "roles_ok evs w" "streams_ok evs w" using ok by (simp_all add: term_ok_def)
  have at: "att evs c k a" by (rule relay_att [OF inv(1) pc])
  have no: "\<not> reg evs c k'" for k' using reg_pc [OF inv(1), of c k'] pc by auto
  show "streams_ok ?evs ?w"
  proof (rule streams_okI, goal_cases)
    case (1 c')
    then have "c' \<noteq> c" using at by auto
    then show ?case using 1 fresh_silent [OF inv(2), of c'] by simp
  next
    case (2 a' k')
    then have "a' \<noteq> a" "a' \<noteq> c" using at no by auto
    then show ?case using 2 reg_alone [OF inv(2), of a' k'] by (simp add: alone_def)
  next
    case (3 u k' a')
    then have a': "att evs u k' a'" by simp
    then have "u = c \<longleftrightarrow> a' = a" using att_unique [OF inv(1)] att_one [OF inv(1)] at by metis
    moreover have "a' \<noteq> c" using att_reg [OF inv(1) a'] no by blast
    ultimately show ?case using att_joined [OF inv(2) a'] by (auto simp: joined_def)
  qed
qed

lemma step_user_delivered:
  assumes ok: "term_ok evs w" and pc: "pc_of w c = Some (UserRelay k a)" and q: "tm_to_user w a = m # ms"
  shows "term_ok (evs @ [(c, Delivered m)]) (w\<lparr> tm_to_user := (tm_to_user w)(a := ms) \<rparr>)"
    (is "term_ok ?evs ?w")
proof (rule relay_step [OF ok], simp, simp, simp)
  have inv: "roles_ok evs w" "streams_ok evs w" using ok by (simp_all add: term_ok_def)
  have at: "att evs c k a" by (rule relay_att [OF inv(1) pc])
  have no: "\<not> reg evs c k'" for k' using reg_pc [OF inv(1), of c k'] pc by auto
  show "streams_ok ?evs ?w"
  proof (rule streams_okI, goal_cases)
    case (1 c')
    then have "c' \<noteq> c" using at by auto
    then show ?case using 1 fresh_silent [OF inv(2), of c'] by simp
  next
    case (2 a' k')
    then have "a' \<noteq> a" "a' \<noteq> c" using at no by auto
    then show ?case using 2 reg_alone [OF inv(2), of a' k'] by (simp add: alone_def)
  next
    case (3 u k' a')
    then have a': "att evs u k' a'" by simp
    then have "u = c \<longleftrightarrow> a' = a" "u = c \<Longrightarrow> k' = k"
      using att_unique [OF inv(1)] att_one [OF inv(1)] at by metis+
    moreover have "a' \<noteq> c" using att_reg [OF inv(1) a'] no by blast
    ultimately show ?case using att_joined [OF inv(2) a'] pc q by (auto simp: joined_def)
  qed
qed


section \<open>Every run\<close>

lemma agent_relay_ok:
  assumes ok: "term_ok evs w" and pc: "pc_of w c = Some (AgentRelay k)" and step: "agent_relay E c k i w = (w', ev)"
  shows "term_ok (evs @ [(c, ev)]) w'"
proof -
  have stop: "term_ok (evs @ [(c, Internal)]) (set_pc c (AgentCleanup k) w)"
    using step_end_agent [OF ok pc, of "tm_to_agent w c"] by simp
  note steps = stop step_stutter [OF ok] step_agent_received [OF ok pc] step_agent_delivered [OF ok pc]
    step_end_agent [OF ok pc]
  show ?thesis
  proof (cases i)
    case (Incoming m) then show ?thesis using step steps by (auto simp: agent_relay_def split: if_splits)
  next
    case Ready then show ?thesis
      using step steps by (auto simp: agent_relay_def Let_def split: if_splits list.splits)
  qed (use step steps in \<open>auto simp: agent_relay_def\<close>)
qed

lemma user_relay_ok:
  assumes ok: "term_ok evs w" and pc: "pc_of w c = Some (UserRelay k a)" and step: "user_relay E c k a i w = (w', ev)"
  shows "term_ok (evs @ [(c, ev)]) w'"
proof -
  have stop: "term_ok (evs @ [(c, Internal)]) (set_pc c (UserCleanup k) w)"
    using step_end_user [OF ok pc, of "tm_to_user w a"] by simp
  note steps = stop step_stutter [OF ok] step_user_received [OF ok pc] step_user_delivered [OF ok pc]
    step_end_user [OF ok pc]
  show ?thesis
  proof (cases i)
    case (Incoming m) then show ?thesis using step steps by (auto simp: user_relay_def split: if_splits)
  next
    case Ready then show ?thesis
      using step steps by (auto simp: user_relay_def Let_def split: if_splits list.splits)
  qed (use step steps in \<open>auto simp: user_relay_def\<close>)
qed

lemma agent_insert_ok:
  assumes "term_ok evs w" and "pc_of w c = Some (AgentInsert k t)" and "agent_insert E c k t w = (w', ev)"
  shows "term_ok (evs @ [(c, ev)]) w'"
  using assms(3) step_reject [OF assms(1)] step_register [OF assms(1,2)] assms(2)
  by (auto simp: agent_insert_def split: option.splits)

lemma user_take_ok:
  assumes "term_ok evs w" and "pc_of w c = Some (UserTake k)" and "user_take c k w = (w', ev)"
  shows "term_ok (evs @ [(c, ev)]) w'"
  using assms(3) step_reject [OF assms(1)] step_attach [OF assms(1,2)] assms(2)
  by (auto simp: user_take_def split: option.splits if_splits)

lemma remove_key_ok:
  assumes "term_ok evs w" and "pc_of w c = Some (AgentCleanup k) \<or> pc_of w c = Some (UserCleanup k)"
    and "remove_key c k w = (w', ev)"
  shows "term_ok (evs @ [(c, ev)]) w'"
  using assms(3) step_close [OF assms(1,2)] by (auto simp: remove_key_def)

lemma term_next_ok:
  assumes ok: "term_ok evs w" and step: "term_next E c i w = (w', ev)"
  shows "term_ok (evs @ [(c, ev)]) w'"
proof (cases "pc_of w c")
  case None
  then show ?thesis
    using step step_stutter [OF ok] step_open [OF ok] by (auto simp: term_next_def split: term_input.splits)
next
  case (Some pc)
  note kinds = agent_insert_ok [OF ok] agent_relay_ok [OF ok] remove_key_ok [OF ok] user_take_ok [OF ok]
    user_relay_ok [OF ok] step_stutter [OF ok]
  show ?thesis
    using step Some kinds by (cases pc) (auto simp: term_next_def)
qed

lemma term_run_ok: "term_run w\<^sub>0 evs w \<Longrightarrow> w\<^sub>0 = terminal_router \<Longrightarrow> term_ok evs w"
  by (induction rule: term_run.induct) (simp_all add: term_ok_start term_next_ok)

lemma term_steps_run:
  "term_run w\<^sub>0 evs\<^sub>0 w \<Longrightarrow> term_steps ss w = (w', evs) \<Longrightarrow> term_run w\<^sub>0 (evs\<^sub>0 @ evs) w'"
proof (induction ss arbitrary: evs\<^sub>0 w evs)
  case (Cons s ss)
  obtain E c i where s: "s = (E, c, i)" by (cases s)
  obtain w1 ev where n: "term_next E c i w = (w1, ev)" by fastforce
  obtain evs' where r: "term_steps ss w1 = (w', evs')" "evs = (c, ev) # evs'"
    using Cons.prems(2) by (auto simp: s n split: prod.splits)
  have "term_run w\<^sub>0 (evs\<^sub>0 @ [(c, ev)]) w1" by (rule run_step [OF Cons.prems(1) n])
  from Cons.IH [OF this r(1)] show ?case by (simp add: r(2))
qed simp

section \<open>What the checks admit\<close>

lemma check_terminal_connect_permission_Inr:
  assumes "check_terminal_connect_permission E token text = Inr ()"
  obtains u cred where "tv_parse_uuid E text = Some u" and "parse_token token = Inr cred"
    and "ck_limit (tv_checker E) cred [AgentUuid u] [PTerminal Terminal_Connect] = Inr True
      \<or> ck_limit (tv_checker E) cred [Global] [PTerminal Terminal_Connect] = Inr True"
  using assms
  by (auto simp: check_terminal_connect_permission_def parse_agent_uuid_def result_simps split: if_splits)

lemma check_agent_Inr:
  assumes "check_agent E text token i = Inr True"
  obtains u r t where "tv_parse_uuid E text = Some u" and "r \<in> set (tv_tasks E)" and "matching_task u token i r"
    and "tv_type_from_value E (tr_type r) = Inr t" and "is_web_shell t"
  using assms
  by (auto simp: check_agent_def parse_agent_uuid_def result_simps find_Some_iff in_set_conv_nth
      split: if_splits option.splits)

definition user_admitted :: "term_env \<Rightarrow> terminal_params \<Rightarrow> terminal_session_key \<Rightarrow> bool" where
  "user_admitted E p k \<longleftrightarrow>
     tv_parse_uuid E (tp_agent_uuid p) = Some (sk_agent_uuid k) \<and> tp_terminal_id p = Some (sk_terminal_id k) \<and>
     (\<exists>token cred. tp_token p = Some token \<and> parse_token token = Inr cred \<and>
        (ck_limit (tv_checker E) cred [AgentUuid (sk_agent_uuid k)] [PTerminal Terminal_Connect] = Inr True
         \<or> ck_limit (tv_checker E) cred [Global] [PTerminal Terminal_Connect] = Inr True))"

definition agent_admitted :: "term_env \<Rightarrow> terminal_params \<Rightarrow> terminal_session_key \<Rightarrow> bool" where
  "agent_admitted E p k \<longleftrightarrow>
     tv_parse_uuid E (tp_agent_uuid p) = Some (sk_agent_uuid k) \<and> tp_terminal_id p = Some (sk_terminal_id k) \<and>
     (\<exists>token i r t. tp_task_token p = Some token \<and> tp_task_id p = Some i \<and> r \<in> set (tv_tasks E) \<and>
        tr_id r = i \<and> tr_uuid r = sk_agent_uuid k \<and> tr_token r = token \<and> tr_result r = None \<and>
        tv_type_from_value E (tr_type r) = Inr t \<and> is_web_shell t)"

lemma handle_socket_UserTake:
  assumes "handle_socket E p = UserTake k"
  shows "user_admitted E p k"
proof -
  have "user_start E (tp_agent_uuid p) (tp_terminal_id p) (tp_token p) = UserTake k"
    using assms by (auto simp: handle_socket_def agent_start_def Let_def split: option.splits sum.splits bool.splits)
  then obtain token u where t: "tp_token p = Some token" "tp_terminal_id p = Some (sk_terminal_id k)"
    "check_terminal_connect_permission E token (tp_agent_uuid p) = Inr ()"
    "tv_parse_uuid E (tp_agent_uuid p) = Some (sk_agent_uuid k)"
    by (auto simp: user_start_def split: option.splits sum.splits)
  from check_terminal_connect_permission_Inr [OF t(3)] show ?thesis
    using t by (auto simp: user_admitted_def)
qed

lemma handle_socket_AgentInsert:
  assumes "handle_socket E p = AgentInsert k tok"
  shows "agent_admitted E p k"
proof -
  obtain token i where t: "tp_task_token p = Some token" "tp_task_id p = Some i"
    "tp_terminal_id p = Some (sk_terminal_id k)" "check_agent E (tp_agent_uuid p) token i = Inr True"
    "tv_parse_uuid E (tp_agent_uuid p) = Some (sk_agent_uuid k)"
    using assms
    by (auto simp: handle_socket_def user_start_def agent_start_def Let_def split: option.splits sum.splits bool.splits)
  obtain u r ty where r: "tv_parse_uuid E (tp_agent_uuid p) = Some u" "r \<in> set (tv_tasks E)"
    "matching_task u token i r" "tv_type_from_value E (tr_type r) = Inr ty" "is_web_shell ty"
    by (rule check_agent_Inr [OF t(4)])
  then show ?thesis using t unfolding agent_admitted_def matching_task_def by fastforce
qed


section \<open>The terminal relay\<close>

text \<open>
  (C33) A terminal session joins one user to one agent and to nobody else.  However the
  handlers interleave, if a user's connection is attached to an agent's connection under a key,
  then the user named this agent and this terminal and presented a token that may connect to
  the agent (or to all agents), and the agent presented the token of an unfinished web
  shell task of its own; no other connection is ever attached to this agent connection, and the
  user's to no other.  What is written to one of the two websockets is, in order and without
  gaps, an initial part of what was read from the other; and a connection that is not part of
  such a pair is never sent a message.
\<close>

theorem terminal_sessions_isolated:
  assumes "term_run terminal_router evs w" and "(u, Attached k a) \<in> set evs"
  shows "(\<exists>E p. (u, Opened E p (handle_socket E p)) \<in> set evs \<and> user_admitted E p k)
    \<and> (\<exists>E p. (a, Opened E p (handle_socket E p)) \<in> set evs \<and> agent_admitted E p k)
    \<and> (\<forall>u' k'. (u', Attached k' a) \<in> set evs \<longrightarrow> u' = u)
    \<and> (\<forall>k' a'. (u, Attached k' a') \<in> set evs \<longrightarrow> k' = k \<and> a' = a)
    \<and> (\<exists>rest. received a evs = delivered u evs @ rest)
    \<and> (\<exists>rest. received u evs = delivered a evs @ rest)
    \<and> (\<forall>c. delivered c evs \<noteq> [] \<longrightarrow> (\<exists>k' c'. (c, Attached k' c') \<in> set evs \<or> (c', Attached k' c) \<in> set evs))"
proof -
  have inv: "roles_ok evs w" "admitted_ok evs w" "streams_ok evs w"
    using term_run_ok [OF assms(1)] by (simp_all add: term_ok_def)
  have rg: "reg evs a k" by (rule att_reg [OF inv(1) assms(2)])
  obtain E p where u: "(u, Opened E p (UserTake k)) \<in> set evs" using att_opened [OF inv(2) assms(2)] by blast
  obtain E' p' t where a: "(a, Opened E' p' (AgentInsert k t)) \<in> set evs" using reg_opened [OF inv(2) rg] by blast
  note us = opened_pc [OF inv(2) u] and as = opened_pc [OF inv(2) a]
  have "\<exists>E p. (u, Opened E p (handle_socket E p)) \<in> set evs \<and> user_admitted E p k"
    using u us handle_socket_UserTake by metis
  moreover have "\<exists>E p. (a, Opened E p (handle_socket E p)) \<in> set evs \<and> agent_admitted E p k"
    using a as handle_socket_AgentInsert by metis
  moreover have "\<exists>k' c'. att evs c k' c' \<or> att evs c' k' c" if "delivered c evs \<noteq> []" for c
    using that fresh_silent [OF inv(3), of c] reg_alone [OF inv(3), of c] unfolding alone_def by metis
  ultimately show ?thesis
    using att_unique [OF inv(1) assms(2)] att_one [OF inv(1) assms(2)] att_joined [OF inv(3) assms(2)]
    unfolding joined_def by blast
qed

definition demo_term_env :: term_env where
  "demo_term_env = \<lparr> tv_ready = True,
     tv_tasks = [\<lparr> tr_id = 9, tr_uuid = 5, tr_token = ''t'', tr_cron_source = None, tr_timestamp = None,
       tr_success = None, tr_error_message = None, tr_type = JNull, tr_result = None, tr_created_at = None \<rparr>],
     tv_fault = None, tv_display = (\<lambda>_. []),
     tv_type_from_value = (\<lambda>_. Inr (WebShell \<lparr> ws_url = [], ws_terminal_id = 6 \<rparr>)),
     tv_checker = \<lparr> ck_registered = True, ck_super = (\<lambda>_. Inr False), ck_get = (\<lambda>_. err (NotFound [])),
       ck_now = Inr 0, ck_limit = (\<lambda>_ _ _. Inr True) \<rparr>,
     tv_parse_uuid = (\<lambda>_. Some 5), tv_show_uuid = (\<lambda>_. []), tv_sent = True \<rparr>"

definition demo_agent :: terminal_params where
  "demo_agent = \<lparr> tp_agent_uuid = ''5'', tp_task_id = Some 9, tp_task_token = Some ''t'',
     tp_terminal_id = Some 6, tp_token = None \<rparr>"

definition demo_user :: terminal_params where
  "demo_user = \<lparr> tp_agent_uuid = ''5'', tp_task_id = None, tp_task_token = None,
     tp_terminal_id = Some 6, tp_token = Some ''a:b'' \<rparr>"

definition demo_key :: terminal_session_key where
  "demo_key = \<lparr> sk_agent_uuid = 5, sk_terminal_id = 6 \<rparr>"

lemma demo_handlers:
  "handle_socket demo_term_env demo_agent = AgentInsert demo_key ''t''"
  "handle_socket demo_term_env demo_user = UserTake demo_key"
proof -
  have "parse_token ''a:b'' = Inr (Token ''a'' ''b'')" by code_simp
  then show "handle_socket demo_term_env demo_user = UserTake demo_key"
    by (simp add: handle_socket_def demo_user_def demo_key_def user_start_def demo_term_env_def
        check_terminal_connect_permission_def parse_agent_uuid_def get_checker_def checker.truncate_def)
  show "handle_socket demo_term_env demo_agent = AgentInsert demo_key ''t''"
    by (simp add: handle_socket_def demo_agent_def demo_key_def agent_start_def demo_term_env_def check_agent_def
        parse_agent_uuid_def matching_task_def is_web_shell_def)
qed

text \<open>An agent and a user connect, and the agent sends a message.\<close>

definition demo_join :: "(term_env \<times> nat \<times> nat term_input) list" where
  "demo_join = [(demo_term_env, 0, Open demo_agent), (demo_term_env, 0, Ready),
     (demo_term_env, 1, Open demo_user), (demo_term_env, 1, Ready),
     (demo_term_env, 0, Incoming 7), (demo_term_env, 1, Ready)]"

lemmas term_next_simps = term_next_def agent_insert_def user_take_def agent_relay_def user_relay_def remove_key_def
  set_pc_def receiver_of_user_def sender_to_agent_def attached_def agent_alive_def
  terminal_router_def TERMINAL_CHANNEL_BUFFER_SIZE_def hm_get_def hm_insert_def hm_remove_def

lemma demo_join_events:
  "snd (term_steps demo_join terminal_router) =
    [(0, Opened demo_term_env demo_agent (AgentInsert demo_key ''t'')), (0, Registered demo_key),
     (1, Opened demo_term_env demo_user (UserTake demo_key)), (1, Attached demo_key 0), (0, Received 7), (1, Delivered 7)]"
  by (simp add: demo_join_def term_next_simps demo_handlers) (simp add: demo_term_env_def)

theorem terminal_sessions_isolated_witness:
  "delivered 1 (snd (term_steps demo_join terminal_router)) = [7]
    \<and> (\<exists>rest. received 0 (snd (term_steps demo_join terminal_router))
        = delivered 1 (snd (term_steps demo_join terminal_router)) @ rest)
    \<and> (\<exists>E p. (1, Opened E p (handle_socket E p)) \<in> set (snd (term_steps demo_join terminal_router))
        \<and> user_admitted E p demo_key)"
proof -
  let ?evs = "snd (term_steps demo_join terminal_router)"
  have "term_run terminal_router ?evs (fst (term_steps demo_join terminal_router))"
    using term_steps_run [OF run_start, of demo_join terminal_router] by simp
  moreover have "(1, Attached demo_key 0) \<in> set ?evs" by (simp add: demo_join_events)
  ultimately have "(\<exists>rest. received 0 ?evs = delivered 1 ?evs @ rest)
    \<and> (\<exists>E p. (1, Opened E p (handle_socket E p)) \<in> set ?evs \<and> user_admitted E p demo_key)"
    using terminal_sessions_isolated by blast
  moreover have "delivered 1 ?evs = [7]"
    by (simp add: demo_join_events delivered_def List.map_filter_def)
  ultimately show ?thesis by blast
qed

lemma no_sender:
  assumes ok: "term_ok evs w" and rg: "reg evs b k" and "hm_get (tm_sessions w) k = None"
    and free: "\<forall>u k'. \<not> att evs u k' b"
  shows "\<not> sender_to_agent b w"
proof
  assume "sender_to_agent b w"
  have inv: "roles_ok evs w" "slots_ok evs w" using ok by (simp_all add: term_ok_def)
  note wf = slots_wf [OF inv(2)]
  from \<open>sender_to_agent b w\<close>
  consider k' s where "(k', s) \<in> set (tm_sessions w)" "sl_tx_to_agent s = b"
    | c k' where "(c, UserRelay k' b) \<in> set (tm_conns w)"
    by (auto simp: sender_to_agent_def attached_def list_ex_iff split: term_pc.splits)
  then show False
  proof cases
    case 1
    then have "hm_get (tm_sessions w) k' = Some s" using wf(1) by (simp add: hm_get_iff_mem)
    then show False using 1 slot_reg [OF inv(2)] reg_one [OF inv(1) rg] assms(3) by fastforce
  next
    case 2
    then have "pc_of w c = Some (UserRelay k' b)" using wf(2) by (simp add: hm_get_iff_mem)
    then show False using relay_att [OF inv(1)] free by blast
  qed
qed

text \<open>
  (C34) The clean-up of one session can end another.  Both handlers remove the entry of their key
  without looking whose it is.  If a user is still attached to an agent connection that is gone
  and, under the same key, the agent has opened a new session that waits for a user, then the
  clean-up of the old user takes the new session out of the table, its agent connection, which
  nobody has disturbed, ends at its next step, and a user who connects now is told that there is
  no such session.
\<close>

theorem stale_cleanup_ends_session:
  assumes "term_run terminal_router evs w" and "(u, Attached k a) \<in> set evs"
    and "pc_of w u = Some (UserCleanup k)"
    and "hm_get (tm_sessions w) k = Some s" and "sl_tx_to_agent s \<noteq> a" and "sl_rx_from_agent s"
    and "pc_of w (sl_tx_to_agent s) = Some (AgentRelay k)"
    and "term_next E u i w = (w\<^sub>1, ev)"
    and "pc_of w c = Some (UserTake k)" and "c \<noteq> u"
  shows "hm_get (tm_sessions w\<^sub>1) k = None
    \<and> pc_of w\<^sub>1 (sl_tx_to_agent s) = Some (AgentRelay k)
    \<and> pc_of (fst (term_next E' (sl_tx_to_agent s) Ready w\<^sub>1)) (sl_tx_to_agent s) = Some (AgentCleanup k)
    \<and> pc_of (fst (term_next E' c i' w\<^sub>1)) c = Some (TermRejected 108 ''Terminal session not found'')"
proof -
  let ?b = "sl_tx_to_agent s"
  have ok: "term_ok evs w" using term_run_ok [OF assms(1)] by simp
  then have inv: "roles_ok evs w" "slots_ok evs w" "streams_ok evs w" by (simp_all add: term_ok_def)
  have w1: "w\<^sub>1 = set_pc u TermClosed (w\<lparr> tm_sessions := hm_remove k (tm_sessions w) \<rparr>)"
    using assms(3,8) by (simp add: term_next_def remove_key_def)
  have rg: "reg evs ?b k" and free: "\<not> att evs u' k' ?b" for u' k'
    using slot_reg [OF inv(2) assms(4)] slot_free [OF inv(2) assms(4,6)] by blast+
  have b: "?b \<noteq> u" using assms(3,7) by auto
  have empty: "tm_to_agent w ?b = []" using reg_alone [OF inv(3) rg] free by (simp add: alone_def)
  have ok1: "term_ok (evs @ [(u, ev)]) w\<^sub>1" by (rule term_next_ok [OF ok assms(8)])
  have "ev = Internal" using assms(3,8) by (simp add: term_next_def remove_key_def)
  then have "\<not> sender_to_agent ?b w\<^sub>1"
    using no_sender [OF ok1, of ?b k] rg free by (simp add: w1)
  then show ?thesis
    using assms(7,9,10) b empty
    by (auto simp: w1 term_next_def agent_relay_def user_take_def)
qed

text \<open>
  The agent's first connection drops, it connects again under the same key, the user's
  handler notices the loss, and a second user connects.
\<close>

definition demo_reconnect :: "(term_env \<times> nat \<times> nat term_input) list" where
  "demo_reconnect = [(demo_term_env, 0, Open demo_agent), (demo_term_env, 0, Ready),
     (demo_term_env, 1, Open demo_user), (demo_term_env, 1, Ready),
     (demo_term_env, 0, Gone), (demo_term_env, 0, Ready),
     (demo_term_env, 2, Open demo_agent), (demo_term_env, 2, Ready),
     (demo_term_env, 1, Ready), (demo_term_env, 3, Open demo_user)]"

definition demo_reconnected :: "nat terminal_state" where
  "demo_reconnected = fst (term_steps demo_reconnect terminal_router)"

lemma demo_reconnect_run:
  "term_run terminal_router (snd (term_steps demo_reconnect terminal_router)) demo_reconnected"
  using term_steps_run [OF run_start, of demo_reconnect terminal_router] by (simp add: demo_reconnected_def)

lemma demo_reconnect_events:
  "(1, Attached demo_key 0) \<in> set (snd (term_steps demo_reconnect terminal_router))"
  by (simp add: demo_reconnect_def term_next_simps demo_handlers)

lemma demo_reconnected_state:
  "pc_of demo_reconnected 1 = Some (UserCleanup demo_key)"
  "pc_of demo_reconnected 2 = Some (AgentRelay demo_key)"
  "pc_of demo_reconnected 3 = Some (UserTake demo_key)"
  "hm_get (tm_sessions demo_reconnected) demo_key
    = Some \<lparr> sl_tx_to_agent = 2, sl_rx_from_agent = True, sl_task_token = ''t'' \<rparr>"
  by (simp_all add: demo_reconnected_def demo_reconnect_def term_next_simps demo_handlers)

theorem stale_cleanup_ends_session_witness:
  "pc_of demo_reconnected 2 = Some (AgentRelay demo_key)
    \<and> hm_get (tm_sessions (fst (term_next demo_term_env 1 Ready demo_reconnected))) demo_key = None
    \<and> pc_of (fst (term_next demo_term_env 2 Ready (fst (term_next demo_term_env 1 Ready demo_reconnected)))) 2
      = Some (AgentCleanup demo_key)"
  using stale_cleanup_ends_session [OF demo_reconnect_run demo_reconnect_events demo_reconnected_state(1,4),
      of demo_term_env Ready "fst (term_next demo_term_env 1 Ready demo_reconnected)"
        "snd (term_next demo_term_env 1 Ready demo_reconnected)" 3 demo_term_env Ready]
  by (simp add: demo_reconnected_state)

end
