(* ===== verification/Retention.thy ===== *)
theory Retention
  imports Task Uuid_Cache
begin

text \<open>
  \<^verbatim>\<open>ng-task/src/retention.rs\<close>: the sweeper that removes old rows of the tables
  \<^verbatim>\<open>task\<close>, \<^verbatim>\<open>crontab_result\<close> and \<^verbatim>\<open>js_result\<close>.  The limits are read
  from the table of \<^verbatim>\<open>ng-kv\<close>, the agents from \<^verbatim>\<open>monitoring_uuid\<close>.

  A sweep is a sequence of queries.  Before each query the other requests may have
  changed the table, and each query may fail: both are given by the number of the
  query (\<open>tb_others\<close>, \<open>tb_fault\<close>).
\<close>


section \<open>Constants and options\<close>

definition LIMIT_KEY_PREFIX :: string where
  "LIMIT_KEY_PREFIX = ''database_limit_''"

definition GLOBAL_NAMESPACE :: string where
  "GLOBAL_NAMESPACE = ''global''"

definition CHUNK_SIZE :: nat where
  "CHUNK_SIZE = 500"

definition MAX_CHUNKS_PER_TARGET :: nat where
  "MAX_CHUNKS_PER_TARGET = 2000"

definition SOFT_DELETE_GRACE_MS :: int where
  "SOFT_DELETE_GRACE_MS = 600000"

definition MIN_TASK_LIMIT_MS :: int where
  "MIN_TASK_LIMIT_MS = 600000"

definition MIN_RESULT_LIMIT_MS :: int where
  "MIN_RESULT_LIMIT_MS = 3600000"

definition MIN_LEGACY_ID_MARGIN :: int where
  "MIN_LEGACY_ID_MARGIN = 1000"

record retention_options =
  ro_enabled :: bool
  ro_interval_secs :: "64 word"
  ro_initial_delay_secs :: "64 word"
  ro_legacy_id_margin :: "64 word"

definition default_options :: retention_options where
  "default_options =
     \<lparr> ro_enabled = False, ro_interval_secs = 3600, ro_initial_delay_secs = 30, ro_legacy_id_margin = 100000 \<rparr>"

text \<open>The section \<^verbatim>\<open>retention\<close> of the configuration; an option that is absent has its default.\<close>

record retention_config =
  rc_enabled :: "bool option"
  rc_interval_secs :: "64 word option"
  rc_initial_delay_secs :: "64 word option"
  rc_legacy_id_margin :: "64 word option"

definition options_of_config :: "retention_config option \<Rightarrow> retention_options" where
  "options_of_config c =
     (case c of
        None \<Rightarrow> default_options
      | Some r \<Rightarrow>
          \<lparr> ro_enabled = (case rc_enabled r of Some b \<Rightarrow> b | None \<Rightarrow> False),
            ro_interval_secs = (case rc_interval_secs r of Some n \<Rightarrow> n | None \<Rightarrow> 3600),
            ro_initial_delay_secs = (case rc_initial_delay_secs r of Some n \<Rightarrow> n | None \<Rightarrow> 30),
            ro_legacy_id_margin = (case rc_legacy_id_margin r of Some n \<Rightarrow> n | None \<Rightarrow> 100000) \<rparr>)"

record sweep_report =
  sr_task_active :: nat
  sr_task_soft_deleted :: nat
  sr_task_legacy :: nat
  sr_task_orphan :: nat
  sr_agents_without_limit :: nat
  sr_crontab_result :: nat
  sr_js_result :: nat
  sr_errors :: nat

definition empty_report :: sweep_report where
  "empty_report =
     \<lparr> sr_task_active = 0, sr_task_soft_deleted = 0, sr_task_legacy = 0, sr_task_orphan = 0,
       sr_agents_without_limit = 0, sr_crontab_result = 0, sr_js_result = 0, sr_errors = 0 \<rparr>"

definition report_total :: "sweep_report \<Rightarrow> nat" where
  "report_total r =
     sr_task_active r + sr_task_soft_deleted r + sr_task_legacy r + sr_task_orphan r
     + sr_crontab_result r + sr_js_result r"


section \<open>Limits\<close>

text \<open>Signed 64-bit numbers are integers in their range; \<open>i64_sub\<close> is \<^verbatim>\<open>saturating_sub\<close>.\<close>

definition i64_min :: int where
  "i64_min = - (2 ^ 63)"

definition i64_max :: int where
  "i64_max = 2 ^ 63 - 1"

definition i64_sub :: "int \<Rightarrow> int \<Rightarrow> int" where
  "i64_sub a b = max i64_min (min i64_max (a - b))"

text \<open>\<^verbatim>\<open>str::parse::<i64>\<close>: an optional sign, then digits; a value out of range is an error.\<close>

fun parse_digits :: "string \<Rightarrow> nat \<Rightarrow> nat option" where
  "parse_digits [] n = Some n"
| "parse_digits (c # cs) n =
     (if 48 \<le> byte_of c \<and> byte_of c \<le> 57 then parse_digits cs (10 * n + (byte_of c - 48)) else None)"

definition parse_i64 :: "string \<Rightarrow> int option" where
  "parse_i64 s =
     (let (neg, ds) = (case s of
            [] \<Rightarrow> (False, [])
          | c # cs \<Rightarrow> if c = CHR ''-'' then (True, cs) else if c = CHR ''+'' then (False, cs) else (False, s))
      in if ds = [] then None
         else
           (case parse_digits ds 0 of
              None \<Rightarrow> None
            | Some n \<Rightarrow>
                let v = (if neg then - int n else int n)
                in if i64_min \<le> v \<and> v \<le> i64_max then Some v else None))"

definition json_as_i64 :: "json_number \<Rightarrow> int option" where
  "json_as_i64 n =
     (case n of
        PosInt k \<Rightarrow> if int k \<le> i64_max then Some (int k) else None
      | NegInt k \<Rightarrow> Some k
      | FloatBits _ \<Rightarrow> None)"

definition parse_limit_ms :: "json \<Rightarrow> int option" where
  "parse_limit_ms v =
     (case (case v of
              JNumber n \<Rightarrow> json_as_i64 n
            | JString text \<Rightarrow> parse_i64 (trim text)
            | _ \<Rightarrow> None) of
        None \<Rightarrow> None
      | Some ms \<Rightarrow> if ms \<ge> 0 then Some ms else None)"

definition min_limit_ms :: "string \<Rightarrow> int" where
  "min_limit_ms table = (if table = ''task'' then MIN_TASK_LIMIT_MS else MIN_RESULT_LIMIT_MS)"

definition limit_keys :: "string list" where
  "limit_keys = map (\<lambda>table. LIMIT_KEY_PREFIX @ table) [''task'', ''crontab_result'', ''js_result'']"

type_synonym limits = "(string \<times> string, int) hash_map"

definition add_limit :: "kv_row \<Rightarrow> limits \<Rightarrow> limits" where
  "add_limit row ls =
     (case parse_limit_ms (r_value row) of
        None \<Rightarrow> ls
      | Some ms \<Rightarrow>
          if ms < min_limit_ms (drop (length LIMIT_KEY_PREFIX) (r_key row)) then ls
          else hm_insert (r_namespace row, r_key row) ms ls)"

definition load_limits :: "db_err option \<Rightarrow> kv_row list \<Rightarrow> db_err + limits" where
  "load_limits fault rows =
     (case fault of
        Some e \<Rightarrow> Inl e
      | None \<Rightarrow> Inr (fold add_limit (filter (\<lambda>r. r_key r \<in> set limit_keys) rows) []))"

definition limit_for :: "limits \<Rightarrow> string \<Rightarrow> string \<Rightarrow> int option" where
  "limit_for ls ns table = hm_get ls (ns, LIMIT_KEY_PREFIX @ table)"


section \<open>Removing rows in chunks\<close>

record 'r tab_env =
  tb_fault :: "nat \<Rightarrow> db_err option"
  tb_others :: "nat \<Rightarrow> 'r list \<Rightarrow> 'r list"

text \<open>\<open>tb_gone\<close> is history: the rows the sweeper has removed.\<close>

record 'r tab =
  tb_rows :: "'r list"
  tb_clock :: nat
  tb_gone :: "'r list"

definition tick :: "'r tab_env \<Rightarrow> 'r tab \<Rightarrow> 'r tab" where
  "tick T t = t\<lparr> tb_rows := tb_others T (tb_clock t) (tb_rows t), tb_clock := Suc (tb_clock t) \<rparr>"

definition past_cursor :: "int option \<Rightarrow> int \<Rightarrow> bool" where
  "past_cursor cursor n = (case cursor of None \<Rightarrow> True | Some c \<Rightarrow> c < n)"

definition select_ids ::
  "'r tab_env \<Rightarrow> ('r \<Rightarrow> int) \<Rightarrow> ('r \<Rightarrow> bool) \<Rightarrow> int option \<Rightarrow> 'r tab \<Rightarrow> (db_err + int list) \<times> 'r tab" where
  "select_ids T pk P cursor t =
     (let t' = tick T t
      in (case tb_fault T (tb_clock t) of
            Some e \<Rightarrow> Inl e
          | None \<Rightarrow> Inr (take CHUNK_SIZE (sort (map pk (filter (\<lambda>r. P r \<and> past_cursor cursor (pk r)) (tb_rows t'))))), t'))"

definition delete_ids ::
  "'r tab_env \<Rightarrow> ('r \<Rightarrow> int) \<Rightarrow> int list \<Rightarrow> 'r tab \<Rightarrow> (db_err + unit) \<times> 'r tab" where
  "delete_ids T pk ids t =
     (let t' = tick T t
      in case tb_fault T (tb_clock t) of
           Some e \<Rightarrow> (Inl e, t')
         | None \<Rightarrow>
             (Inr (), t'\<lparr> tb_rows := filter (\<lambda>r. pk r \<notin> set ids) (tb_rows t'),
                         tb_gone := tb_gone t' @ filter (\<lambda>r. pk r \<in> set ids) (tb_rows t') \<rparr>))"

primrec purge_loop ::
  "nat \<Rightarrow> 'r tab_env \<Rightarrow> ('r \<Rightarrow> int) \<Rightarrow> ('r \<Rightarrow> bool) \<Rightarrow> bool \<Rightarrow> int option \<Rightarrow> nat \<Rightarrow> 'r tab
     \<Rightarrow> (db_err + nat) \<times> 'r tab" where
  "purge_loop 0 T pk P dry cursor total_rows t = (Inr total_rows, t)"
| "purge_loop (Suc n) T pk P dry cursor total_rows t =
     (case select_ids T pk P cursor t of
        (Inl e, t1) \<Rightarrow> (Inl e, t1)
      | (Inr ids, t1) \<Rightarrow>
          if ids = [] then (Inr total_rows, t1)
          else
            (case (if dry then (Inr (), t1) else delete_ids T pk ids t1) of
               (Inl e, t2) \<Rightarrow> (Inl e, t2)
             | (Inr _, t2) \<Rightarrow>
                 if length ids < CHUNK_SIZE then (Inr (total_rows + length ids), t2)
                 else purge_loop n T pk P dry (Some (last ids)) (total_rows + length ids) t2))"

definition purge ::
  "'r tab_env \<Rightarrow> ('r \<Rightarrow> int) \<Rightarrow> ('r \<Rightarrow> bool) \<Rightarrow> bool \<Rightarrow> 'r tab \<Rightarrow> (db_err + nat) \<times> 'r tab" where
  "purge T pk P dry t = purge_loop MAX_CHUNKS_PER_TARGET T pk P dry None 0 t"

definition purge_isolated ::
  "'r tab_env \<Rightarrow> ('r \<Rightarrow> int) \<Rightarrow> ('r \<Rightarrow> bool) \<Rightarrow> bool \<Rightarrow> sweep_report \<times> 'r tab \<Rightarrow> nat \<times> sweep_report \<times> 'r tab" where
  "purge_isolated T pk P dry s =
     (case s of (report, t) \<Rightarrow>
        (case purge T pk P dry t of
           (Inr n, t') \<Rightarrow> (n, report, t')
         | (Inl e, t') \<Rightarrow> (0, report\<lparr> sr_errors := Suc (sr_errors report) \<rparr>, t')))"


section \<open>One sweep\<close>

text \<open>The columns of the two result tables the sweeper reads.\<close>

record crontab_result_row =
  cr_id :: "64 word"
  cr_cron_id :: "64 word"
  cr_cron_name :: string
  cr_relative_id :: "64 word option"
  cr_run_time :: "64 word option"
  cr_success :: "bool option"
  cr_message :: "string option"

record js_result_row =
  jr_id :: "64 word"
  jr_js_worker_id :: "64 word"
  jr_js_worker_name :: string
  jr_run_type :: string
  jr_start_time :: "64 word option"
  jr_finish_time :: "64 word option"
  jr_param :: "json option"
  jr_result :: "json option"
  jr_error_message :: "string option"

text \<open>\<open>rt_highest\<close> is history: the highest task number the last sweep saw.\<close>

record retention_world =
  rt_kv :: "kv_row list"
  rt_agents :: "uuid_row list"
  rt_tasks :: "task_row tab"
  rt_crontab :: "crontab_result_row tab"
  rt_js :: "js_result_row tab"
  rt_highest :: "int option"

record retention_env =
  re_now :: int
  re_show_uuid :: "uuid \<Rightarrow> string"
  re_kv_fault :: "db_err option"
  re_agents_fault :: "db_err option"
  re_task :: "task_row tab_env"
  re_crontab :: "crontab_result_row tab_env"
  re_js :: "js_result_row tab_env"

definition older :: "64 word option \<Rightarrow> int \<Rightarrow> bool" where
  "older column bound = (case column of None \<Rightarrow> False | Some t \<Rightarrow> sint t < bound)"

definition task_pk :: "task_row \<Rightarrow> int" where
  "task_pk r = sint (tr_id r)"

text \<open>The limit of an agent: none if the agent is active and has neither its own nor a global one.\<close>

definition agent_bound :: "retention_env \<Rightarrow> limits \<Rightarrow> uuid_row \<Rightarrow> int option" where
  "agent_bound D ls a =
     (if u_soft_delete a then Some (i64_sub (re_now D) SOFT_DELETE_GRACE_MS)
      else
        (case (case limit_for ls (re_show_uuid D (u_uuid a)) ''task'' of
                 Some ms \<Rightarrow> Some ms
               | None \<Rightarrow> limit_for ls GLOBAL_NAMESPACE ''task'') of
           Some ms \<Rightarrow> Some (i64_sub (re_now D) ms)
         | None \<Rightarrow> None))"

definition of_agent :: "uuid_row \<Rightarrow> int \<Rightarrow> task_row \<Rightarrow> bool" where
  "of_agent a bound r \<longleftrightarrow> tr_uuid r = u_uuid a \<and> older (tr_created_at r) bound"

definition sweep_agent ::
  "retention_env \<Rightarrow> bool \<Rightarrow> limits \<Rightarrow> uuid_row \<Rightarrow> sweep_report \<times> task_row tab \<Rightarrow> sweep_report \<times> task_row tab" where
  "sweep_agent D dry ls a s =
     (case agent_bound D ls a of
        None \<Rightarrow> ((fst s)\<lparr> sr_agents_without_limit := Suc (sr_agents_without_limit (fst s)) \<rparr>, snd s)
      | Some bound \<Rightarrow>
          (case purge_isolated (re_task D) task_pk (of_agent a bound) dry s of
             (n, report, t) \<Rightarrow>
               (if u_soft_delete a then report\<lparr> sr_task_soft_deleted := sr_task_soft_deleted report + n \<rparr>
                else report\<lparr> sr_task_active := sr_task_active report + n \<rparr>, t)))"

definition max_task_id :: "retention_env \<Rightarrow> task_row tab \<Rightarrow> (db_err + int option) \<times> task_row tab" where
  "max_task_id D t =
     (let t' = tick (re_task D) t
      in (case tb_fault (re_task D) (tb_clock t) of
            Some e \<Rightarrow> Inl e
          | None \<Rightarrow> Inr (if tb_rows t' = [] then None else Some (Max (set (map task_pk (tb_rows t'))))), t'))"

definition legacy :: "int \<Rightarrow> int \<Rightarrow> task_row \<Rightarrow> bool" where
  "legacy highest margin r \<longleftrightarrow> tr_created_at r = None \<and> task_pk r \<le> i64_sub highest margin"

definition sweep_legacy ::
  "retention_env \<Rightarrow> bool \<Rightarrow> int \<Rightarrow> int option \<Rightarrow> sweep_report \<times> task_row tab \<Rightarrow> sweep_report \<times> task_row tab" where
  "sweep_legacy D dry margin highest s =
     (case highest of
        None \<Rightarrow> s
      | Some m \<Rightarrow>
          (case purge_isolated (re_task D) task_pk (legacy m margin) dry s of
             (n, report, t) \<Rightarrow> (report\<lparr> sr_task_legacy := n \<rparr>, t)))"

definition orphan :: "uuid_row list \<Rightarrow> int \<Rightarrow> task_row \<Rightarrow> bool" where
  "orphan agents bound r \<longleftrightarrow> older (tr_created_at r) bound \<and> tr_uuid r \<notin> set (map u_uuid agents)"

definition sweep_orphans ::
  "retention_env \<Rightarrow> bool \<Rightarrow> limits \<Rightarrow> uuid_row list \<Rightarrow> sweep_report \<times> task_row tab \<Rightarrow> sweep_report \<times> task_row tab" where
  "sweep_orphans D dry ls agents s =
     (case limit_for ls GLOBAL_NAMESPACE ''task'' of
        None \<Rightarrow> s
      | Some ms \<Rightarrow>
          if agents = [] then s
          else
            (case purge_isolated (re_task D) task_pk (orphan agents (i64_sub (re_now D) ms)) dry s of
               (n, report, t) \<Rightarrow> (report\<lparr> sr_task_orphan := n \<rparr>, t)))"

definition sweep_crontab ::
  "retention_env \<Rightarrow> bool \<Rightarrow> limits \<Rightarrow> sweep_report \<times> crontab_result_row tab \<Rightarrow> sweep_report \<times> crontab_result_row tab" where
  "sweep_crontab D dry ls s =
     (case limit_for ls GLOBAL_NAMESPACE ''crontab_result'' of
        None \<Rightarrow> s
      | Some ms \<Rightarrow>
          (case purge_isolated (re_crontab D) (\<lambda>r. sint (cr_id r))
                  (\<lambda>r. older (cr_run_time r) (i64_sub (re_now D) ms)) dry s of
             (n, report, t) \<Rightarrow> (report\<lparr> sr_crontab_result := n \<rparr>, t)))"

definition sweep_js ::
  "retention_env \<Rightarrow> bool \<Rightarrow> limits \<Rightarrow> sweep_report \<times> js_result_row tab \<Rightarrow> sweep_report \<times> js_result_row tab" where
  "sweep_js D dry ls s =
     (case limit_for ls GLOBAL_NAMESPACE ''js_result'' of
        None \<Rightarrow> s
      | Some ms \<Rightarrow>
          (case purge_isolated (re_js D) (\<lambda>r. sint (jr_id r))
                  (\<lambda>r. older (jr_start_time r) (i64_sub (re_now D) ms)) dry s of
             (n, report, t) \<Rightarrow> (report\<lparr> sr_js_result := n \<rparr>, t)))"

text \<open>Refreshing the statistics of the tables comes first; its failures are ignored and it changes no row.\<close>

definition sweep_once ::
  "retention_env \<Rightarrow> bool \<Rightarrow> int \<Rightarrow> retention_world \<Rightarrow> (db_err + sweep_report) \<times> retention_world" where
  "sweep_once D dry margin0 w =
     (let margin = max margin0 MIN_LEGACY_ID_MARGIN
      in case load_limits (re_kv_fault D) (rt_kv w) of
           Inl e \<Rightarrow> (Inl e, w)
         | Inr ls \<Rightarrow>
             (case re_agents_fault D of
                Some e \<Rightarrow> (Inl e, w)
              | None \<Rightarrow>
                  let agents = rt_agents w;
                      (report1, t1) = fold (sweep_agent D dry ls) agents (empty_report, rt_tasks w)
                  in case max_task_id D t1 of
                       (Inl e, t2) \<Rightarrow> (Inl e, w\<lparr> rt_tasks := t2 \<rparr>)
                     | (Inr highest, t2) \<Rightarrow>
                         let (report3, t3) = sweep_legacy D dry margin highest (report1, t2);
                             (report4, t4) = sweep_orphans D dry ls agents (report3, t3);
                             (report5, c5) = sweep_crontab D dry ls (report4, rt_crontab w);
                             (report6, j6) = sweep_js D dry ls (report5, rt_js w)
                         in (Inr report6, w\<lparr> rt_tasks := t4, rt_crontab := c5, rt_js := j6, rt_highest := highest \<rparr>)))"
end
