(* ===== verification/Retention_Props.thy ===== *)
theory Retention_Props
  imports Retention
begin

text \<open>
  The properties of the sweeper: whatever other requests do meanwhile and whichever
  queries fail, it removes only rows that are due, and a sweep whose queries succeed
  leaves none of them behind.
\<close>


section \<open>A chunked removal removes what its filter selects\<close>

text \<open>
  Other requests keep numbers distinct and do not change the columns the filter reads:
  a row of the same number has the same value.
\<close>

definition steady :: "'r tab_env \<Rightarrow> ('r \<Rightarrow> int) \<Rightarrow> ('r \<Rightarrow> 'k) \<Rightarrow> bool" where
  "steady T pk key \<longleftrightarrow>
     (\<forall>k rows. distinct (map pk rows) \<longrightarrow>
        distinct (map pk (tb_others T k rows))
      \<and> (\<forall>r\<in>set rows. \<forall>r'\<in>set (tb_others T k rows). pk r = pk r' \<longrightarrow> key r = key r'))"


definition removes :: "('r \<Rightarrow> int) \<Rightarrow> ('r \<Rightarrow> bool) \<Rightarrow> bool \<Rightarrow> 'r tab \<Rightarrow> 'r tab \<Rightarrow> bool" where
  "removes pk P dry t t' \<longleftrightarrow>
     (distinct (map pk (tb_rows t)) \<longrightarrow>
        distinct (map pk (tb_rows t'))
      \<and> (\<exists>rs. tb_gone t' = tb_gone t @ rs \<and> (\<forall>r\<in>set rs. P r) \<and> (dry \<longrightarrow> rs = [])))"

lemma removes_refl [simp]: "removes pk P dry t t"
  by (simp add: removes_def)










section \<open>Limits have a floor\<close>











section \<open>What a sweep may remove\<close>

text \<open>
  A task row is due at a bound: the one of its agent if the agent is registered,
  the global one if it is not.
\<close>

definition due_bound :: "retention_env \<Rightarrow> limits \<Rightarrow> uuid_row list \<Rightarrow> uuid \<Rightarrow> int option" where
  "due_bound D ls agents u =
     (case tbl_find (\<lambda>a. u_uuid a = u) agents of
        Some a \<Rightarrow> agent_bound D ls a
      | None \<Rightarrow>
          if agents = [] then None
          else map_option (i64_sub (re_now D)) (limit_for ls GLOBAL_NAMESPACE ''task''))"

definition due :: "retention_env \<Rightarrow> limits \<Rightarrow> uuid_row list \<Rightarrow> task_row \<Rightarrow> bool" where
  "due D ls agents r =
     (case due_bound D ls agents (tr_uuid r) of None \<Rightarrow> False | Some bound \<Rightarrow> older (tr_created_at r) bound)"

lemma of_agent_due:
  assumes "uuid_table_ok agents" and "a \<in> set agents" and "agent_bound D ls a = Some bound"
  shows "of_agent a bound r \<longleftrightarrow> tr_uuid r = u_uuid a \<and> due D ls agents r"
proof -
  have "tbl_find (\<lambda>x. u_uuid x = u_uuid a) agents = Some a"
    using tbl_find_unique [of "\<lambda>x. Some (u_uuid x)" agents a "u_uuid a"] assms by (simp add: uuid_table_ok_def)
  then show ?thesis using assms(3) by (auto simp: of_agent_def due_def due_bound_def)
qed

lemma orphan_due:
  assumes "limit_for ls GLOBAL_NAMESPACE ''task'' = Some ms" and "agents \<noteq> []"
  shows "orphan agents (i64_sub (re_now D) ms) r \<longleftrightarrow> tr_uuid r \<notin> u_uuid ` set agents \<and> due D ls agents r"
proof (cases "tr_uuid r \<in> u_uuid ` set agents")
  case False
  then have "tbl_find (\<lambda>a. u_uuid a = tr_uuid r) agents = None"
    unfolding tbl_find_None by (metis imageI)
  then show ?thesis using assms False by (auto simp: orphan_def due_def due_bound_def)
qed (auto simp: orphan_def)












section \<open>Properties\<close>

definition nothing_gone :: "retention_world \<Rightarrow> bool" where
  "nothing_gone w \<longleftrightarrow> tb_gone (rt_tasks w) = [] \<and> tb_gone (rt_crontab w) = [] \<and> tb_gone (rt_js w) = []"








section \<open>The chunks together are the filter\<close>

definition quiet :: "'r tab_env \<Rightarrow> bool" where
  "quiet T \<longleftrightarrow> (\<forall>k. tb_fault T k = None) \<and> (\<forall>k rows. tb_others T k rows = rows)"

lemma quiet_simps:
  assumes "quiet T"
  shows "select_ids T pk P cursor t =
      (Inr (take CHUNK_SIZE (sort (map pk (filter (\<lambda>r. P r \<and> past_cursor cursor (pk r)) (tb_rows t))))),
       t\<lparr> tb_clock := Suc (tb_clock t) \<rparr>)"
    and "delete_ids T pk ids t =
      (Inr (), t\<lparr> tb_rows := filter (\<lambda>r. pk r \<notin> set ids) (tb_rows t), tb_clock := Suc (tb_clock t),
                 tb_gone := tb_gone t @ filter (\<lambda>r. pk r \<in> set ids) (tb_rows t) \<rparr>)"
  using assms by (simp_all add: quiet_def select_ids_def delete_ids_def tick_def Let_def)

lemma sorted_drop:
  fixes xs :: "int list"
  assumes "sorted xs" "distinct xs" "0 < k" "xs \<noteq> []"
  shows "{x \<in> set xs. last (take k xs) < x} = set (drop k xs)"
proof -
  have ne: "take k xs \<noteq> []" using assms by simp
  have s: "sorted (take k xs @ drop k xs)" and d: "distinct (take k xs @ drop k xs)" using assms by simp_all
  have "last (take k xs) < x" if "x \<in> set (drop k xs)" for x
    using s d that last_in_set [OF ne] unfolding sorted_append distinct_append by (metis disjoint_iff order_le_less)
  moreover have "x \<le> last (take k xs)" if x: "x \<in> set (take k xs)" for x
  proof -
    have "sorted (butlast (take k xs) @ [last (take k xs)])" using s ne by (simp add: sorted_append)
    moreover have "x \<in> set (butlast (take k xs) @ [last (take k xs)])" using x ne by simp
    ultimately show ?thesis by (auto simp: sorted_append)
  qed
  moreover have "set xs = set (take k xs) \<union> set (drop k xs)" by (metis append_take_drop_id set_append)
  ultimately show ?thesis using leD by blast
qed

lemma sort_distinct_eq:
  fixes xs ys :: "int list"
  assumes "distinct xs" "sorted ys" "distinct ys" "set xs = set ys"
  shows "sort xs = ys"
  using assms by (metis distinct_sort set_sort sorted_distinct_set_unique sorted_sort)

text \<open>One chunk: what it selects next is what was left.\<close>

lemma next_chunk:
  assumes d: "distinct (map pk rows)" and rest: "rest = sort (map pk (filter (\<lambda>r. P r \<and> past_cursor cursor (pk r)) rows))"
    and "rest \<noteq> []" "0 < k" and rows': "rows' = rows \<or> rows' = filter (\<lambda>r. pk r \<notin> set (take k rest)) rows"
  shows "sort (map pk (filter (\<lambda>r. P r \<and> past_cursor (Some (last (take k rest))) (pk r)) rows')) = drop k rest"
proof (rule sort_distinct_eq)
  have sd: "sorted rest" "distinct rest" using d by (simp_all add: rest distinct_map_filter)
  then show "sorted (drop k rest)" "distinct (drop k rest)" by (simp_all add: sorted_wrt_drop)
  have d': "distinct (map pk rows')" using rows' d by (auto simp: distinct_map_filter)
  then show "distinct (map pk (filter (\<lambda>r. P r \<and> past_cursor (Some (last (take k rest))) (pk r)) rows'))"
    by (simp add: distinct_map_filter)
  have set_rest: "set rest = pk ` {r \<in> set rows. P r \<and> past_cursor cursor (pk r)}" by (auto simp: rest)
  have "last (take k rest) \<in> set rest" using assms(3,4) by (metis in_set_takeD last_in_set take_eq_Nil not_gr0)
  then have up: "past_cursor cursor n" if "last (take k rest) < n" for n
    using that unfolding set_rest by (auto simp: past_cursor_def split: option.splits)
  have big: "n \<notin> set (take k rest)" if "last (take k rest) < n" for n
    using sorted_drop [OF sd assms(4,3)] that sd(2)
    by (metis (mono_tags, lifting) append_take_drop_id disjoint_iff distinct_append in_set_takeD mem_Collect_eq)
  have "pk ` {r \<in> set rows'. P r \<and> last (take k rest) < pk r} = {n \<in> set rest. last (take k rest) < n}"
    using rows' up big unfolding set_rest by auto
  then show "set (map pk (filter (\<lambda>r. P r \<and> past_cursor (Some (last (take k rest))) (pk r)) rows')) = set (drop k rest)"
    using sorted_drop [OF sd assms(4,3)] by (simp add: past_cursor_def)
qed

lemma pk_image:
  assumes "distinct (map pk rows)" and "r \<in> set rows"
  shows "pk r \<in> pk ` {x \<in> set rows. Q x} \<longleftrightarrow> Q r"
  using assms by (auto simp: distinct_map inj_on_def)

lemma filter_pk:
  assumes "distinct (map pk rows)"
  shows "filter (\<lambda>r. pk r \<notin> pk ` {x \<in> set rows. Q x}) rows = filter (\<lambda>r. \<not> Q r) rows"
  by (rule filter_cong [OF refl]) (simp only: pk_image [OF assms])

lemma filter_chunk:
  assumes d: "distinct (map pk rows)" and rest: "rest = sort (map pk (filter (\<lambda>r. P r \<and> past_cursor cursor (pk r)) rows))"
    and "rest \<noteq> []" "0 < k"
  shows "filter (\<lambda>r. pk r \<notin> set (take k rest) \<and> \<not> (P r \<and> past_cursor (Some (last (take k rest))) (pk r))) rows
       = filter (\<lambda>r. \<not> (P r \<and> past_cursor cursor (pk r))) rows"
proof (rule filter_cong [OF refl])
  fix r assume r: "r \<in> set rows"
  let ?l = "last (take k rest)"
  have sd: "sorted rest" "distinct rest" using d by (simp_all add: rest distinct_map_filter)
  have set_rest: "set rest = pk ` {r \<in> set rows. P r \<and> past_cursor cursor (pk r)}" by (auto simp: rest)
  then have mem: "pk r \<in> set rest \<longleftrightarrow> P r \<and> past_cursor cursor (pk r)" using pk_image [OF d r] by simp
  have split: "set rest = set (take k rest) \<union> set (drop k rest)" by (metis append_take_drop_id set_append)
  have "?l \<in> set rest" using assms(3,4) by (metis in_set_takeD last_in_set take_eq_Nil not_gr0)
  then have "past_cursor cursor (pk r)" if "?l < pk r"
    using that unfolding set_rest by (auto simp: past_cursor_def split: option.splits)
  then show "(pk r \<notin> set (take k rest) \<and> \<not> (P r \<and> past_cursor (Some ?l) (pk r))) \<longleftrightarrow> \<not> (P r \<and> past_cursor cursor (pk r))"
    using mem split sorted_drop [OF sd assms(4,3)] by (auto simp: past_cursor_def)
qed

lemma purge_loop_step:
  assumes "select_ids T pk P cursor t = (Inr ids, t1)" and "ids \<noteq> []"
    and "(if dry then (Inr (), t1) else delete_ids T pk ids t1) = (Inr (), t2)"
  shows "purge_loop (Suc n) T pk P dry cursor k t =
    (if length ids < CHUNK_SIZE then (Inr (k + length ids), t2)
     else purge_loop n T pk P dry (Some (last ids)) (k + length ids) t2)"
  using assms by simp

lemma purge_loop_exact:
  assumes "quiet T" and "distinct (map pk (tb_rows t))"
    and "rest = sort (map pk (filter (\<lambda>r. P r \<and> past_cursor cursor (pk r)) (tb_rows t)))" and "length rest \<le> n * CHUNK_SIZE"
  shows "\<exists>t'. purge_loop n T pk P dry cursor k t = (Inr (k + length rest), t')
    \<and> tb_rows t' = (if dry then tb_rows t else filter (\<lambda>r. \<not> (P r \<and> past_cursor cursor (pk r))) (tb_rows t))"
  using assms(2-4)
proof (induction n arbitrary: cursor k t rest)
  case 0
  then have "filter (\<lambda>r. P r \<and> past_cursor cursor (pk r)) (tb_rows t) = []" by simp
  then have "filter (\<lambda>r. \<not> (P r \<and> past_cursor cursor (pk r))) (tb_rows t) = tb_rows t"
    by (simp add: filter_empty_conv filter_id_conv)
  then show ?case using 0 by simp
next
  case (Suc n)
  let ?Q = "\<lambda>r. P r \<and> past_cursor cursor (pk r)" and ?ids = "take CHUNK_SIZE rest"
  have pos: "0 < CHUNK_SIZE" by (simp add: CHUNK_SIZE_def)
  have sel: "select_ids T pk P cursor t = (Inr ?ids, t\<lparr> tb_clock := Suc (tb_clock t) \<rparr>)" (is "_ = (_, ?t1)")
    using Suc.prems(2) by (simp add: quiet_simps [OF assms(1)])
  define t2 where "t2 = (if dry then ?t1 else snd (delete_ids T pk ?ids ?t1))"
  have del: "(if dry then (Inr (), ?t1) else delete_ids T pk ?ids ?t1) = (Inr (), t2)"
    by (simp add: t2_def quiet_simps [OF assms(1)])
  have rows2: "tb_rows t2 = (if dry then tb_rows t else filter (\<lambda>r. pk r \<notin> set ?ids) (tb_rows t))"
    by (simp add: t2_def quiet_simps [OF assms(1)])
  have set_rest: "set rest = pk ` {r \<in> set (tb_rows t). ?Q r}" using Suc.prems(2) by auto
  consider "rest = []" | "rest \<noteq> []" "length ?ids < CHUNK_SIZE" | "rest \<noteq> []" "length ?ids = CHUNK_SIZE" by force
  then show ?case
  proof cases
    case 1
    then have "filter ?Q (tb_rows t) = []" using Suc.prems(2) by (metis length_0_conv length_map length_sort)
    then have "filter (\<lambda>r. \<not> ?Q r) (tb_rows t) = tb_rows t" by (simp add: filter_empty_conv filter_id_conv)
    then show ?thesis using 1 sel by simp
  next
    case 2
    then have all: "?ids = rest" by simp
    then have "tb_rows t2 = (if dry then tb_rows t else filter (\<lambda>r. \<not> ?Q r) (tb_rows t))"
      using rows2 set_rest filter_pk [OF Suc.prems(1), of ?Q] by simp
    then show ?thesis using purge_loop_step [OF sel _ del, of n k] 2 pos all by simp
  next
    case 3
    let ?c = "Some (last ?ids)"
    have "purge_loop (Suc n) T pk P dry cursor k t = purge_loop n T pk P dry ?c (k + length ?ids) t2"
      using purge_loop_step [OF sel _ del, of n k] 3 pos by simp
    moreover have rest': "drop CHUNK_SIZE rest = sort (map pk (filter (\<lambda>r. P r \<and> past_cursor ?c (pk r)) (tb_rows t2)))"
      using next_chunk [OF Suc.prems(1,2) 3(1) pos, of "tb_rows t2"] rows2 by simp
    moreover have d2: "distinct (map pk (tb_rows t2))" using Suc.prems(1) by (simp add: rows2 distinct_map_filter)
    moreover have len: "length (drop CHUNK_SIZE rest) \<le> n * CHUNK_SIZE" using Suc.prems(3) by simp
    ultimately obtain t' where run: "purge_loop (Suc n) T pk P dry cursor k t = (Inr (k + length ?ids + length (drop CHUNK_SIZE rest)), t')"
      and t': "tb_rows t' = (if dry then tb_rows t2 else filter (\<lambda>r. \<not> (P r \<and> past_cursor ?c (pk r))) (tb_rows t2))"
      using Suc.IH [OF d2 rest' len, of "k + length ?ids"] by auto
    have "k + length ?ids + length (drop CHUNK_SIZE rest) = k + length rest" using 3(2) by simp
    moreover note filter_chunk [OF Suc.prems(1,2) 3(1) pos]
    ultimately show ?thesis using run t' rows2 by (simp add: conj_commute)
  qed
qed

lemma purge_exact:
  assumes "quiet T" and "distinct (map pk (tb_rows t))" and "length (filter P (tb_rows t)) \<le> 1000000"
  shows "\<exists>t'. purge T pk P dry t = (Inr (length (filter P (tb_rows t))), t')
    \<and> tb_rows t' = (if dry then tb_rows t else filter (\<lambda>r. \<not> P r) (tb_rows t))"
  using purge_loop_exact [OF assms(1,2) refl, of P None MAX_CHUNKS_PER_TARGET dry 0] assms(3)
  by (cases dry) (simp_all add: purge_def past_cursor_def MAX_CHUNKS_PER_TARGET_def CHUNK_SIZE_def)

definition kept_rows :: "bool \<Rightarrow> ('r \<Rightarrow> bool) \<Rightarrow> 'r list \<Rightarrow> 'r list" where
  "kept_rows dry P rows = (if dry then rows else filter (\<lambda>r. \<not> P r) rows)"

lemma kept_rows_small [simp]:
  "distinct (map pk rows) \<Longrightarrow> distinct (map pk (kept_rows dry P rows))"
  "length rows \<le> n \<Longrightarrow> length (kept_rows dry P rows) \<le> n"
  by (auto simp: kept_rows_def distinct_map_filter intro: le_trans [OF length_filter_le])

lemma purge_isolated_exact:
  assumes "quiet T" and "distinct (map pk (tb_rows t))" and "length (tb_rows t) \<le> 1000000"
  shows "\<exists>t'. purge_isolated T pk P dry (report, t) = (length (filter P (tb_rows t)), report, t')
    \<and> tb_rows t' = kept_rows dry P (tb_rows t)"
proof -
  have "length (filter P (tb_rows t)) \<le> 1000000" using assms(3) length_filter_le [of P "tb_rows t"] by linarith
  from purge_exact [OF assms(1,2) this, of dry] show ?thesis
    by (auto simp: purge_isolated_def kept_rows_def)
qed

definition small_table :: "task_row tab \<Rightarrow> bool" where
  "small_table t \<longleftrightarrow> distinct (map task_pk (tb_rows t)) \<and> length (tb_rows t) \<le> 1000000"

lemma sweep_agent_exact:
  assumes "quiet (re_task D)" and "small_table t" and "uuid_table_ok agents" and "a \<in> set agents"
  shows "\<exists>report' t'. sweep_agent D dry ls a (report, t) = (report', t') \<and> sr_errors report' = sr_errors report
    \<and> tb_rows t' = kept_rows dry (\<lambda>r. due D ls agents r \<and> tr_uuid r = u_uuid a) (tb_rows t)"
proof (cases "agent_bound D ls a")
  case None
  have "tbl_find (\<lambda>x. u_uuid x = u_uuid a) agents = Some a"
    using tbl_find_unique [of "\<lambda>x. Some (u_uuid x)" agents a "u_uuid a"] assms(3,4) by (simp add: uuid_table_ok_def)
  then have "\<not> (due D ls agents r \<and> tr_uuid r = u_uuid a)" for r
    using None by (auto simp: due_def due_bound_def)
  then show ?thesis using None by (simp add: sweep_agent_def kept_rows_def)
next
  case (Some bound)
  obtain t' where "purge_isolated (re_task D) task_pk (of_agent a bound) dry (report, t) =
      (length (filter (of_agent a bound) (tb_rows t)), report, t')"
    and "tb_rows t' = kept_rows dry (of_agent a bound) (tb_rows t)"
    using purge_isolated_exact [OF assms(1)] assms(2) unfolding small_table_def by blast
  moreover have "of_agent a bound = (\<lambda>r. due D ls agents r \<and> tr_uuid r = u_uuid a)"
    by (rule ext) (simp add: of_agent_due [OF assms(3,4) Some] conj_commute)
  ultimately show ?thesis using Some by (simp add: sweep_agent_def)
qed

lemma sweep_agents_exact:
  assumes "quiet (re_task D)" and "small_table t" and "uuid_table_ok agents" and "set xs \<subseteq> set agents"
  shows "\<exists>report' t'. fold (sweep_agent D dry ls) xs (report, t) = (report', t') \<and> sr_errors report' = sr_errors report
    \<and> tb_rows t' = kept_rows dry (\<lambda>r. due D ls agents r \<and> tr_uuid r \<in> u_uuid ` set xs) (tb_rows t)"
  using assms(2,4)
proof (induction xs arbitrary: report t)
  case Nil
  then show ?case by (simp add: kept_rows_def)
next
  case (Cons a xs)
  then have a: "a \<in> set agents" and xs: "set xs \<subseteq> set agents" by simp_all
  obtain report1 t1 where s1: "sweep_agent D dry ls a (report, t) = (report1, t1)" "sr_errors report1 = sr_errors report"
    "tb_rows t1 = kept_rows dry (\<lambda>r. due D ls agents r \<and> tr_uuid r = u_uuid a) (tb_rows t)"
    using sweep_agent_exact [OF assms(1) Cons.prems(1) assms(3) a] by blast
  have "small_table t1" using Cons.prems(1) by (simp add: small_table_def s1(3))
  from Cons.IH [OF this xs, of report1] obtain report2 t2 where
    "fold (sweep_agent D dry ls) xs (report1, t1) = (report2, t2)" "sr_errors report2 = sr_errors report1"
    "tb_rows t2 = kept_rows dry (\<lambda>r. due D ls agents r \<and> tr_uuid r \<in> u_uuid ` set xs) (tb_rows t1)"
    by blast
  moreover have "kept_rows dry (\<lambda>r. due D ls agents r \<and> tr_uuid r \<in> u_uuid ` set xs) (tb_rows t1)
      = kept_rows dry (\<lambda>r. due D ls agents r \<and> tr_uuid r \<in> u_uuid ` set (a # xs)) (tb_rows t)"
    unfolding s1(3) kept_rows_def by (auto intro!: filter_cong)
  ultimately show ?case using s1 by simp
qed

lemma due_known:
  assumes "due D ls agents r"
  shows "tr_uuid r \<in> u_uuid ` set agents
    \<or> agents \<noteq> [] \<and> (\<exists>ms. limit_for ls GLOBAL_NAMESPACE ''task'' = Some ms)"
  using assms
  by (auto simp: due_def due_bound_def split: option.splits if_splits dest!: tbl_find_Some) (metis imageI)

lemma sweep_orphans_exact:
  assumes "quiet (re_task D)" and "small_table t"
  shows "\<exists>report' t'. sweep_orphans D dry ls agents (report, t) = (report', t') \<and> sr_errors report' = sr_errors report
    \<and> tb_rows t' = kept_rows dry (\<lambda>r. due D ls agents r \<and> tr_uuid r \<notin> u_uuid ` set agents) (tb_rows t)"
proof (cases "agents \<noteq> [] \<and> (\<exists>ms. limit_for ls GLOBAL_NAMESPACE ''task'' = Some ms)")
  case True
  then obtain ms where ms: "limit_for ls GLOBAL_NAMESPACE ''task'' = Some ms" "agents \<noteq> []" by blast
  have "orphan agents (i64_sub (re_now D) ms) = (\<lambda>r. due D ls agents r \<and> tr_uuid r \<notin> u_uuid ` set agents)"
    by (rule ext) (simp add: orphan_due [OF ms] conj_commute)
  then show ?thesis
    using purge_isolated_exact [OF assms(1), of task_pk t "orphan agents (i64_sub (re_now D) ms)" dry report] assms(2) ms
    by (auto simp: sweep_orphans_def small_table_def)
next
  case False
  then have "\<not> (due D ls agents r \<and> tr_uuid r \<notin> u_uuid ` set agents)" for r using due_known by blast
  then show ?thesis using False by (auto simp: sweep_orphans_def kept_rows_def split: option.splits)
qed

lemma sweep_legacy_exact:
  assumes "quiet (re_task D)" and "small_table t"
  shows "\<exists>report' t'. sweep_legacy D dry margin highest (report, t) = (report', t') \<and> sr_errors report' = sr_errors report
    \<and> tb_rows t' = kept_rows dry (\<lambda>r. \<exists>m. highest = Some m \<and> legacy m margin r) (tb_rows t)"
proof (cases highest)
  case (Some m)
  then show ?thesis
    using purge_isolated_exact [OF assms(1), of task_pk t "legacy m margin" dry report] assms(2)
    by (auto simp: sweep_legacy_def small_table_def)
qed (simp add: sweep_legacy_def kept_rows_def)

text \<open>The rows of a result table that pass the global limit.\<close>

definition result_due :: "retention_env \<Rightarrow> limits \<Rightarrow> string \<Rightarrow> ('r \<Rightarrow> 64 word option) \<Rightarrow> 'r \<Rightarrow> bool" where
  "result_due D ls table col r =
     (case limit_for ls GLOBAL_NAMESPACE table of
        None \<Rightarrow> False
      | Some ms \<Rightarrow> older (col r) (i64_sub (re_now D) ms))"

lemma sweep_crontab_exact:
  assumes "quiet (re_crontab D)" and "distinct (map (\<lambda>r. sint (cr_id r)) (tb_rows t))" and "length (tb_rows t) \<le> 1000000"
  shows "\<exists>report' t'. sweep_crontab D dry ls (report, t) = (report', t') \<and> sr_errors report' = sr_errors report
    \<and> tb_rows t' = kept_rows dry (result_due D ls ''crontab_result'' cr_run_time) (tb_rows t)"
proof (cases "limit_for ls GLOBAL_NAMESPACE ''crontab_result''")
  case (Some ms)
  then have eq: "result_due D ls ''crontab_result'' cr_run_time = (\<lambda>r. older (cr_run_time r) (i64_sub (re_now D) ms))"
    by (simp add: result_due_def fun_eq_iff)
  show ?thesis unfolding eq
    using purge_isolated_exact [OF assms, of "\<lambda>r. older (cr_run_time r) (i64_sub (re_now D) ms)" dry report] Some
    by (auto simp: sweep_crontab_def)
next
  case None
  then have eq: "result_due D ls ''crontab_result'' cr_run_time = (\<lambda>r. False)" by (simp add: result_due_def fun_eq_iff)
  show ?thesis unfolding eq using None by (simp add: sweep_crontab_def kept_rows_def)
qed

lemma sweep_js_exact:
  assumes "quiet (re_js D)" and "distinct (map (\<lambda>r. sint (jr_id r)) (tb_rows t))" and "length (tb_rows t) \<le> 1000000"
  shows "\<exists>report' t'. sweep_js D dry ls (report, t) = (report', t') \<and> sr_errors report' = sr_errors report
    \<and> tb_rows t' = kept_rows dry (result_due D ls ''js_result'' jr_start_time) (tb_rows t)"
proof (cases "limit_for ls GLOBAL_NAMESPACE ''js_result''")
  case (Some ms)
  then have eq: "result_due D ls ''js_result'' jr_start_time = (\<lambda>r. older (jr_start_time r) (i64_sub (re_now D) ms))"
    by (simp add: result_due_def fun_eq_iff)
  show ?thesis unfolding eq
    using purge_isolated_exact [OF assms, of "\<lambda>r. older (jr_start_time r) (i64_sub (re_now D) ms)" dry report] Some
    by (auto simp: sweep_js_def)
next
  case None
  then have eq: "result_due D ls ''js_result'' jr_start_time = (\<lambda>r. False)" by (simp add: result_due_def fun_eq_iff)
  show ?thesis unfolding eq using None by (simp add: sweep_js_def kept_rows_def)
qed

lemma max_task_quiet:
  assumes "quiet (re_task D)"
  shows "\<exists>highest t'. max_task_id D t = (Inr highest, t') \<and> tb_rows t' = tb_rows t
    \<and> highest = (if tb_rows t = [] then None else Some (Max (set (map task_pk (tb_rows t)))))"
  using assms by (simp add: max_task_id_def quiet_def tick_def Let_def)

text \<open>
  (C36) A sweep whose queries succeed, with nobody else writing and at most a million
  rows in each table, returns, and reports no error.  A dry run leaves every row.  A
  real run leaves exactly the rows that are not due: no task row past the limit of its
  agent, no row without creation time below the mark it took from the highest number,
  no result row past the global limit; and it keeps all others, in their order.
\<close>

theorem retention_sweep_complete:
  assumes "quiet (re_task D)" and "quiet (re_crontab D)" and "quiet (re_js D)" and "re_agents_fault D = None"
    and "load_limits (re_kv_fault D) (rt_kv w) = Inr ls" and "uuid_table_ok (rt_agents w)"
    and "distinct (map task_pk (tb_rows (rt_tasks w)))" and "length (tb_rows (rt_tasks w)) \<le> 1000000"
    and "distinct (map (\<lambda>r. sint (cr_id r)) (tb_rows (rt_crontab w)))" and "length (tb_rows (rt_crontab w)) \<le> 1000000"
    and "distinct (map (\<lambda>r. sint (jr_id r)) (tb_rows (rt_js w)))" and "length (tb_rows (rt_js w)) \<le> 1000000"
  shows "\<exists>report w'. sweep_once D dry margin w = (Inr report, w') \<and> sr_errors report = 0
    \<and> tb_rows (rt_tasks w') = kept_rows dry
        (\<lambda>r. due D ls (rt_agents w) r \<or> (\<exists>m. rt_highest w' = Some m \<and> legacy m (max margin 1000) r)) (tb_rows (rt_tasks w))
    \<and> tb_rows (rt_crontab w') = kept_rows dry (result_due D ls ''crontab_result'' cr_run_time) (tb_rows (rt_crontab w))
    \<and> tb_rows (rt_js w') = kept_rows dry (result_due D ls ''js_result'' jr_start_time) (tb_rows (rt_js w))"
proof -
  let ?agents = "rt_agents w" and ?margin = "max margin MIN_LEGACY_ID_MARGIN"
  let ?known = "\<lambda>r. due D ls ?agents r \<and> tr_uuid r \<in> u_uuid ` set ?agents"
  let ?other = "\<lambda>r. due D ls ?agents r \<and> tr_uuid r \<notin> u_uuid ` set ?agents"
  have small: "small_table (rt_tasks w)" using assms(7,8) by (simp add: small_table_def)
  obtain report1 t1 where 1: "fold (sweep_agent D dry ls) ?agents (empty_report, rt_tasks w) = (report1, t1)"
    "sr_errors report1 = 0" "tb_rows t1 = kept_rows dry ?known (tb_rows (rt_tasks w))"
    using sweep_agents_exact [OF assms(1) small assms(6) subset_refl, of dry ls empty_report]
    by (auto simp: empty_report_def)
  obtain highest t2 where 2: "max_task_id D t1 = (Inr highest, t2)" "tb_rows t2 = tb_rows t1"
    using max_task_quiet [OF assms(1), of t1] by blast
  let ?old = "\<lambda>r. \<exists>m. highest = Some m \<and> legacy m ?margin r"
  have "small_table t2" using small by (simp add: small_table_def 2(2) 1(3))
  then obtain report3 t3 where 3: "sweep_legacy D dry ?margin highest (report1, t2) = (report3, t3)"
    "sr_errors report3 = 0" "tb_rows t3 = kept_rows dry ?old (tb_rows t2)"
    using sweep_legacy_exact [OF assms(1), of t2 dry ?margin highest report1] 1(2) by auto
  have "small_table t3" using small by (simp add: small_table_def 3(3) 2(2) 1(3))
  then obtain report4 t4 where 4: "sweep_orphans D dry ls ?agents (report3, t3) = (report4, t4)"
    "sr_errors report4 = 0" "tb_rows t4 = kept_rows dry ?other (tb_rows t3)"
    using sweep_orphans_exact [OF assms(1), of t3 dry ls ?agents report3] 3(2) by auto
  obtain report5 c5 where 5: "sweep_crontab D dry ls (report4, rt_crontab w) = (report5, c5)" "sr_errors report5 = 0"
    "tb_rows c5 = kept_rows dry (result_due D ls ''crontab_result'' cr_run_time) (tb_rows (rt_crontab w))"
    using sweep_crontab_exact [OF assms(2,9,10), of dry ls report4] 4(2) by auto
  obtain report6 j6 where 6: "sweep_js D dry ls (report5, rt_js w) = (report6, j6)" "sr_errors report6 = 0"
    "tb_rows j6 = kept_rows dry (result_due D ls ''js_result'' jr_start_time) (tb_rows (rt_js w))"
    using sweep_js_exact [OF assms(3,11,12), of dry ls report5] 5(2) by auto
  have "kept_rows dry ?other (kept_rows dry ?old (kept_rows dry ?known xs))
      = kept_rows dry (\<lambda>r. due D ls ?agents r \<or> ?old r) xs" for xs
    unfolding kept_rows_def by (auto intro!: filter_cong)
  then have "tb_rows t4 = kept_rows dry (\<lambda>r. due D ls ?agents r \<or> ?old r) (tb_rows (rt_tasks w))"
    by (simp only: 4(3) 3(3) 2(2) 1(3))
  then show ?thesis using assms(4,5) 1 2 3 4 5 6
    by (simp add: sweep_once_def Let_def MIN_LEGACY_ID_MARGIN_def)
qed


section \<open>A concrete sweep\<close>

definition demo_tab_env :: "'r tab_env" where
  "demo_tab_env = \<lparr> tb_fault = (\<lambda>_. None), tb_others = (\<lambda>_ rows. rows) \<rparr>"

definition demo_retention_env :: retention_env where
  "demo_retention_env =
     \<lparr> re_now = 10000000, re_show_uuid = (\<lambda>_. ''agent''), re_kv_fault = None, re_agents_fault = None,
       re_task = demo_tab_env, re_crontab = demo_tab_env, re_js = demo_tab_env \<rparr>"

definition demo_task_row :: "64 word \<Rightarrow> 64 word \<Rightarrow> task_row" where
  "demo_task_row n t =
     \<lparr> tr_id = n, tr_uuid = 7, tr_token = [], tr_cron_source = None, tr_timestamp = None, tr_success = None,
       tr_error_message = None, tr_type = JNull, tr_result = None, tr_created_at = Some t \<rparr>"

text \<open>One agent with a limit of one million milliseconds, a row past it and a row within it.\<close>

definition demo_retention_world :: retention_world where
  "demo_retention_world =
     \<lparr> rt_kv = [\<lparr> r_id = 1, r_namespace = ''agent'', r_key = ''database_limit_task'',
                 r_value = JNumber (PosInt 1000000) \<rparr>],
       rt_agents = [\<lparr> u_id = 1, u_uuid = 7, u_soft_delete = False \<rparr>],
       rt_tasks = \<lparr> tb_rows = [demo_task_row 1 5, demo_task_row 2 9999999], tb_clock = 0, tb_gone = [] \<rparr>,
       rt_crontab = \<lparr> tb_rows = [], tb_clock = 0, tb_gone = [] \<rparr>,
       rt_js = \<lparr> tb_rows = [], tb_clock = 0, tb_gone = [] \<rparr>, rt_highest = None \<rparr>"

definition demo_limits :: limits where
  "demo_limits = [((''agent'', ''database_limit_task''), 1000000)]"

lemma demo_quiet: "steady demo_tab_env pk key" "quiet demo_tab_env"
  by (auto simp: steady_def quiet_def demo_tab_env_def distinct_map inj_on_def)

lemma demo_load_limits: "load_limits (re_kv_fault demo_retention_env) (rt_kv demo_retention_world) = Inr demo_limits"
  by (simp add: load_limits_def demo_retention_env_def demo_retention_world_def limit_keys_def LIMIT_KEY_PREFIX_def
      add_limit_def parse_limit_ms_def json_as_i64_def i64_max_def min_limit_ms_def MIN_TASK_LIMIT_MS_def
      demo_limits_def hm_insert_def)

lemma demo_retention_facts:
  "re_task demo_retention_env = demo_tab_env" "re_crontab demo_retention_env = demo_tab_env"
  "re_js demo_retention_env = demo_tab_env" "re_agents_fault demo_retention_env = None"
  "uuid_table_ok (rt_agents demo_retention_world)" "nothing_gone demo_retention_world"
  "rt_highest demo_retention_world = None"
  "distinct (map task_pk (tb_rows (rt_tasks demo_retention_world)))" "length (tb_rows (rt_tasks demo_retention_world)) \<le> 1000000"
  "tb_rows (rt_crontab demo_retention_world) = []" "tb_rows (rt_js demo_retention_world) = []"
  by (simp_all add: demo_retention_env_def demo_retention_world_def nothing_gone_def uuid_table_ok_def unique_on_Cons
      task_pk_def demo_task_row_def)

lemma demo_due:
  "due demo_retention_env demo_limits (rt_agents demo_retention_world) (demo_task_row 1 5)"
  "\<not> due demo_retention_env demo_limits (rt_agents demo_retention_world) (demo_task_row 2 9999999)"
  by (simp_all add: due_def due_bound_def demo_retention_env_def demo_retention_world_def agent_bound_def limit_for_def
      demo_limits_def LIMIT_KEY_PREFIX_def hm_get_def demo_task_row_def older_def i64_sub_def i64_min_def i64_max_def)


theorem retention_sweep_complete_witness:
  "\<exists>report w'. sweep_once demo_retention_env False 0 demo_retention_world = (Inr report, w') \<and> sr_errors report = 0
     \<and> tb_rows (rt_tasks w') = [demo_task_row 2 9999999]"
proof -
  have rows: "tb_rows (rt_tasks demo_retention_world) = [demo_task_row 1 5, demo_task_row 2 9999999]"
    by (simp add: demo_retention_world_def)
  have legacy: "\<not> legacy m k (demo_task_row n t)" for m k n t by (simp add: legacy_def demo_task_row_def)
  have "task_pk (demo_task_row 1 5) \<noteq> task_pk (demo_task_row 2 9999999)" by (simp add: task_pk_def demo_task_row_def)
  then show ?thesis
    using retention_sweep_complete [of demo_retention_env demo_retention_world demo_limits False 0]
    by (auto simp: demo_retention_facts demo_quiet demo_load_limits rows kept_rows_def demo_due legacy)
qed
end
