(* ===== verification/Static_Paths.thy ===== *)
theory Static_Paths
  imports Core
begin

text \<open>
  The path handling of \<^verbatim>\<open>ng-static/src/ops.rs\<close>: what
  \<^verbatim>\<open>std::path::Path\<close> promises on Unix for the operations the crate calls, the
  two validations, and \<^verbatim>\<open>resolve_safe_file_path\<close>.  A \<^verbatim>\<open>PathBuf\<close> is
  the list of its components, which is how \<^verbatim>\<open>Path\<close> compares, pops and tests
  prefixes; \<^verbatim>\<open>Component::Prefix\<close> does not occur on Unix.
\<close>


section \<open>Components\<close>

datatype component = RootDir | CurDir | ParentDir | Normal string

type_synonym path_buf = "component list"

fun split_on :: "char \<Rightarrow> string \<Rightarrow> string list" where
  "split_on c [] = [[]]"
| "split_on c (x # xs) =
     (if x = c then [] # split_on c xs
      else (case split_on c xs of [] \<Rightarrow> [[x]] | y # ys \<Rightarrow> (x # y) # ys))"

text \<open>An empty segment and a \<^verbatim>\<open>.\<close> that is not the first segment are dropped.\<close>

definition segment :: "string \<Rightarrow> component list" where
  "segment s = (if s = [] \<or> s = ''.'' then [] else if s = ''..'' then [ParentDir] else [Normal s])"

definition components :: "string \<Rightarrow> path_buf" where
  "components s =
     (if starts_with s ''/'' then RootDir # concat (map segment (split_on (CHR ''/'') s))
      else
        (case split_on (CHR ''/'') s of
           [] \<Rightarrow> []
         | x # xs \<Rightarrow> (if x = ''.'' then [CurDir] else segment x) @ concat (map segment xs)))"

text \<open>\<^verbatim>\<open>Path::join\<close> of two strings.\<close>

definition path_join :: "string \<Rightarrow> string \<Rightarrow> string" where
  "path_join s t =
     (if starts_with t ''/'' then t
      else if s = [] \<or> last s = CHR ''/'' then s @ t
      else s @ ''/'' @ t)"

text \<open>\<^verbatim>\<open>Path::parent\<close>, and \<^verbatim>\<open>PathBuf::pop\<close>, which fails where there is no parent.\<close>

definition path_parent :: "path_buf \<Rightarrow> path_buf option" where
  "path_parent p = (if p = [] \<or> last p = RootDir then None else Some (butlast p))"

definition path_starts_with :: "path_buf \<Rightarrow> path_buf \<Rightarrow> bool" where
  "path_starts_with p base \<longleftrightarrow> take (length base) p = base"

lemma path_starts_with_prefix [simp]: "path_starts_with p base \<longleftrightarrow> prefix base p"
  by (metis append_eq_conv_conj append_take_drop_id path_starts_with_def prefix_def)


section \<open>Validation\<close>

definition is_ascii_alphanumeric :: "char \<Rightarrow> bool" where
  "is_ascii_alphanumeric c =
     (let b = byte_of c in 48 \<le> b \<and> b \<le> 57 \<or> 65 \<le> b \<and> b \<le> 90 \<or> 97 \<le> b \<and> b \<le> 122)"

definition name_char :: "char \<Rightarrow> bool" where
  "name_char c \<longleftrightarrow> is_ascii_alphanumeric c \<or> c = CHR ''_'' \<or> c = CHR ''-'' \<or> c = CHR ''.''"

definition validate_name :: "string \<Rightarrow> unit any_result" where
  "validate_name name =
     (if name = [] then err (InvalidInput ''name cannot be empty'')
      else if length name > 128 then err (InvalidInput ''name too long (max 128 chars)'')
      else if \<not> list_all name_char name
      then err (InvalidInput ''name contains invalid characters (only [A-Za-z0-9_.-] are allowed)'')
      else if list_all (\<lambda>c. c = CHR ''.'') name
      then err (InvalidInput (''name cannot be '' @ [CHR 0x27] @ ''.'' @ [CHR 0x27] @ '' or ''
                 @ [CHR 0x27] @ ''..'' @ [CHR 0x27]))
      else Inr ())"

text \<open>The loop of \<^verbatim>\<open>validate_sub_path\<close>; the flag is \<^verbatim>\<open>has_component\<close>.\<close>

fun validate_components :: "component list \<Rightarrow> bool \<Rightarrow> unit any_result" where
  "validate_components [] has_component =
     (if has_component then Inr () else err (InvalidInput ''path has no valid component''))"
| "validate_components (Normal s # cs) has_component =
     rbind (validate_name s) (\<lambda>_. validate_components cs True)"
| "validate_components (CurDir # cs) has_component = validate_components cs has_component"
| "validate_components (ParentDir # cs) has_component =
     err (InvalidInput (''path cannot contain '' @ [CHR 0x27] @ ''..'' @ [CHR 0x27]))"
| "validate_components (RootDir # cs) has_component =
     err (InvalidInput (''path cannot be absolute (leading '' @ [CHR 0x27] @ ''/'' @ [CHR 0x27] @ '')''))"

definition validate_sub_path :: "string \<Rightarrow> unit any_result" where
  "validate_sub_path path =
     (if path = [] then err (InvalidInput ''path cannot be empty'')
      else if length path > 512 then err (InvalidInput ''path too long (max 512 chars)'')
      else if contains_char path (CHR 0x5C) then err (InvalidInput ''path cannot contain backslash'')
      else validate_components (components path) False)"


section \<open>Resolution\<close>

definition path_traversal :: "'a any_result" where
  "path_traversal = err (InvalidInput ''Invalid path: path traversal detected'')"

fun resolve_components :: "path_buf \<Rightarrow> component list \<Rightarrow> path_buf any_result" where
  "resolve_components resolved [] = Inr resolved"
| "resolve_components resolved (Normal c # cs) = resolve_components (resolved @ [Normal c]) cs"
| "resolve_components resolved (RootDir # cs) = resolve_components resolved cs"
| "resolve_components resolved (CurDir # cs) = resolve_components resolved cs"
| "resolve_components resolved (ParentDir # cs) =
     (case path_parent resolved of
        None \<Rightarrow> path_traversal
      | Some p \<Rightarrow> resolve_components p cs)"

definition bucket_dir :: "string \<Rightarrow> string \<Rightarrow> path_buf" where
  "bucket_dir static_path sub_path = components (path_join static_path sub_path)"

definition resolve_safe_file_path :: "string \<Rightarrow> string \<Rightarrow> string \<Rightarrow> path_buf any_result" where
  "resolve_safe_file_path static_path sub_path file_path =
     rbind (validate_sub_path sub_path) (\<lambda>_.
       let base = bucket_dir static_path sub_path
       in rbind (resolve_components base (components file_path)) (\<lambda>resolved.
            if path_starts_with resolved base then Inr resolved else path_traversal))"


section \<open>Facts\<close>

definition is_normal :: "component \<Rightarrow> bool" where
  "is_normal c = (case c of Normal _ \<Rightarrow> True | _ \<Rightarrow> False)"

lemma is_normal_simps [simp]:
  "is_normal (Normal s)" "\<not> is_normal RootDir" "\<not> is_normal CurDir" "\<not> is_normal ParentDir"
  by (simp_all add: is_normal_def)

lemma split_on_not_Nil [simp]: "split_on c s \<noteq> []"
  by (induction s) (auto split: list.splits)

text \<open>
  A segment between two separators contains none, so a \<open>Normal\<close> component is
  a single file name.
\<close>

lemma split_on_no_sep: "x \<in> set (split_on c s) \<Longrightarrow> c \<notin> set x"
proof (induction s arbitrary: x)
  case (Cons y s)
  then show ?case by (cases "split_on c s") (auto split: if_splits)
qed simp

definition file_name_ok :: "component \<Rightarrow> bool" where
  "file_name_ok c = (case c of Normal s \<Rightarrow> s \<noteq> [] \<and> s \<noteq> ''.'' \<and> s \<noteq> ''..'' \<and> CHR ''/'' \<notin> set s | _ \<Rightarrow> True)"

lemma segment_file_name_ok: "CHR ''/'' \<notin> set s \<Longrightarrow> c \<in> set (segment s) \<Longrightarrow> file_name_ok c"
  by (auto simp: segment_def file_name_ok_def split: if_splits)

lemma components_file_name_ok:
  assumes "c \<in> set (components s)"
  shows "file_name_ok c"
proof -
  have seg: "file_name_ok c" if "x \<in> set (split_on (CHR ''/'') s)" "c \<in> set (segment x)" for x
    by (rule segment_file_name_ok [OF split_on_no_sep [OF that(1)] that(2)])
  have others: "file_name_ok RootDir" "file_name_ok CurDir" by (simp_all add: file_name_ok_def)
  have "c = RootDir \<or> c = CurDir \<or> (\<exists>x\<in>set (split_on (CHR ''/'') s). c \<in> set (segment x))"
  proof (cases "split_on (CHR ''/'') s")
    case (Cons x xs)
    with assms show ?thesis by (auto simp: components_def split: if_splits)
  qed simp
  with seg others show ?thesis by blast
qed

text \<open>The resolution pushes nothing but the names of the requested path.\<close>

lemma resolve_components_shape:
  "resolve_components b cs = Inr r \<Longrightarrow>
     \<exists>p ns. r = p @ ns \<and> prefix p b \<and> (\<forall>n\<in>set ns. is_normal n \<and> n \<in> set cs)"
proof (induction b cs rule: resolve_components.induct)
  case (1 b)
  then show ?case by (intro exI [of _ b] exI [of _ "[]"]) simp
next
  case (2 b c cs)
  then obtain p ns where h: "r = p @ ns" "prefix p (b @ [Normal c])" "\<forall>n\<in>set ns. is_normal n \<and> n \<in> set cs"
    by auto
  show ?case
  proof (cases "p = b @ [Normal c]")
    case True
    with h show ?thesis by (intro exI [of _ b] exI [of _ "Normal c # ns"]) simp
  next
    case False
    with h have "prefix p b" by simp
    with h show ?thesis by auto
  qed
next
  case (5 b cs)
  then obtain q where q: "path_parent b = Some q" "resolve_components q cs = Inr r"
    by (auto simp: path_traversal_def split: option.splits)
  then have "prefix q b" by (auto simp: path_parent_def prefixeq_butlast split: if_splits)
  moreover from 5 (1) [OF q] obtain p ns
    where "r = p @ ns" "prefix p q" "\<forall>n\<in>set ns. is_normal n \<and> n \<in> set cs" by auto
  ultimately show ?case by (auto intro: prefix_order.trans)
qed auto

lemma validate_components_ok:
  "validate_components cs b = Inr () \<longleftrightarrow>
     (\<forall>c\<in>set cs. c = CurDir \<or> (\<exists>s. c = Normal s \<and> validate_name s = Inr ())) \<and>
     (b \<or> (\<exists>s. Normal s \<in> set cs))"
  by (induction cs b rule: validate_components.induct) (auto simp: result_simps)

lemma validate_sub_path_ok:
  "validate_sub_path path = Inr () \<longleftrightarrow>
     path \<noteq> [] \<and> length path \<le> 512 \<and> CHR 0x5C \<notin> set path \<and>
     (\<forall>c\<in>set (components path). c = CurDir \<or> (\<exists>s. c = Normal s \<and> validate_name s = Inr ())) \<and>
     (\<exists>s. Normal s \<in> set (components path))"
  by (auto simp: validate_sub_path_def validate_components_ok contains_char_iff)

end
