(* ===== verification/Static_Store.thy ===== *)
theory Static_Store
  imports Static_Paths Kv_Auth
begin

text \<open>
  The crate \<^verbatim>\<open>ng-static\<close> below its HTTP routes: the table \<^verbatim>\<open>static_file\<close>
  of buckets and its cache (\<^verbatim>\<open>cache.rs\<close>), the operations on buckets and on
  the files in them (\<^verbatim>\<open>ops.rs\<close>), the permission checks (\<^verbatim>\<open>auth.rs\<close>)
  and the RPC handlers.  The file system is a map from paths to contents and a list of
  directories; every call to it may fail.
\<close>


section \<open>The file system\<close>

record disk =
  dk_files :: "(path_buf, byte list) hash_map"
  dk_dirs :: "path_buf list"

datatype io_kind = IoNotFound | IoOther

datatype os_call =
    OsCreateDir path_buf | OsWrite path_buf | OsMetadata path_buf | OsRead path_buf
  | OsRemoveFile path_buf | OsRename path_buf path_buf | OsRemoveDir path_buf
  | OsReadDir path_buf | OsEntry path_buf | OsSymlinkMetadata path_buf

text \<open>
  \<open>os_fault\<close> is a failure that does not come from the state of the disk;
  \<open>os_text\<close> prints an error and \<open>os_display\<close> a path; \<open>os_torn\<close> is
  what a failing \<^verbatim>\<open>write\<close> leaves in the file, if it got as far as opening it;
  \<open>os_lost\<close> tells which files a failing \<^verbatim>\<open>remove_dir_all\<close> has removed before
  it failed; \<open>os_dir_len\<close> is the size the system reports for a directory;
  \<open>os_modified\<close> the modification time in milliseconds, where the file system has one.
\<close>

record os_env =
  os_fault :: "os_call \<Rightarrow> io_kind option"
  os_text :: "os_call \<Rightarrow> io_kind \<Rightarrow> string"
  os_display :: "path_buf \<Rightarrow> string"
  os_torn :: "path_buf \<Rightarrow> byte list option"
  os_lost :: "path_buf \<Rightarrow> bool"
  os_dir_len :: "path_buf \<Rightarrow> nat"
  os_modified :: "path_buf \<Rightarrow> int option"

type_synonym 'a io_result = "io_kind + 'a"

definition is_dir :: "disk \<Rightarrow> path_buf \<Rightarrow> bool" where
  "is_dir d p \<longleftrightarrow> list_all (\<lambda>c. \<not> is_normal c) p \<or> List.member (dk_dirs d) p"

definition is_file :: "disk \<Rightarrow> path_buf \<Rightarrow> bool" where
  "is_file d p \<longleftrightarrow> hm_get (dk_files d) p \<noteq> None"

definition os_call_fails :: "os_env \<Rightarrow> os_call \<Rightarrow> 'a io_result \<Rightarrow> 'a io_result" where
  "os_call_fails E c r = (case os_fault E c of Some k \<Rightarrow> Inl k | None \<Rightarrow> r)"

definition fs_create_dir_all :: "os_env \<Rightarrow> path_buf \<Rightarrow> disk \<Rightarrow> disk io_result" where
  "fs_create_dir_all E p d =
     os_call_fails E (OsCreateDir p)
       (if list_ex (is_file d) (prefixes p) then Inl IoOther
        else Inr (d\<lparr> dk_dirs := dk_dirs d @ filter (\<lambda>q. \<not> is_dir d q) (prefixes p) \<rparr>))"

definition fs_write :: "os_env \<Rightarrow> path_buf \<Rightarrow> byte list \<Rightarrow> disk \<Rightarrow> unit io_result \<times> disk" where
  "fs_write E p data d =
     (if is_dir d p then (Inl IoOther, d)
      else if \<not> is_dir d (butlast p) then (Inl IoNotFound, d)
      else
        (case os_fault E (OsWrite p) of
           Some k \<Rightarrow>
             (Inl k,
              (case os_torn E p of
                 None \<Rightarrow> d
               | Some torn \<Rightarrow> d\<lparr> dk_files := hm_insert p torn (dk_files d) \<rparr>))
         | None \<Rightarrow> (Inr (), d\<lparr> dk_files := hm_insert p data (dk_files d) \<rparr>)))"

definition fs_metadata :: "os_env \<Rightarrow> path_buf \<Rightarrow> disk \<Rightarrow> nat io_result" where
  "fs_metadata E p d =
     os_call_fails E (OsMetadata p)
       (case hm_get (dk_files d) p of
          Some data \<Rightarrow> Inr (length data)
        | None \<Rightarrow> if is_dir d p then Inr (os_dir_len E p) else Inl IoNotFound)"

definition fs_read :: "os_env \<Rightarrow> path_buf \<Rightarrow> disk \<Rightarrow> byte list io_result" where
  "fs_read E p d =
     os_call_fails E (OsRead p)
       (case hm_get (dk_files d) p of
          Some data \<Rightarrow> Inr data
        | None \<Rightarrow> if is_dir d p then Inl IoOther else Inl IoNotFound)"

definition fs_remove_file :: "os_env \<Rightarrow> path_buf \<Rightarrow> disk \<Rightarrow> disk io_result" where
  "fs_remove_file E p d =
     os_call_fails E (OsRemoveFile p)
       (if is_file d p then Inr (d\<lparr> dk_files := hm_remove p (dk_files d) \<rparr>)
        else if is_dir d p then Inl IoOther else Inl IoNotFound)"

text \<open>
  \<^verbatim>\<open>rename(2)\<close>: a file replaces a file; a directory moves with all that is
  below it, onto nothing or onto an empty directory, and never into itself.
\<close>

definition moved :: "path_buf \<Rightarrow> path_buf \<Rightarrow> path_buf \<Rightarrow> path_buf" where
  "moved a b p = (if prefix a p then b @ drop (length a) p else p)"

definition below_any :: "disk \<Rightarrow> path_buf \<Rightarrow> bool" where
  "below_any d b \<longleftrightarrow> list_ex (strict_prefix b) (map fst (dk_files d) @ dk_dirs d)"

definition fs_rename :: "os_env \<Rightarrow> path_buf \<Rightarrow> path_buf \<Rightarrow> disk \<Rightarrow> disk io_result" where
  "fs_rename E a b d =
     os_call_fails E (OsRename a b)
       (case hm_get (dk_files d) a of
          Some data \<Rightarrow>
            if is_dir d b then Inl IoOther
            else if \<not> is_dir d (butlast b) then Inl IoNotFound
            else Inr (d\<lparr> dk_files := hm_insert b data (hm_remove a (dk_files d)) \<rparr>)
        | None \<Rightarrow>
            if \<not> is_dir d a then Inl IoNotFound
            else if is_file d b \<or> strict_prefix a b \<or> below_any d b \<or> list_all (\<lambda>c. \<not> is_normal c) a
            then Inl IoOther
            else if \<not> is_dir d (butlast b) then Inl IoNotFound
            else Inr (d\<lparr> dk_files := map (\<lambda>(p, data). (moved a b p, data)) (dk_files d),
                         dk_dirs := map (moved a b) (filter (\<lambda>p. p \<noteq> b) (dk_dirs d)) \<rparr>))"

definition fs_exists :: "os_env \<Rightarrow> path_buf \<Rightarrow> disk \<Rightarrow> bool" where
  "fs_exists E p d = is_ok (fs_metadata E p d)"

text \<open>\<^verbatim>\<open>remove_dir_all\<close> also changes the disk when it fails.\<close>

definition fs_remove_dir_all :: "os_env \<Rightarrow> path_buf \<Rightarrow> disk \<Rightarrow> unit io_result \<times> disk" where
  "fs_remove_dir_all E p d =
     (case os_fault E (OsRemoveDir p) of
        Some k \<Rightarrow>
          (Inl k, d\<lparr> dk_files := filter (\<lambda>(q, _). \<not> (strict_prefix p q \<and> os_lost E q)) (dk_files d) \<rparr>)
      | None \<Rightarrow>
          if is_dir d p
          then (Inr (), d\<lparr> dk_files := filter (\<lambda>(q, _). \<not> prefix p q) (dk_files d),
                           dk_dirs := filter (\<lambda>q. \<not> prefix p q) (dk_dirs d) \<rparr>)
          else (Inl (if is_file d p then IoOther else IoNotFound), d))"

text \<open>The entries of a directory; the order is the one of the listing.\<close>

definition fs_read_dir :: "os_env \<Rightarrow> path_buf \<Rightarrow> disk \<Rightarrow> path_buf list io_result" where
  "fs_read_dir E p d =
     os_call_fails E (OsReadDir p)
       (if is_dir d p
        then Inr (filter (\<lambda>q. length q = Suc (length p) \<and> prefix p q) (map fst (dk_files d) @ dk_dirs d))
        else if is_file d p then Inl IoOther else Inl IoNotFound)"


section \<open>Buckets and their cache\<close>

record static_row =
  st_id :: "64 word"
  st_name :: string
  st_path :: string
  st_is_http_root :: bool
  st_cors :: bool
  st_enable :: bool

record static_cache =
  sc_by_name :: "(string, static_row) hash_map"
  sc_http_root_name :: "string option"

text \<open>
  \<open>sw_config\<close> is the global configuration and its \<^verbatim>\<open>static_path\<close>;
  \<open>sw_static_path\<close> the value kept by \<^verbatim>\<open>get_static_path\<close>, empty before the
  first call; \<open>sw_dav\<close> the disk path each cached WebDAV handler is bound to.
\<close>

record static_world =
  sw_ready :: bool
  sw_rows :: "static_row list"
  sw_cache :: "static_cache option"
  sw_config :: "string option option"
  sw_static_path :: string
  sw_disk :: disk
  sw_dav :: "(string, path_buf) hash_map"

datatype static_site =
    LoadStatics | FindStatic | FindHttpRoot | InsertStatic | UpdateStatic | DeleteStatic

text \<open>
  \<open>se_utf8\<close> tells whether bytes are valid UTF-8; the Base64 codec is the crate
  \<^verbatim>\<open>base64\<close>.
\<close>

record static_env =
  se_checker :: limit_checker
  se_fault :: "static_site \<Rightarrow> db_err option"
  se_display :: "db_err \<Rightarrow> string"
  se_new_id :: "64 word"
  se_os :: os_env
  se_decode :: "string \<Rightarrow> string + byte list"
  se_encode :: "byte list \<Rightarrow> string"
  se_utf8 :: "byte list \<Rightarrow> bool"
  se_show :: "nat \<Rightarrow> string"

definition add_static :: "static_row \<Rightarrow> static_cache \<Rightarrow> static_cache" where
  "add_static m c =
     \<lparr> sc_by_name = hm_insert (st_name m) m (sc_by_name c),
       sc_http_root_name =
         (if st_is_http_root m \<and> sc_http_root_name c = None then Some (st_name m)
          else sc_http_root_name c) \<rparr>"

definition static_build_maps :: "static_row list \<Rightarrow> static_cache" where
  "static_build_maps models = fold add_static models \<lparr> sc_by_name = [], sc_http_root_name = None \<rparr>"

definition static_build_cache :: "static_row list \<Rightarrow> static_world \<Rightarrow> static_cache \<times> static_world" where
  "static_build_cache models w = (static_build_maps models, w)"

definition static_reload_from_models :: "static_row list \<Rightarrow> static_world \<Rightarrow> static_world" where
  "static_reload_from_models models w =
     w\<lparr> sw_cache := map_option (\<lambda>_. static_build_maps models) (sw_cache w) \<rparr>"

definition static_load_all :: "static_env \<Rightarrow> static_world \<Rightarrow> static_row list any_result" where
  "static_load_all D w =
     load_from_db (sw_ready w) (map_option (se_display D) (se_fault D LoadStatics)) (sw_rows w)"

definition static_is_set :: "static_world \<Rightarrow> bool" where
  "static_is_set w = (sw_cache w \<noteq> None)"

definition static_put :: "static_cache \<Rightarrow> static_world \<Rightarrow> static_world" where
  "static_put c w = w\<lparr> sw_cache := Some c \<rparr>"

definition static_cache_init :: "static_env \<Rightarrow> static_world \<Rightarrow> unit any_result \<times> static_world" where
  "static_cache_init D =
     cache_init static_is_set (static_load_all D) static_build_cache static_put static_reload_from_models"

definition static_cache_reload :: "static_env \<Rightarrow> static_world \<Rightarrow> unit any_result \<times> static_world" where
  "static_cache_reload D = cache_reload static_is_set (static_load_all D) static_reload_from_models"

definition get_by_name :: "static_cache \<Rightarrow> string \<Rightarrow> static_row option" where
  "get_by_name c name = hm_get (sc_by_name c) name"

definition get_http_root :: "static_cache \<Rightarrow> static_row option" where
  "get_http_root c =
     (case sc_http_root_name c of None \<Rightarrow> None | Some name \<Rightarrow> hm_get (sc_by_name c) name)"

definition get_all_statics :: "static_cache \<Rightarrow> static_row list" where
  "get_all_statics c = hm_values (sc_by_name c)"

definition static_exists :: "static_cache \<Rightarrow> string \<Rightarrow> bool" where
  "static_exists c name = (hm_get (sc_by_name c) name \<noteq> None)"

definition static_coherent :: "static_row list \<Rightarrow> static_world \<Rightarrow> bool" where
  "static_coherent rows w \<longleftrightarrow> sw_cache w = Some (static_build_maps rows)"

interpretation static_db_cache: db_backed_cache
  static_is_set sw_rows "static_load_all D" static_build_cache static_put
  static_reload_from_models static_coherent
  by unfold_locales
    (auto simp: static_is_set_def static_load_all_def static_build_cache_def static_put_def
       static_reload_from_models_def static_coherent_def)


section \<open>The root directory\<close>

definition read_static_path_from_config :: "static_world \<Rightarrow> string" where
  "read_static_path_from_config w =
     (case sw_config w of
        None \<Rightarrow> ''./static/''
      | Some static_path \<Rightarrow> (case static_path of None \<Rightarrow> ''./static/'' | Some s \<Rightarrow> s))"

definition reload_static_path :: "static_world \<Rightarrow> static_world" where
  "reload_static_path w = w\<lparr> sw_static_path := read_static_path_from_config w \<rparr>"

definition get_static_path :: "static_world \<Rightarrow> string \<times> static_world" where
  "get_static_path w =
     (if sw_static_path w = [] then (let w1 = reload_static_path w in (sw_static_path w1, w1))
      else (sw_static_path w, w))"

definition clear_dav_handler_cache :: "static_world \<Rightarrow> static_world" where
  "clear_dav_handler_cache w = w\<lparr> sw_dav := [] \<rparr>"

text \<open>The end of a reload of the configuration in \<^verbatim>\<open>server/src/main.rs\<close>.\<close>

definition apply_static_config :: "string option \<Rightarrow> static_world \<Rightarrow> static_world" where
  "apply_static_config static_path w =
     clear_dav_handler_cache (reload_static_path (w\<lparr> sw_config := Some static_path \<rparr>))"


section \<open>Operations on buckets\<close>

definition static_db :: "static_world \<Rightarrow> unit any_result" where
  "static_db w = (if sw_ready w then Inr () else Inl (Foreign ''DB not initialized''))"

definition static_query :: "static_env \<Rightarrow> static_site \<Rightarrow> 'a \<Rightarrow> 'a any_result" where
  "static_query D site r =
     (case se_fault D site of Some e \<Rightarrow> Inl (Foreign (se_display D e)) | None \<Rightarrow> Inr r)"

definition static_not_found :: "string \<Rightarrow> anyhow_error" where
  "static_not_found name = Nodeget (NotFound (''Static '' @ quoted name @ '' not found''))"

definition another_root :: "'a any_result" where
  "another_root = err (InvalidInput ''Another static already has is_http_root enabled'')"

text \<open>
  The table has a unique index on the name, one on \<^verbatim>\<open>is_http_root\<close> among the
  rows where it is set, and its primary key.
\<close>

definition static_conflict :: "static_row \<Rightarrow> static_row list \<Rightarrow> bool" where
  "static_conflict m rows \<longleftrightarrow>
     list_ex (\<lambda>r. st_id r = st_id m \<or> st_name r = st_name m \<or> st_is_http_root r \<and> st_is_http_root m) rows"

definition insert_static :: "static_env \<Rightarrow> static_row \<Rightarrow> static_row list \<Rightarrow> db_err + static_row list" where
  "insert_static D m rows =
     (case se_fault D InsertStatic of
        Some e \<Rightarrow> Inl e
      | None \<Rightarrow>
          if static_conflict m rows then Inl (UniqueConstraintViolation ''static_file'')
          else Inr (rows @ [m]))"

definition update_static_row :: "static_env \<Rightarrow> static_row \<Rightarrow> static_row list \<Rightarrow> db_err + static_row list" where
  "update_static_row D m rows =
     (case se_fault D UpdateStatic of
        Some e \<Rightarrow> Inl e
      | None \<Rightarrow>
          if static_conflict m (tbl_delete (\<lambda>r. st_id r = st_id m) rows)
          then Inl (UniqueConstraintViolation ''static_file'')
          else Inr (tbl_update (\<lambda>r. st_id r = st_id m) (\<lambda>_. m) rows))"

definition create_static_checks ::
  "static_env \<Rightarrow> string \<Rightarrow> string \<Rightarrow> bool \<Rightarrow> static_world \<Rightarrow> unit any_result" where
  "create_static_checks D name path is_http_root w =
     rbind (static_db w) (\<lambda>_.
     rbind (validate_name name) (\<lambda>_.
     rbind (validate_sub_path path) (\<lambda>_.
     rbind (static_query D FindStatic (tbl_find (\<lambda>r. st_name r = name) (sw_rows w))) (\<lambda>existing.
       if existing \<noteq> None then err (DatabaseError (''Static '' @ quoted name @ '' already exists''))
       else if is_http_root
       then rbind (static_query D FindHttpRoot (tbl_find st_is_http_root (sw_rows w))) (\<lambda>has_root.
              if has_root \<noteq> None then another_root else Inr ())
       else Inr ()))))"

definition ensure_bucket_dir :: "static_env \<Rightarrow> string \<Rightarrow> static_world \<Rightarrow> static_world" where
  "ensure_bucket_dir D sub_path w =
     (let (static_path, w1) = get_static_path w
      in case fs_create_dir_all (se_os D) (bucket_dir static_path sub_path) (sw_disk w1) of
           Inl _ \<Rightarrow> w1
         | Inr d \<Rightarrow> w1\<lparr> sw_disk := d \<rparr>)"

definition create_static ::
  "static_env \<Rightarrow> string \<Rightarrow> string \<Rightarrow> bool \<Rightarrow> bool \<Rightarrow> static_world \<Rightarrow> static_row any_result \<times> static_world"
where
  "create_static D name path is_http_root cors w =
     (let name_trimmed = trim name; path_trimmed = trim path in
      case create_static_checks D name_trimmed path_trimmed is_http_root w of
        Inl e \<Rightarrow> (Inl e, w)
      | Inr _ \<Rightarrow>
          let m = \<lparr> st_id = se_new_id D, st_name = name_trimmed, st_path = path_trimmed,
                    st_is_http_root = is_http_root, st_cors = cors, st_enable = True \<rparr>
          in case insert_static D m (sw_rows w) of
               Inl e \<Rightarrow> (err (DatabaseError (''Failed to create static: '' @ se_display D e)), w)
             | Inr rows' \<Rightarrow>
                 let w1 = ensure_bucket_dir D path_trimmed (w\<lparr> sw_rows := rows' \<rparr>)
                 in case static_cache_reload D w1 of
                      (Inl e, w2) \<Rightarrow> (Inl e, w2)
                    | (Inr _, w2) \<Rightarrow> (Inr m, w2))"

definition static_global :: "static_world \<Rightarrow> static_cache any_result" where
  "static_global w = ok_or (Nodeget (ConfigNotFound ''StaticCache not initialized'')) (sw_cache w)"

definition read_static :: "string \<Rightarrow> static_world \<Rightarrow> static_row option any_result" where
  "read_static name w = rbind (static_global w) (\<lambda>c. Inr (get_by_name c name))"

definition find_static_row :: "static_env \<Rightarrow> string \<Rightarrow> static_world \<Rightarrow> static_row any_result" where
  "find_static_row D name w =
     rbind (static_query D FindStatic (tbl_find (\<lambda>r. st_name r = name) (sw_rows w)))
       (ok_or (static_not_found name))"

definition update_static_checks ::
  "static_env \<Rightarrow> string \<Rightarrow> string \<Rightarrow> bool \<Rightarrow> static_world \<Rightarrow> static_row any_result" where
  "update_static_checks D name new_path new_is_http_root w =
     rbind (static_db w) (\<lambda>_.
     rbind (validate_name name) (\<lambda>_.
     rbind (validate_sub_path new_path) (\<lambda>_.
     rbind (find_static_row D name w) (\<lambda>mdl.
       if new_is_http_root \<and> \<not> st_is_http_root mdl
       then rbind (static_query D FindHttpRoot
                    (tbl_find (\<lambda>r. st_is_http_root r \<and> st_id r \<noteq> st_id mdl) (sw_rows w))) (\<lambda>has_root.
              if has_root \<noteq> None then another_root else Inr mdl)
       else Inr mdl))))"

definition update_static ::
  "static_env \<Rightarrow> string \<Rightarrow> string \<Rightarrow> bool \<Rightarrow> bool \<Rightarrow> bool option \<Rightarrow> static_world
     \<Rightarrow> static_row any_result \<times> static_world"
where
  "update_static D name new_path new_is_http_root new_cors new_enable w =
     (let name_trimmed = trim name; new_path_trimmed = trim new_path in
      case update_static_checks D name_trimmed new_path_trimmed new_is_http_root w of
        Inl e \<Rightarrow> (Inl e, w)
      | Inr mdl \<Rightarrow>
          let m = mdl\<lparr> st_path := new_path_trimmed, st_is_http_root := new_is_http_root,
                         st_cors := new_cors,
                         st_enable := (case new_enable of Some v \<Rightarrow> v | None \<Rightarrow> st_enable mdl) \<rparr>
          in case update_static_row D m (sw_rows w) of
               Inl e \<Rightarrow> (err (DatabaseError (''Failed to update static: '' @ se_display D e)), w)
             | Inr rows' \<Rightarrow>
                 let w1 = ensure_bucket_dir D new_path_trimmed (w\<lparr> sw_rows := rows' \<rparr>)
                 in case static_cache_reload D w1 of
                      (Inl e, w2) \<Rightarrow> (Inl e, w2)
                    | (Inr _, w2) \<Rightarrow> (Inr m, clear_dav_handler_cache w2))"

definition delete_static_bucket_dir :: "static_env \<Rightarrow> string \<Rightarrow> static_world \<Rightarrow> unit any_result \<times> static_world" where
  "delete_static_bucket_dir D bucket_sub_path w =
     (case validate_sub_path bucket_sub_path of
        Inl e \<Rightarrow> (Inl e, w)
      | Inr _ \<Rightarrow>
          let (static_path, w1) = get_static_path w;
              dir = bucket_dir static_path bucket_sub_path
          in if fs_exists (se_os D) dir (sw_disk w1)
             then (case fs_remove_dir_all (se_os D) dir (sw_disk w1) of
                     (Inl k, d) \<Rightarrow> (Inl (Foreign (os_text (se_os D) (OsRemoveDir dir) k)), w1\<lparr> sw_disk := d \<rparr>)
                   | (Inr _, d) \<Rightarrow> (Inr (), w1\<lparr> sw_disk := d \<rparr>))
             else (Inr (), w1))"

definition delete_static_checks :: "static_env \<Rightarrow> string \<Rightarrow> static_world \<Rightarrow> static_row any_result" where
  "delete_static_checks D name w =
     rbind (static_db w) (\<lambda>_.
     rbind (validate_name name) (\<lambda>_.
     rbind (find_static_row D name w) (\<lambda>mdl.
       static_query D DeleteStatic mdl)))"

definition delete_static :: "static_env \<Rightarrow> string \<Rightarrow> static_world \<Rightarrow> unit any_result \<times> static_world" where
  "delete_static D name w =
     (let name_trimmed = trim name in
      case delete_static_checks D name_trimmed w of
        Inl e \<Rightarrow> (Inl e, w)
      | Inr mdl \<Rightarrow>
          let w1 = w\<lparr> sw_rows := tbl_delete (\<lambda>r. st_id r = st_id mdl) (sw_rows w) \<rparr>;
              w2 = snd (delete_static_bucket_dir D (st_path mdl) w1)
          in case static_cache_reload D w2 of
               (Inl e, w3) \<Rightarrow> (Inl e, w3)
             | (Inr _, w3) \<Rightarrow> (Inr (), clear_dav_handler_cache w3))"

definition list_all_names :: "static_world \<Rightarrow> string list" where
  "list_all_names w =
     sort (map st_name (case sw_cache w of None \<Rightarrow> [] | Some c \<Rightarrow> get_all_statics c))"


section \<open>Operations on files\<close>

definition lookup_static :: "string \<Rightarrow> static_world \<Rightarrow> static_row any_result" where
  "lookup_static name w =
     rbind (validate_name name) (\<lambda>_.
     rbind (static_global w) (\<lambda>c.
       ok_or (static_not_found name) (get_by_name c name)))"

definition io_err :: "static_env \<Rightarrow> string \<Rightarrow> os_call \<Rightarrow> io_kind \<Rightarrow> 'a any_result" where
  "io_err D msg c k = err (IoError (msg @ os_text (se_os D) c k))"

definition create_parent :: "static_env \<Rightarrow> path_buf \<Rightarrow> disk \<Rightarrow> disk" where
  "create_parent D resolved d =
     (case path_parent resolved of
        None \<Rightarrow> d
      | Some parent \<Rightarrow>
          (case fs_create_dir_all (se_os D) parent d of Inl _ \<Rightarrow> d | Inr d' \<Rightarrow> d'))"

definition upload_payload :: "static_env \<Rightarrow> byte list option \<Rightarrow> string option \<Rightarrow> byte list any_result" where
  "upload_payload D body base64_str =
     (case body of
        Some b \<Rightarrow> Inr b
      | None \<Rightarrow>
          map_err (\<lambda>e. Nodeget (InvalidInput (''Invalid base64: '' @ e)))
            (se_decode D (case base64_str of Some b64 \<Rightarrow> b64 | None \<Rightarrow> [])))"

definition upload_checks ::
  "static_env \<Rightarrow> string \<Rightarrow> byte list option \<Rightarrow> string option \<Rightarrow> static_world
     \<Rightarrow> (static_row \<times> byte list) any_result"
where
  "upload_checks D name body base64_str w =
     (if body \<noteq> None \<and> base64_str \<noteq> None
      then err (InvalidInput ''Cannot provide both body and base64'')
      else if body = None \<and> base64_str = None
      then err (InvalidInput ''Must provide either body or base64'')
      else
        rbind (lookup_static name w) (\<lambda>mdl.
        rbind (upload_payload D body base64_str) (\<lambda>data. Inr (mdl, data))))"

definition upload_file ::
  "static_env \<Rightarrow> string \<Rightarrow> string \<Rightarrow> byte list option \<Rightarrow> string option \<Rightarrow> static_world
     \<Rightarrow> unit any_result \<times> static_world"
where
  "upload_file D name file_path body base64_str w =
     (case upload_checks D name body base64_str w of
        Inl e \<Rightarrow> (Inl e, w)
      | Inr (mdl, data) \<Rightarrow>
          let (static_path, w1) = get_static_path w
          in case resolve_safe_file_path static_path (st_path mdl) file_path of
               Inl e \<Rightarrow> (Inl e, w1)
             | Inr resolved \<Rightarrow>
                 let d = create_parent D resolved (sw_disk w1)
                 in case fs_write (se_os D) resolved data d of
                      (Inl k, d') \<Rightarrow> (io_err D ''Failed to write file: '' (OsWrite resolved) k, w1\<lparr> sw_disk := d' \<rparr>)
                    | (Inr _, d') \<Rightarrow> (Inr (), w1\<lparr> sw_disk := d' \<rparr>))"

definition MAX_STATIC_FILE_SIZE :: nat where
  "MAX_STATIC_FILE_SIZE = 8 * 1024 * 1024"

definition too_large :: "static_env \<Rightarrow> nat \<Rightarrow> string" where
  "too_large D len =
     ''File too large ('' @ se_show D len @ '' bytes, max '' @ se_show D MAX_STATIC_FILE_SIZE
       @ ''); use WebDAV for large files''"

definition file_io_err :: "static_env \<Rightarrow> string \<Rightarrow> string \<Rightarrow> os_call \<Rightarrow> io_kind \<Rightarrow> 'a any_result" where
  "file_io_err D missing msg c k = (if k = IoNotFound then err (NotFound missing) else io_err D msg c k)"

definition read_resolved :: "static_env \<Rightarrow> string \<Rightarrow> path_buf \<Rightarrow> disk \<Rightarrow> string any_result" where
  "read_resolved D file_path resolved d =
     (case fs_metadata (se_os D) resolved d of
        Inl k \<Rightarrow> file_io_err D (''File not found: '' @ file_path) ''Failed to stat file: '' (OsMetadata resolved) k
      | Inr len \<Rightarrow>
          if len > MAX_STATIC_FILE_SIZE then err (InvalidInput (too_large D len))
          else
            (case fs_read (se_os D) resolved d of
               Inl k \<Rightarrow> file_io_err D (''File not found: '' @ file_path) ''Failed to read file: '' (OsRead resolved) k
             | Inr data \<Rightarrow> Inr (se_encode D data)))"

definition read_file :: "static_env \<Rightarrow> string \<Rightarrow> string \<Rightarrow> static_world \<Rightarrow> string any_result \<times> static_world" where
  "read_file D name file_path w =
     (case lookup_static name w of
        Inl e \<Rightarrow> (Inl e, w)
      | Inr mdl \<Rightarrow>
          let (static_path, w1) = get_static_path w
          in (rbind (resolve_safe_file_path static_path (st_path mdl) file_path)
                (\<lambda>resolved. read_resolved D file_path resolved (sw_disk w1)), w1))"

definition delete_file :: "static_env \<Rightarrow> string \<Rightarrow> string \<Rightarrow> static_world \<Rightarrow> unit any_result \<times> static_world" where
  "delete_file D name file_path w =
     (case lookup_static name w of
        Inl e \<Rightarrow> (Inl e, w)
      | Inr mdl \<Rightarrow>
          let (static_path, w1) = get_static_path w
          in case resolve_safe_file_path static_path (st_path mdl) file_path of
               Inl e \<Rightarrow> (Inl e, w1)
             | Inr resolved \<Rightarrow>
                 (case fs_remove_file (se_os D) resolved (sw_disk w1) of
                    Inr d \<Rightarrow> (Inr (), w1\<lparr> sw_disk := d \<rparr>)
                  | Inl IoNotFound \<Rightarrow> (Inr (), w1)
                  | Inl IoOther \<Rightarrow>
                      (io_err D ''Failed to delete file: '' (OsRemoveFile resolved) IoOther, w1)))"

definition rename_resolved ::
  "static_env \<Rightarrow> string \<Rightarrow> path_buf \<Rightarrow> path_buf \<Rightarrow> static_world \<Rightarrow> unit any_result \<times> static_world"
where
  "rename_resolved D from from_resolved to_resolved w =
     (if from_resolved = to_resolved then (Inr (), w)
      else
        let d = create_parent D to_resolved (sw_disk w)
        in case fs_rename (se_os D) from_resolved to_resolved d of
             Inl k \<Rightarrow>
               (file_io_err D (''Source file not found: '' @ from) ''Failed to rename file: ''
                  (OsRename from_resolved to_resolved) k, w\<lparr> sw_disk := d \<rparr>)
           | Inr d' \<Rightarrow> (Inr (), w\<lparr> sw_disk := d' \<rparr>))"

definition rename_file ::
  "static_env \<Rightarrow> string \<Rightarrow> string \<Rightarrow> string \<Rightarrow> static_world \<Rightarrow> unit any_result \<times> static_world" where
  "rename_file D name from to w =
     (case lookup_static name w of
        Inl e \<Rightarrow> (Inl e, w)
      | Inr mdl \<Rightarrow>
          let (static_path, w1) = get_static_path w
          in case rbind (resolve_safe_file_path static_path (st_path mdl) from) (\<lambda>a.
                  rbind (resolve_safe_file_path static_path (st_path mdl) to) (\<lambda>b. Inr (a, b))) of
               Inl e \<Rightarrow> (Inl e, w1)
             | Inr (a, b) \<Rightarrow> rename_resolved D from a b w1)"


section \<open>Listing\<close>

record file_info =
  fi_path :: string
  fi_size :: nat
  fi_mtime :: int

text \<open>The modification time in milliseconds: 0 if unknown, before 1970, or beyond 64 bits.\<close>

definition file_mtime :: "static_env \<Rightarrow> path_buf \<Rightarrow> int" where
  "file_mtime D p =
     (case os_modified (se_os D) p of
        None \<Rightarrow> 0
      | Some t \<Rightarrow> if t < 0 \<or> 2 ^ 63 \<le> t then 0 else t)"

fun component_names :: "component list \<Rightarrow> string list option" where
  "component_names [] = Some []"
| "component_names (Normal s # cs) = map_option (Cons s) (component_names cs)"
| "component_names (_ # cs) = None"

fun join_slash :: "string list \<Rightarrow> string" where
  "join_slash [] = []"
| "join_slash [x] = x"
| "join_slash (x # y # ys) = x @ ''/'' @ join_slash (y # ys)"

definition file_entry :: "static_env \<Rightarrow> path_buf \<Rightarrow> path_buf \<Rightarrow> byte list \<Rightarrow> file_info list" where
  "file_entry D base p data =
     (case component_names (drop (length base) p) of
        None \<Rightarrow> []
      | Some parts \<Rightarrow>
          if parts = [] then []
          else [\<lparr> fi_path = join_slash parts, fi_size = length data, fi_mtime = file_mtime D p \<rparr>])"

text \<open>
  The loop over the entries of one directory: the files found and the directories
  still to visit.
\<close>

fun collect_entries ::
  "static_env \<Rightarrow> path_buf \<Rightarrow> path_buf \<Rightarrow> disk \<Rightarrow> path_buf list \<Rightarrow> (file_info list \<times> path_buf list) any_result"
where
  "collect_entries D base dir d [] = Inr ([], [])"
| "collect_entries D base dir d (e # es) =
     (case os_fault (se_os D) (OsEntry e) of
        Some k \<Rightarrow>
          io_err D (''Failed to read dir entry in '' @ os_display (se_os D) dir @ '': '') (OsEntry e) k
      | None \<Rightarrow>
          rbind (collect_entries D base dir d es) (\<lambda>(files, dirs).
            if os_fault (se_os D) (OsSymlinkMetadata e) \<noteq> None then Inr (files, dirs)
            else
              (case hm_get (dk_files d) e of
                 Some data \<Rightarrow> Inr (file_entry D base e data @ files, dirs)
               | None \<Rightarrow> Inr (files, e # dirs))))"

definition longest :: "disk \<Rightarrow> nat" where
  "longest d = Max (set (0 # map length (map fst (dk_files d) @ dk_dirs d)))"

lemma collect_entries_dirs:
  "collect_entries D base dir d es = Inr (files, dirs) \<Longrightarrow> set dirs \<subseteq> set es"
  by (induction es arbitrary: files dirs)
    (auto simp: result_simps io_err_def split: option.splits if_splits)

lemma read_dir_entries:
  assumes "fs_read_dir E dir d = Inr es" "e \<in> set es"
  shows "length e = Suc (length dir)" "length e \<le> longest d"
proof -
  have e: "length e = Suc (length dir)" "e \<in> set (map fst (dk_files d) @ dk_dirs d)"
    using assms by (auto simp: fs_read_dir_def os_call_fails_def split: option.splits if_splits)
  then have "length e \<in> set (0 # map length (map fst (dk_files d) @ dk_dirs d))"
    by (metis image_eqI list.set_intros(2) set_map)
  then have "length e \<le> longest d" unfolding longest_def by (intro Max_ge) simp_all
  with e show "length e = Suc (length dir)" "length e \<le> longest d" by simp_all
qed

function collect_loop ::
  "static_env \<Rightarrow> path_buf \<Rightarrow> disk \<Rightarrow> path_buf list \<Rightarrow> file_info list \<Rightarrow> file_info list any_result"
where
  "collect_loop D base d [] out = Inr out"
| "collect_loop D base d (dir # queue) out =
     (case fs_read_dir (se_os D) dir d of
        Inl IoNotFound \<Rightarrow> collect_loop D base d queue out
      | Inl IoOther \<Rightarrow>
          io_err D (''Failed to read dir '' @ os_display (se_os D) dir @ '': '') (OsReadDir dir) IoOther
      | Inr entries \<Rightarrow>
          (case collect_entries D base dir d entries of
             Inl e \<Rightarrow> Inl e
           | Inr (files, dirs) \<Rightarrow> collect_loop D base d (queue @ dirs) (out @ files)))"
  by pat_completeness auto

text \<open>
  Every directory that is queued is one component longer than the one it was found
  in, and no path of the disk is longer than \<open>longest\<close>.
\<close>

lemma collect_queue_decreases:
  assumes "fs_read_dir E dir d = Inr es" "collect_entries D base dir d es = Inr (files, dirs)"
  shows "(mset (map (\<lambda>p. Suc (longest d) - length p) (queue @ dirs)),
          mset (map (\<lambda>p. Suc (longest d) - length p) (dir # queue))) \<in> mult less_than"
proof -
  let ?f = "\<lambda>p. Suc (longest d) - length p"
  have less: "k < ?f dir" if "k \<in># mset (map ?f dirs)" for k
  proof -
    from that obtain p where p: "p \<in> set dirs" "k = ?f p" by auto
    then have "p \<in> set es" using collect_entries_dirs [OF assms(2)] by blast
    from read_dir_entries [OF assms(1) this] p(2) show ?thesis by linarith
  qed
  have "(mset (map ?f queue) + mset (map ?f dirs), mset (map ?f queue) + {# ?f dir #}) \<in> mult less_than"
    by (rule one_step_implies_mult) (use less in auto)
  then show ?thesis by simp
qed

termination collect_loop
proof (relation "inv_image (mult less_than) (\<lambda>(D, base, d, queue, out). mset (map (\<lambda>p. Suc (longest d) - length p) queue))",
       goal_cases)
  case 1
  then show ?case by (simp add: wf_mult)
next
  case (2 D base d dir queue out)
  then show ?case
    using one_step_implies_mult [of "{# Suc (longest d) - length dir #}" "{#}" less_than
        "mset (map (\<lambda>p. Suc (longest d) - length p) queue)"] by simp
next
  case (3 D base d dir queue out entries x files dirs)
  with collect_queue_decreases show ?case by (simp only: in_inv_image prod.case) fast
qed

definition collect_files :: "static_env \<Rightarrow> path_buf \<Rightarrow> disk \<Rightarrow> file_info list any_result" where
  "collect_files D base d =
     (case os_call_fails (se_os D) (OsMetadata base) (Inr ()) of
        Inl IoNotFound \<Rightarrow> Inr []
      | Inl IoOther \<Rightarrow> io_err D ''Failed to stat static dir: '' (OsMetadata base) IoOther
      | Inr _ \<Rightarrow>
          if \<not> is_dir d base then Inr []
          else rbind (collect_loop D base d [base] []) (\<lambda>out. Inr (sort_key fi_path out)))"

definition list_file :: "static_env \<Rightarrow> string \<Rightarrow> static_world \<Rightarrow> file_info list any_result \<times> static_world" where
  "list_file D name w =
     (case lookup_static name w of
        Inl e \<Rightarrow> (Inl e, w)
      | Inr mdl \<Rightarrow>
          let (static_path, w1) = get_static_path w
          in (collect_files D (bucket_dir static_path (st_path mdl)) (sw_disk w1), w1))"

end
