(* ===== verification/Static_Rpc.thy ===== *)
theory Static_Rpc
  imports Static_Store
begin

text \<open>
  The permission checks of \<^verbatim>\<open>ng-static/src/auth.rs\<close> and the handlers of the RPC
  namespaces \<^verbatim>\<open>static-bucket\<close> and \<^verbatim>\<open>static-bucket-file\<close>.  A handler answers
  with the value it serialises; serialising it to JSON does not fail.
\<close>


section \<open>Permission checks\<close>

primrec static_bucket_perm_name :: "static_bucket_perm \<Rightarrow> string" where
  "static_bucket_perm_name StaticBucket_Read = ''Read''"
| "static_bucket_perm_name StaticBucket_Write = ''Write''"
| "static_bucket_perm_name StaticBucket_Delete = ''Delete''"

primrec static_bucket_file_perm_name :: "static_bucket_file_perm \<Rightarrow> string" where
  "static_bucket_file_perm_name StaticBucketFile_Read = ''Read''"
| "static_bucket_file_perm_name StaticBucketFile_Write = ''Write''"
| "static_bucket_file_perm_name StaticBucketFile_Delete = ''Delete''"
| "static_bucket_file_perm_name StaticBucketFile_List = ''List''"

definition require_checker :: "limit_checker \<Rightarrow> unit any_result" where
  "require_checker C =
     (if ck_registered C then Inr ()
      else err (ConfigNotFound ''PermissionChecker not initialized''))"

definition check_static_bucket_permission ::
  "static_env \<Rightarrow> string \<Rightarrow> string \<Rightarrow> static_bucket_perm \<Rightarrow> unit any_result" where
  "check_static_bucket_permission D tok name perm =
     rbind (parse_token tok) (\<lambda>cred.
     rbind (require_checker (se_checker D)) (\<lambda>_.
     rbind (ck_limit (se_checker D) cred [StaticBucket name] [PStaticBucket perm]) (\<lambda>is_allowed.
       if is_allowed then Inr ()
       else err (PermissionDenied (''Permission denied for static-bucket '' @ quoted name
                   @ '', required permission: '' @ static_bucket_perm_name perm)))))"

definition check_static_bucket_file_permission ::
  "static_env \<Rightarrow> string \<Rightarrow> string \<Rightarrow> static_bucket_file_perm \<Rightarrow> unit any_result" where
  "check_static_bucket_file_permission D tok name perm =
     rbind (parse_token tok) (\<lambda>cred.
     rbind (require_checker (se_checker D)) (\<lambda>_.
     rbind (ck_limit (se_checker D) cred [StaticBucket name] [PStaticBucketFile perm]) (\<lambda>is_allowed.
       if is_allowed then Inr ()
       else err (PermissionDenied (''Permission denied for static-bucket-file '' @ quoted name
                   @ '', required permission: '' @ static_bucket_file_perm_name perm)))))"

definition static_check_super_token :: "static_env \<Rightarrow> string \<Rightarrow> bool any_result" where
  "static_check_super_token D tok =
     rbind (parse_token tok) (\<lambda>cred.
     rbind (require_checker (se_checker D)) (\<lambda>_.
       map_err (\<lambda>e. Nodeget (PermissionDenied (anyhow_display e))) (ck_super (se_checker D) cred)))"


section \<open>Handlers\<close>

datatype static_answer =
  ABucket static_row | ANames "string list" | ASuccess | AContent string | AFiles "file_info list"

type_synonym static_outcome = "static_answer rpc_result \<times> static_world"

text \<open>The guard of a handler, its work, and the conversion of the error.\<close>

definition static_handler ::
  "unit any_result \<Rightarrow> ('a \<Rightarrow> static_answer) \<Rightarrow> (static_world \<Rightarrow> 'a any_result \<times> static_world)
     \<Rightarrow> static_world \<Rightarrow> static_outcome"
where
  "static_handler allowed answer work w =
     (case allowed of
        Inl e \<Rightarrow> (Inl (to_rpc_error e), w)
      | Inr _ \<Rightarrow>
          (case work w of
             (Inl e, w') \<Rightarrow> (Inl (to_rpc_error e), w')
           | (Inr a, w') \<Rightarrow> (Inr (answer a), w')))"

definition rpc_create ::
  "static_env \<Rightarrow> string \<Rightarrow> string \<Rightarrow> string \<Rightarrow> bool \<Rightarrow> bool \<Rightarrow> static_world \<Rightarrow> static_outcome" where
  "rpc_create D tok name path is_http_root cors =
     static_handler (check_static_bucket_permission D tok name StaticBucket_Write)
       ABucket (create_static D name path is_http_root cors)"

definition rpc_read :: "static_env \<Rightarrow> string \<Rightarrow> string \<Rightarrow> static_world \<Rightarrow> static_outcome" where
  "rpc_read D tok name =
     static_handler (check_static_bucket_permission D tok name StaticBucket_Read)
       ABucket (\<lambda>w. (rbind (read_static name w) (ok_or (static_not_found name)), w))"

definition rpc_update ::
  "static_env \<Rightarrow> string \<Rightarrow> string \<Rightarrow> string \<Rightarrow> bool \<Rightarrow> bool \<Rightarrow> bool option \<Rightarrow> static_world \<Rightarrow> static_outcome" where
  "rpc_update D tok name path is_http_root cors enable =
     static_handler (check_static_bucket_permission D tok name StaticBucket_Write)
       ABucket (update_static D name path is_http_root cors enable)"

definition rpc_delete :: "static_env \<Rightarrow> string \<Rightarrow> string \<Rightarrow> static_world \<Rightarrow> static_outcome" where
  "rpc_delete D tok name =
     static_handler (check_static_bucket_permission D tok name StaticBucket_Delete)
       (\<lambda>_. ASuccess) (delete_static D name)"

definition rpc_list :: "static_env \<Rightarrow> string \<Rightarrow> static_world \<Rightarrow> static_outcome" where
  "rpc_list D tok =
     static_handler
       (rbind (map_err (\<lambda>e. Nodeget (PermissionDenied (anyhow_display e))) (static_check_super_token D tok))
          (\<lambda>is_super_token.
             if is_super_token then Inr ()
             else err (PermissionDenied ''Only SuperToken can list all static names'')))
       ANames (\<lambda>w. (Inr (list_all_names w), w))"

definition upload_file_rpc ::
  "static_env \<Rightarrow> string \<Rightarrow> string \<Rightarrow> string \<Rightarrow> byte list option \<Rightarrow> string option \<Rightarrow> static_world \<Rightarrow> static_outcome" where
  "upload_file_rpc D tok name path body base64 =
     static_handler (check_static_bucket_file_permission D tok name StaticBucketFile_Write)
       (\<lambda>_. ASuccess) (upload_file D name path body base64)"

definition read_file_rpc :: "static_env \<Rightarrow> string \<Rightarrow> string \<Rightarrow> string \<Rightarrow> static_world \<Rightarrow> static_outcome" where
  "read_file_rpc D tok name path =
     static_handler (check_static_bucket_file_permission D tok name StaticBucketFile_Read)
       AContent (read_file D name path)"

definition delete_file_rpc :: "static_env \<Rightarrow> string \<Rightarrow> string \<Rightarrow> string \<Rightarrow> static_world \<Rightarrow> static_outcome" where
  "delete_file_rpc D tok name path =
     static_handler (check_static_bucket_file_permission D tok name StaticBucketFile_Delete)
       (\<lambda>_. ASuccess) (delete_file D name path)"

definition rename_file_rpc ::
  "static_env \<Rightarrow> string \<Rightarrow> string \<Rightarrow> string \<Rightarrow> string \<Rightarrow> static_world \<Rightarrow> static_outcome" where
  "rename_file_rpc D tok name from to =
     static_handler
       (rbind (check_static_bucket_file_permission D tok name StaticBucketFile_Write) (\<lambda>_.
          check_static_bucket_file_permission D tok name StaticBucketFile_Delete))
       (\<lambda>_. ASuccess) (rename_file D name from to)"

definition list_file_rpc :: "static_env \<Rightarrow> string \<Rightarrow> string \<Rightarrow> static_world \<Rightarrow> static_outcome" where
  "list_file_rpc D tok name =
     static_handler (check_static_bucket_file_permission D tok name StaticBucketFile_List)
       AFiles (list_file D name)"

text \<open>The methods of the two traits.\<close>

datatype static_request =
    BucketCreate string string bool bool
  | BucketRead string
  | BucketUpdate string string bool bool "bool option"
  | BucketDelete string
  | BucketList
  | FileUpload string string "byte list option" "string option"
  | FileRead string string
  | FileDelete string string
  | FileRename string string string
  | FileList string

primrec static_rpc :: "static_env \<Rightarrow> string \<Rightarrow> static_request \<Rightarrow> static_world \<Rightarrow> static_outcome" where
  "static_rpc D tok (BucketCreate name path is_http_root cors) = rpc_create D tok name path is_http_root cors"
| "static_rpc D tok (BucketRead name) = rpc_read D tok name"
| "static_rpc D tok (BucketUpdate name path is_http_root cors enable) =
     rpc_update D tok name path is_http_root cors enable"
| "static_rpc D tok (BucketDelete name) = rpc_delete D tok name"
| "static_rpc D tok BucketList = rpc_list D tok"
| "static_rpc D tok (FileUpload name path body base64) = upload_file_rpc D tok name path body base64"
| "static_rpc D tok (FileRead name path) = read_file_rpc D tok name path"
| "static_rpc D tok (FileDelete name path) = delete_file_rpc D tok name path"
| "static_rpc D tok (FileRename name from to) = rename_file_rpc D tok name from to"
| "static_rpc D tok (FileList name) = list_file_rpc D tok name"

end
