(* ===== verification/Static_Http.thy ===== *)
theory Static_Http
  imports Static_Rpc
begin

text \<open>
  The HTTP side of the buckets: the routes of \<^verbatim>\<open>ng-static/src/router.rs\<close>, the
  admission of a WebDAV request, and the two places of
  \<^verbatim>\<open>server/src/subcommands/serve.rs\<close> that serve the bucket marked
  \<^verbatim>\<open>is_http_root\<close>: the root route and the fallback of all unmatched paths.
  The answer of the JSON-RPC service and the WebDAV protocol itself are parameters of
  the outcome.
\<close>


section \<open>Requests and responses\<close>

datatype http_method = GET | HEAD | OPTIONS | OtherMethod string

text \<open>
  A header that is not a string of visible ASCII is \<^const>\<open>None\<close>, except that
  \<^verbatim>\<open>Authorization\<close> is told from an absent one.
\<close>

record http_request =
  rq_method :: http_method
  rq_path :: string
  rq_if_none_match :: "string option"
  rq_authorization :: "string option option"
  rq_upgrade :: "string option"
  rq_connection :: "string option"

datatype http_body = BText string | BBytes "byte list" | BEmpty

record http_response =
  hr_status :: nat
  hr_headers :: "(string \<times> string) list"
  hr_body :: http_body

definition cors_header :: "bool \<Rightarrow> (string \<times> string) list" where
  "cors_header cors = (if cors then [(''access-control-allow-origin'', ''*'')] else [])"

definition nosniff :: "(string \<times> string) list" where
  "nosniff = [(''x-content-type-options'', ''nosniff'')]"

definition plain_text :: "(string \<times> string) list" where
  "plain_text = [(''content-type'', ''text/plain; charset=utf-8'')]"

definition build_http_error :: "nat \<Rightarrow> string \<Rightarrow> http_response" where
  "build_http_error status message =
     \<lparr> hr_status = status, hr_headers = plain_text @ nosniff, hr_body = BText message \<rparr>"

definition build_static_error :: "nat \<Rightarrow> string \<Rightarrow> bool \<Rightarrow> http_response" where
  "build_static_error status message cors =
     \<lparr> hr_status = status, hr_headers = plain_text @ nosniff @ cors_header cors, hr_body = BText message \<rparr>"

definition build_webdav_error :: "nat \<Rightarrow> string \<Rightarrow> http_response" where
  "build_webdav_error status message =
     \<lparr> hr_status = status, hr_headers = plain_text @ nosniff, hr_body = BText message \<rparr>"

definition build_webdav_auth_required :: http_response where
  "build_webdav_auth_required =
     \<lparr> hr_status = 401,
       hr_headers = (''www-authenticate'', ''Basic realm='' @ [CHR 0x22] @ ''NodeGet Static WebDAV'' @ [CHR 0x22]) # nosniff,
       hr_body = BText ''Authentication required'' \<rparr>"


section \<open>Serving a file\<close>

text \<open>\<^verbatim>\<open>Path::extension\<close>: after the last dot of the file name, unless the name starts with it.\<close>

definition path_extension :: "path_buf \<Rightarrow> string option" where
  "path_extension p =
     (case rev p of
        Normal s # _ \<Rightarrow>
          (case split_once (CHR ''.'') (rev s) of
             None \<Rightarrow> None
           | Some (ext, stem) \<Rightarrow> if stem = [] then None else Some (rev ext))
      | _ \<Rightarrow> None)"

definition mime_types :: "(string \<times> string) list" where
  "mime_types =
     [(''html'', ''text/html; charset=utf-8''), (''htm'', ''text/html; charset=utf-8''),
      (''css'', ''text/css; charset=utf-8''), (''js'', ''application/javascript; charset=utf-8''),
      (''json'', ''application/json; charset=utf-8''), (''png'', ''image/png''),
      (''jpg'', ''image/jpeg''), (''jpeg'', ''image/jpeg''), (''gif'', ''image/gif''),
      (''svg'', ''image/svg+xml''), (''ico'', ''image/x-icon''), (''woff2'', ''font/woff2''),
      (''woff'', ''font/woff''), (''ttf'', ''font/ttf''), (''txt'', ''text/plain; charset=utf-8''),
      (''xml'', ''application/xml; charset=utf-8''), (''wasm'', ''application/wasm'')]"

definition guess_mime_type :: "path_buf \<Rightarrow> string" where
  "guess_mime_type p =
     (case path_extension p of
        None \<Rightarrow> ''application/octet-stream''
      | Some ext \<Rightarrow>
          (case map_of mime_types ext of Some t \<Rightarrow> t | None \<Rightarrow> ''application/octet-stream''))"

definition build_etag :: "static_env \<Rightarrow> path_buf \<Rightarrow> nat \<Rightarrow> string" where
  "build_etag D p len =
     (let mtime_secs = (case os_modified (se_os D) p of None \<Rightarrow> 0 | Some t \<Rightarrow> nat (t div 1000))
      in [CHR 0x22] @ se_show D mtime_secs @ ''-'' @ se_show D len @ [CHR 0x22])"

definition strip_weak :: "string \<Rightarrow> string" where
  "strip_weak p = (if starts_with p ''W/'' then drop 2 p else p)"

definition if_none_match_is_match :: "string option \<Rightarrow> string \<Rightarrow> bool" where
  "if_none_match_is_match if_none_match etag =
     (case if_none_match of
        None \<Rightarrow> False
      | Some header \<Rightarrow>
          trim header = ''*'' \<or> list_ex (\<lambda>part. strip_weak (trim part) = etag) (split_on (CHR '','') header))"

definition requested_file :: "string \<Rightarrow> string" where
  "requested_file path =
     (if path = [] \<or> path = ''/'' then ''index.html'' else dropWhile (\<lambda>c. c = CHR ''/'') path)"

text \<open>The file itself, or the \<^verbatim>\<open>index.html\<close> below it when nothing has its name.\<close>

definition locate_file :: "static_env \<Rightarrow> disk \<Rightarrow> path_buf \<Rightarrow> bool \<Rightarrow> http_response + path_buf \<times> nat" where
  "locate_file D d resolved cors =
     (case fs_metadata (se_os D) resolved d of
        Inr len \<Rightarrow> Inr (resolved, len)
      | Inl IoNotFound \<Rightarrow>
          (let index_html_path = resolved @ [Normal ''index.html''] in
           case fs_metadata (se_os D) index_html_path d of
             Inr len \<Rightarrow> Inr (index_html_path, len)
           | Inl _ \<Rightarrow> Inl (build_static_error 404 ''File not found'' cors))
      | Inl IoOther \<Rightarrow>
          Inl (build_static_error 500
                 (''Failed to stat file: '' @ os_text (se_os D) (OsMetadata resolved) IoOther) cors))"

definition method_not_allowed :: "bool \<Rightarrow> http_response" where
  "method_not_allowed cors =
     \<lparr> hr_status = 405, hr_headers = (''allow'', ''GET, HEAD, OPTIONS'') # cors_header cors,
       hr_body = BText ''Method not allowed'' \<rparr>"

definition not_modified :: "string \<Rightarrow> (string \<times> string) list \<Rightarrow> bool \<Rightarrow> http_response" where
  "not_modified etag extra cors =
     \<lparr> hr_status = 304, hr_headers = (''etag'', etag) # extra @ cors_header cors, hr_body = BEmpty \<rparr>"

definition file_response ::
  "static_env \<Rightarrow> path_buf \<Rightarrow> string \<Rightarrow> byte list \<Rightarrow> bool \<Rightarrow> http_method \<Rightarrow> http_response" where
  "file_response D p etag data cors mth =
     \<lparr> hr_status = 200,
       hr_headers = [(''content-type'', guess_mime_type p), (''etag'', etag),
                     (''content-length'', se_show D (length data))] @ nosniff @ cors_header cors,
       hr_body = (if mth = HEAD then BEmpty else BBytes data) \<rparr>"

definition serve_located ::
  "static_env \<Rightarrow> disk \<Rightarrow> path_buf \<Rightarrow> nat \<Rightarrow> bool \<Rightarrow> http_method \<Rightarrow> string option \<Rightarrow> http_response" where
  "serve_located D d p len cors mth if_none_match =
     (if len > MAX_STATIC_FILE_SIZE then build_static_error 413 (too_large D len) cors
      else
        let etag = build_etag D p len in
        if if_none_match_is_match if_none_match etag then not_modified etag nosniff cors
        else
          (case fs_read (se_os D) p d of
             Inl _ \<Rightarrow> build_static_error 404 ''File not found'' cors
           | Inr data \<Rightarrow> file_response D p etag data cors mth))"

definition serve_static_file ::
  "static_env \<Rightarrow> string \<Rightarrow> string \<Rightarrow> bool \<Rightarrow> http_method \<Rightarrow> string option \<Rightarrow> static_world
     \<Rightarrow> http_response \<times> static_world"
where
  "serve_static_file D sub_path path cors mth if_none_match w =
     (if mth \<noteq> GET \<and> mth \<noteq> HEAD then (method_not_allowed cors, w)
      else
        let (static_path, w1) = get_static_path w in
        case resolve_safe_file_path static_path sub_path (requested_file path) of
          Inl e \<Rightarrow> (build_static_error 400 (anyhow_display e) cors, w1)
        | Inr resolved \<Rightarrow>
            (case locate_file D (sw_disk w1) resolved cors of
               Inl r \<Rightarrow> (r, w1)
             | Inr (p, len) \<Rightarrow> (serve_located D (sw_disk w1) p len cors mth if_none_match, w1)))"


section \<open>The bucket routes\<close>

definition cors_preflight :: http_response where
  "cors_preflight =
     \<lparr> hr_status = 204,
       hr_headers = [(''access-control-allow-origin'', ''*''),
                     (''access-control-allow-methods'', ''GET, HEAD, OPTIONS''),
                     (''access-control-allow-headers'', ''*'')],
       hr_body = BEmpty \<rparr>"

text \<open>\<open>path\<close> is \<^verbatim>\<open>/\<close> on the route of the bucket itself.\<close>

definition bucket_route ::
  "static_env \<Rightarrow> string \<Rightarrow> string \<Rightarrow> http_request \<Rightarrow> static_world \<Rightarrow> http_response \<times> static_world" where
  "bucket_route D name path rq w =
     (case sw_cache w of
        None \<Rightarrow> (build_http_error 500 ''StaticCache not initialized'', w)
      | Some c \<Rightarrow>
          (case get_by_name c name of
             None \<Rightarrow> (build_http_error 404 ''Static not found'', w)
           | Some m \<Rightarrow>
               if st_enable m
               then if rq_method rq = OPTIONS \<and> st_cors m then (cors_preflight, w)
                    else serve_static_file D (st_path m) (if path = [] then ''/'' else path)
                           (st_cors m) (rq_method rq) (rq_if_none_match rq) w
               else (build_http_error 404 ''Static not found'', w)))"


section \<open>WebDAV admission\<close>

definition get_or_create_dav_handler :: "string \<Rightarrow> path_buf \<Rightarrow> static_world \<Rightarrow> path_buf \<times> static_world" where
  "get_or_create_dav_handler bucket_name disk_path w =
     (case hm_get (sw_dav w) bucket_name of
        Some p \<Rightarrow> (p, w)
      | None \<Rightarrow> (disk_path, w\<lparr> sw_dav := hm_insert bucket_name disk_path (sw_dav w) \<rparr>))"

definition strip_string_prefix :: "string \<Rightarrow> string \<Rightarrow> string option" where
  "strip_string_prefix p s = (if starts_with s p then Some (drop (length p) s) else None)"

definition trim_end_char :: "char \<Rightarrow> string \<Rightarrow> string" where
  "trim_end_char c s = rev (dropWhile (\<lambda>x. x = c) (rev s))"

definition webdav_bucket_name :: "string \<Rightarrow> string" where
  "webdav_bucket_name uri_path =
     (let relative = (case strip_string_prefix ''/nodeget/static-webdav/'' uri_path of
                        Some r \<Rightarrow> r
                      | None \<Rightarrow> dropWhile (\<lambda>c. c = CHR ''/'') uri_path);
          name = (case split_once (CHR ''/'') relative of Some (a, _) \<Rightarrow> a | None \<Rightarrow> relative)
      in trim_end_char (CHR ''/'') name)"

definition utf8_text :: "byte list \<Rightarrow> string" where
  "utf8_text bs = map (\<lambda>b. char_of (unat b)) bs"

definition basic_credentials :: "static_env \<Rightarrow> http_request \<Rightarrow> string option" where
  "basic_credentials D rq =
     (case rq_authorization rq of
        Some (Some auth_str) \<Rightarrow>
          if starts_with auth_str ''Basic ''
          then (case se_decode D (drop 6 auth_str) of
                  Inl _ \<Rightarrow> None
                | Inr bytes \<Rightarrow> if se_utf8 D bytes then Some (utf8_text bytes) else None)
          else None
      | _ \<Rightarrow> None)"

definition webdav_identity :: "string \<Rightarrow> token_or_auth option" where
  "webdav_identity credentials =
     (let (username, password) =
            (case split_once (CHR '':'') credentials of Some p \<Rightarrow> p | None \<Rightarrow> (credentials, []))
      in case from_full_token (username @ '':'' @ password) of
           Inr t \<Rightarrow> Some t
         | Inl _ \<Rightarrow>
             (case from_full_token (username @ ''|'' @ password) of Inr t \<Rightarrow> Some t | Inl _ \<Rightarrow> None))"

definition webdav_permissions :: "permission list" where
  "webdav_permissions =
     map PStaticBucketFile
       [StaticBucketFile_Read, StaticBucketFile_Write, StaticBucketFile_Delete, StaticBucketFile_List]"

definition webdav_allowed :: "static_env \<Rightarrow> token_or_auth \<Rightarrow> string \<Rightarrow> http_response + unit" where
  "webdav_allowed D cred name =
     (if \<not> ck_registered (se_checker D)
      then Inl (build_webdav_error 500 ''PermissionChecker not initialized'')
      else
        (case ck_limit (se_checker D) cred [StaticBucket name] webdav_permissions of
           Inr True \<Rightarrow> Inr ()
         | _ \<Rightarrow> Inl (build_webdav_error 403 ''Forbidden: insufficient StaticBucketFile permissions'')))"

text \<open>Either an error, or the directory whose WebDAV handler takes the request.\<close>

definition static_webdav_handler ::
  "static_env \<Rightarrow> http_request \<Rightarrow> static_world \<Rightarrow> (http_response + path_buf) \<times> static_world" where
  "static_webdav_handler D rq w =
     (let name = webdav_bucket_name (rq_path rq) in
      if name = [] then (Inl (build_webdav_error 404 ''Missing bucket name in WebDAV URL''), w)
      else
        (case sw_cache w of
           None \<Rightarrow> (Inl (build_webdav_error 500 ''StaticCache not initialized''), w)
         | Some c \<Rightarrow>
             (case get_by_name c name of
                None \<Rightarrow> (Inl (build_webdav_error 404 ''Static bucket not found''), w)
              | Some m \<Rightarrow>
                  if \<not> st_enable m then (Inl (build_webdav_error 404 ''Static bucket not found''), w)
                  else
                    (case basic_credentials D rq of
                       None \<Rightarrow> (Inl build_webdav_auth_required, w)
                     | Some credentials \<Rightarrow>
                         (case webdav_identity credentials of
                            None \<Rightarrow> (Inl build_webdav_auth_required, w)
                          | Some cred \<Rightarrow>
                              (case webdav_allowed D cred name of
                                 Inl r \<Rightarrow> (Inl r, w)
                               | Inr _ \<Rightarrow>
                                   let (static_path, w1) = get_static_path w;
                                       (p, w2) = get_or_create_dav_handler name
                                                   (bucket_dir static_path (st_path m)) w1
                                   in (Inr p, w2)))))))"


section \<open>The bucket at the root\<close>

definition ascii_lower :: "char \<Rightarrow> char" where
  "ascii_lower c = (if 65 \<le> byte_of c \<and> byte_of c \<le> 90 then char_of (byte_of c + 32) else c)"

definition eq_ignore_ascii_case :: "string \<Rightarrow> string \<Rightarrow> bool" where
  "eq_ignore_ascii_case s t \<longleftrightarrow> map ascii_lower s = map ascii_lower t"

definition is_websocket_upgrade :: "http_request \<Rightarrow> bool" where
  "is_websocket_upgrade rq \<longleftrightarrow>
     (case rq_upgrade rq of None \<Rightarrow> False | Some v \<Rightarrow> eq_ignore_ascii_case v ''websocket'') \<and>
     (case rq_connection rq of
        None \<Rightarrow> False
      | Some v \<Rightarrow> list_ex (\<lambda>s. eq_ignore_ascii_case (trim s) ''upgrade'') (split_on (CHR '','') v))"

text \<open>The server's own \<^verbatim>\<open>build_static_error\<close> and \<^verbatim>\<open>serve_static_file\<close>.\<close>

definition root_static_error :: "nat \<Rightarrow> string \<Rightarrow> bool \<Rightarrow> http_response" where
  "root_static_error status message cors =
     \<lparr> hr_status = status, hr_headers = plain_text @ cors_header cors, hr_body = BText message \<rparr>"

definition root_locate_file :: "static_env \<Rightarrow> disk \<Rightarrow> path_buf \<Rightarrow> bool \<Rightarrow> http_response + path_buf \<times> nat" where
  "root_locate_file D d resolved cors =
     (case fs_metadata (se_os D) resolved d of
        Inr len \<Rightarrow> Inr (resolved, len)
      | Inl IoNotFound \<Rightarrow>
          (let index_html_path = resolved @ [Normal ''index.html''] in
           case fs_metadata (se_os D) index_html_path d of
             Inr len \<Rightarrow> Inr (index_html_path, len)
           | Inl _ \<Rightarrow> Inl (root_static_error 404 ''File not found'' cors))
      | Inl IoOther \<Rightarrow>
          Inl (root_static_error 500
                 (''Failed to stat file: '' @ os_text (se_os D) (OsMetadata resolved) IoOther) cors))"

definition root_serve_located ::
  "static_env \<Rightarrow> disk \<Rightarrow> path_buf \<Rightarrow> nat \<Rightarrow> bool \<Rightarrow> http_method \<Rightarrow> string option \<Rightarrow> http_response" where
  "root_serve_located D d p len cors mth if_none_match =
     (let etag = build_etag D p len in
      if if_none_match_is_match if_none_match etag then not_modified etag [] cors
      else
        (case fs_read (se_os D) p d of
           Inl _ \<Rightarrow> root_static_error 404 ''File not found'' cors
         | Inr data \<Rightarrow>
             \<lparr> hr_status = 200,
               hr_headers = [(''content-type'', guess_mime_type p), (''etag'', etag)] @ cors_header cors,
               hr_body = (if mth = HEAD then BEmpty else BBytes data) \<rparr>))"

definition root_serve_static_file ::
  "static_env \<Rightarrow> string \<Rightarrow> string \<Rightarrow> bool \<Rightarrow> http_method \<Rightarrow> string option \<Rightarrow> static_world
     \<Rightarrow> http_response \<times> static_world"
where
  "root_serve_static_file D sub_path path cors mth if_none_match w =
     (if mth \<noteq> GET \<and> mth \<noteq> HEAD then (method_not_allowed cors, w)
      else
        let (static_path, w1) = get_static_path w in
        case resolve_safe_file_path static_path sub_path (requested_file path) of
          Inl e \<Rightarrow> (root_static_error 400 (anyhow_display e) cors, w1)
        | Inr resolved \<Rightarrow>
            (case root_locate_file D (sw_disk w1) resolved cors of
               Inl r \<Rightarrow> (r, w1)
             | Inr (p, len) \<Rightarrow> (root_serve_located D (sw_disk w1) p len cors mth if_none_match, w1)))"

text \<open>What a route does with a request: hand it to the JSON-RPC service, or answer.\<close>

datatype route_outcome = ToRpc | Answer http_response

definition http_root :: "static_world \<Rightarrow> static_row option" where
  "http_root w = (case sw_cache w of None \<Rightarrow> None | Some c \<Rightarrow> get_http_root c)"

definition serve_root ::
  "static_env \<Rightarrow> static_row \<Rightarrow> http_request \<Rightarrow> static_world \<Rightarrow> route_outcome \<times> static_world" where
  "serve_root D m rq w =
     apfst Answer (root_serve_static_file D (st_path m) (rq_path rq) (st_cors m) (rq_method rq)
       (rq_if_none_match rq) w)"

definition handle_rpc_root ::
  "static_env \<Rightarrow> string \<Rightarrow> http_request \<Rightarrow> static_world \<Rightarrow> route_outcome \<times> static_world" where
  "handle_rpc_root D landing_html rq w =
     (if is_websocket_upgrade rq then (ToRpc, w)
      else if rq_method rq = GET
      then
        (case http_root w of
           Some m \<Rightarrow>
             if st_enable m then serve_root D m rq w
             else (Answer \<lparr> hr_status = 200, hr_headers = [(''content-type'', ''text/html; charset=utf-8'')],
                            hr_body = BText landing_html \<rparr>, w)
         | None \<Rightarrow>
             (Answer \<lparr> hr_status = 200, hr_headers = [(''content-type'', ''text/html; charset=utf-8'')],
                       hr_body = BText landing_html \<rparr>, w))
      else (ToRpc, w))"

definition fallback_route ::
  "static_env \<Rightarrow> http_request \<Rightarrow> static_world \<Rightarrow> route_outcome \<times> static_world" where
  "fallback_route D rq w =
     (if is_websocket_upgrade rq then (ToRpc, w)
      else (case http_root w of Some m \<Rightarrow> serve_root D m rq w | None \<Rightarrow> (ToRpc, w)))"

end
