(* ===== verification/Static_Props.thy ===== *)
theory Static_Props
  imports Static_Http
begin

text \<open>
  What holds of the buckets: every reachable table and cache is well formed, file
  operations and HTTP answers stay below the directory of their bucket, and three
  behaviours of the code that its documentation rules out.
\<close>


section \<open>Well-formed tables and caches\<close>

definition static_row_ok :: "static_row \<Rightarrow> bool" where
  "static_row_ok r \<longleftrightarrow> validate_name (st_name r) = Inr () \<and> validate_sub_path (st_path r) = Inr ()"

definition http_root_key :: "static_row \<Rightarrow> unit option" where
  "http_root_key r = (if st_is_http_root r then Some () else None)"

definition static_rows_ok :: "static_row list \<Rightarrow> bool" where
  "static_rows_ok rows \<longleftrightarrow>
     list_all static_row_ok rows \<and> unique_on (\<lambda>r. Some (st_id r)) rows \<and>
     unique_on (\<lambda>r. Some (st_name r)) rows \<and> unique_on http_root_key rows"

definition static_cache_ok :: "static_cache \<Rightarrow> bool" where
  "static_cache_ok c \<longleftrightarrow>
     hm_wf (sc_by_name c) \<and>
     list_all (\<lambda>(name, m). st_name m = name \<and> static_row_ok m \<and>
        (st_is_http_root m \<longleftrightarrow> sc_http_root_name c = Some name)) (sc_by_name c) \<and>
     (case sc_http_root_name c of None \<Rightarrow> True | Some name \<Rightarrow> static_exists c name)"

definition static_world_ok :: "static_world \<Rightarrow> bool" where
  "static_world_ok w \<longleftrightarrow>
     static_rows_ok (sw_rows w) \<and>
     (case sw_cache w of None \<Rightarrow> True | Some c \<Rightarrow> static_cache_ok c)"

primrec static_run :: "(static_env \<times> string \<times> static_request) list \<Rightarrow> static_world \<Rightarrow> static_world" where
  "static_run [] w = w"
| "static_run (r # rs) w = static_run rs (snd (static_rpc (fst r) (fst (snd r)) (snd (snd r)) w))"

primrec changes_buckets :: "static_request \<Rightarrow> bool" where
  "changes_buckets (BucketCreate _ _ _ _) = True"
| "changes_buckets (BucketRead _) = False"
| "changes_buckets (BucketUpdate _ _ _ _ _) = True"
| "changes_buckets (BucketDelete _) = True"
| "changes_buckets BucketList = False"
| "changes_buckets (FileUpload _ _ _ _) = False"
| "changes_buckets (FileRead _ _) = False"
| "changes_buckets (FileDelete _ _) = False"
| "changes_buckets (FileRename _ _ _) = False"
| "changes_buckets (FileList _) = False"


subsection \<open>The table\<close>

lemma insert_static_ok:
  assumes "insert_static D m rows = Inr rows'" "static_rows_ok rows" "static_row_ok m"
  shows "static_rows_ok rows'"
proof -
  have r: "rows' = rows @ [m]" and nc: "\<not> static_conflict m rows"
    using assms(1) by (auto simp: insert_static_def split: option.splits if_splits)
  with assms(2,3) show ?thesis
    by (auto simp: static_rows_ok_def static_conflict_def list_ex_iff unique_on_snoc http_root_key_def)
qed

lemma delete_rows_ok: "static_rows_ok rows \<Longrightarrow> static_rows_ok (tbl_delete P rows)"
  by (auto simp: static_rows_ok_def list_all_iff)

lemma unique_on_replace:
  assumes "unique_on f rows" "\<And>r. r \<in> set rows \<Longrightarrow> st_id r \<noteq> st_id m \<Longrightarrow> f m = None \<or> f r \<noteq> f m"
    and "unique_on (\<lambda>r. Some (st_id r)) rows"
  shows "unique_on f (tbl_update (\<lambda>r. st_id r = st_id m) (\<lambda>_. m) rows)"
  using assms
proof (induction rows)
  case (Cons r rows)
  have ih: "unique_on f (tbl_update (\<lambda>r. st_id r = st_id m) (\<lambda>_. m) rows)"
    using Cons by (auto simp: unique_on_Cons)
  show ?case
  proof (cases "st_id r = st_id m")
    case True
    then have "\<forall>r'\<in>set rows. st_id r' \<noteq> st_id m" using Cons.prems(3) by (auto simp: unique_on_Cons)
    with True ih Cons.prems(2) show ?thesis
      by (auto simp: tbl_update_def unique_on_Cons)
  next
    case False
    with ih Cons.prems(1) Cons.prems(2) [of r] show ?thesis
      by (auto simp: tbl_update_def unique_on_Cons)
  qed
qed (simp add: tbl_update_def)

lemma update_static_row_ok:
  assumes "update_static_row D m rows = Inr rows'" "static_rows_ok rows" "static_row_ok m"
  shows "static_rows_ok rows'"
proof -
  have r: "rows' = tbl_update (\<lambda>r. st_id r = st_id m) (\<lambda>_. m) rows"
    and nc: "\<not> static_conflict m (tbl_delete (\<lambda>r. st_id r = st_id m) rows)"
    using assms(1) by (auto simp: update_static_row_def split: option.splits if_splits)
  have ids: "unique_on (\<lambda>r. Some (st_id r)) rows" using assms(2) by (simp add: static_rows_ok_def)
  have "unique_on (\<lambda>r. Some (st_id r)) rows'" "unique_on (\<lambda>r. Some (st_name r)) rows'"
    "unique_on http_root_key rows'"
    unfolding r using assms(2) nc
    by (auto intro!: unique_on_replace [OF _ _ ids]
        simp: static_rows_ok_def static_conflict_def list_ex_iff http_root_key_def)
  moreover have "list_all static_row_ok rows'"
    using assms(2,3) by (auto simp: r static_rows_ok_def list_all_iff)
  ultimately show ?thesis by (simp add: static_rows_ok_def)
qed


subsection \<open>The cache\<close>

lemma fold_add_static_get:
  "unique_on (\<lambda>r. Some (st_name r)) ms \<Longrightarrow>
     hm_get (sc_by_name (fold add_static ms c)) name =
       (case tbl_find (\<lambda>r. st_name r = name) ms of
          Some m \<Rightarrow> Some m
        | None \<Rightarrow> hm_get (sc_by_name c) name)"
proof (induction ms arbitrary: c)
  case (Cons m ms)
  show ?case
  proof (cases "st_name m = name")
    case True
    then have "tbl_find (\<lambda>r. st_name r = name) ms = None"
      using Cons.prems by (auto simp: unique_on_Cons tbl_find_None)
    with True Cons show ?thesis by (simp add: unique_on_Cons add_static_def)
  next
    case False
    with Cons show ?thesis by (simp add: unique_on_Cons add_static_def split: option.splits)
  qed
qed simp

lemma fold_add_static_root:
  "sc_http_root_name (fold add_static ms c) =
     (case sc_http_root_name c of
        Some n \<Rightarrow> Some n
      | None \<Rightarrow> map_option st_name (tbl_find st_is_http_root ms))"
  by (induction ms arbitrary: c) (auto simp: add_static_def split: option.splits)

lemma fold_add_static_wf: "hm_wf (sc_by_name c) \<Longrightarrow> hm_wf (sc_by_name (fold add_static ms c))"
  by (induction ms arbitrary: c) (auto simp: add_static_def)

lemma static_maps_get:
  "static_rows_ok rows \<Longrightarrow>
     hm_get (sc_by_name (static_build_maps rows)) name = tbl_find (\<lambda>r. st_name r = name) rows"
  by (simp add: static_build_maps_def fold_add_static_get static_rows_ok_def split: option.splits)

lemma static_maps_root:
  "sc_http_root_name (static_build_maps rows) = map_option st_name (tbl_find st_is_http_root rows)"
  by (simp add: static_build_maps_def fold_add_static_root)

lemma static_maps_ok:
  assumes ok: "static_rows_ok rows"
  shows "static_cache_ok (static_build_maps rows)"
proof -
  let ?c = "static_build_maps rows"
  have wf: "hm_wf (sc_by_name ?c)" by (simp add: static_build_maps_def fold_add_static_wf)
  have ent: "m \<in> set rows \<and> st_name m = name" if "(name, m) \<in> set (sc_by_name ?c)" for name m
    using that ok by (auto simp: hm_get_iff_mem [OF wf, symmetric] static_maps_get dest: tbl_find_Some)
  have root: "st_is_http_root m \<longleftrightarrow> sc_http_root_name ?c = Some (st_name m)" if m: "m \<in> set rows" for m
  proof
    assume h: "st_is_http_root m"
    then obtain r where r: "tbl_find st_is_http_root rows = Some r"
      using m by (cases "tbl_find st_is_http_root rows") (auto simp: tbl_find_None)
    then have "r \<in> set rows" "st_is_http_root r" by (auto dest: tbl_find_Some)
    then have "r = m"
      using ok m h unique_onD [of http_root_key rows r m "()"] by (simp add: static_rows_ok_def http_root_key_def)
    with r show "sc_http_root_name ?c = Some (st_name m)" by (simp add: static_maps_root)
  next
    assume "sc_http_root_name ?c = Some (st_name m)"
    then obtain r where r: "tbl_find st_is_http_root rows = Some r" "st_name r = st_name m"
      by (auto simp: static_maps_root)
    then have "r \<in> set rows" "st_is_http_root r" by (auto dest: tbl_find_Some)
    then show "st_is_http_root m"
      using ok m r(2) unique_onD [of "\<lambda>r. Some (st_name r)" rows r m "st_name m"]
      by (simp add: static_rows_ok_def)
  qed
  have "static_exists ?c name" if "sc_http_root_name ?c = Some name" for name
    using that ok
    by (auto simp: static_exists_def static_maps_get static_maps_root tbl_find_None dest: tbl_find_Some)
  moreover have "static_row_ok m" if "m \<in> set rows" for m
    using ok that by (simp add: static_rows_ok_def list_all_iff)
  ultimately show ?thesis
    using wf ent root by (auto simp: static_cache_ok_def list_all_iff split: option.splits)
qed


subsection \<open>What the operations keep\<close>

definition tables_kept :: "static_world \<Rightarrow> static_world \<Rightarrow> bool" where
  "tables_kept w w' \<longleftrightarrow> sw_rows w' = sw_rows w \<and> sw_cache w' = sw_cache w \<and> sw_ready w' = sw_ready w"

lemma tables_kept_refl [simp, intro]: "tables_kept w w"
  by (simp add: tables_kept_def)

lemma tables_kept_trans: "tables_kept w w1 \<Longrightarrow> tables_kept w1 w2 \<Longrightarrow> tables_kept w w2"
  by (simp add: tables_kept_def)

lemma tables_kept_disk [simp]: "tables_kept w (w'\<lparr> sw_disk := d \<rparr>) \<longleftrightarrow> tables_kept w w'"
  by (simp add: tables_kept_def)

lemma get_static_path_world:
  "get_static_path w = (static_path, w1) \<Longrightarrow> w1 = w\<lparr> sw_static_path := static_path \<rparr>"
  by (auto simp: get_static_path_def reload_static_path_def Let_def split: if_splits)

lemma get_static_path_kept: "get_static_path w = (static_path, w1) \<Longrightarrow> tables_kept w w1 \<and> sw_disk w1 = sw_disk w"
  by (auto dest!: get_static_path_world simp: tables_kept_def)

lemma ensure_bucket_dir_kept: "tables_kept w (ensure_bucket_dir D sub_path w)"
  by (auto simp: ensure_bucket_dir_def split: prod.splits sum.splits dest: get_static_path_kept)

lemma delete_bucket_dir_kept: "tables_kept w (snd (delete_static_bucket_dir D sub_path w))"
  by (auto simp: delete_static_bucket_dir_def Let_def split: prod.splits sum.splits dest: get_static_path_kept)

lemma upload_file_kept: "tables_kept w (snd (upload_file D name file_path body base64 w))"
  by (auto simp: upload_file_def Let_def split: prod.splits sum.splits dest: get_static_path_kept)

lemma read_file_world: "snd (read_file D name file_path w) = w \<or> snd (read_file D name file_path w) = snd (get_static_path w)"
  by (auto simp: read_file_def split: prod.splits sum.splits)

lemma delete_file_kept: "tables_kept w (snd (delete_file D name file_path w))"
  by (auto simp: delete_file_def split: prod.splits sum.splits io_kind.splits dest: get_static_path_kept)

lemma rename_file_kept: "tables_kept w (snd (rename_file D name from to w))"
  by (auto simp: rename_file_def rename_resolved_def Let_def split: prod.splits sum.splits
      dest: get_static_path_kept)

lemma list_file_kept: "tables_kept w (snd (list_file D name w))"
  by (auto simp: list_file_def split: prod.splits sum.splits dest: get_static_path_kept)

lemma read_file_kept: "tables_kept w (snd (read_file D name file_path w))"
  using read_file_world [of D name file_path w] get_static_path_kept [of w "fst (get_static_path w)"]
  by (metis tables_kept_refl prod.collapse)

lemma static_handler_world:
  "snd (static_handler allowed answer work w) = w \<or> snd (static_handler allowed answer work w) = snd (work w)"
  by (auto simp: static_handler_def split: sum.splits prod.splits)

lemma static_handler_ok:
  "static_handler allowed answer work w = (Inr a, w') \<longleftrightarrow>
     allowed = Inr () \<and> (\<exists>x. work w = (Inr x, w') \<and> a = answer x)"
  by (auto simp: static_handler_def split: sum.splits prod.splits)

lemma handler_kept: "tables_kept w (snd (work w)) \<Longrightarrow> tables_kept w (snd (static_handler allowed answer work w))"
  using static_handler_world [of allowed answer work w] by auto

lemma other_requests_keep:
  "\<not> changes_buckets req \<Longrightarrow> tables_kept w (snd (static_rpc D tok req w))"
  by (cases req)
    (auto simp: rpc_read_def rpc_list_def upload_file_rpc_def read_file_rpc_def delete_file_rpc_def
       rename_file_rpc_def list_file_rpc_def
       intro: handler_kept upload_file_kept read_file_kept delete_file_kept rename_file_kept list_file_kept)

lemma tables_kept_ok: "tables_kept w w' \<Longrightarrow> static_world_ok w \<Longrightarrow> static_world_ok w'"
  by (simp add: tables_kept_def static_world_ok_def)


subsection \<open>The operations that change the table\<close>

lemma reload_world:
  assumes "static_cache_reload D w = (r, w')"
  shows "w' = w \<or> w' = static_reload_from_models (sw_rows w) w"
  using assms
  by (auto simp: static_cache_reload_def cache_reload_def static_load_all_def split: if_splits sum.splits)

lemma static_reload_ok:
  assumes "static_cache_reload D w = (r, w')" "static_world_ok w"
  shows "static_world_ok w'"
  using reload_world [OF assms(1)] assms(2) static_maps_ok [of "sw_rows w"]
  by (auto simp: static_world_ok_def static_reload_from_models_def split: option.splits)

lemma static_reload_coherent:
  assumes "static_cache_reload D w = (Inr u, w')" "sw_cache w \<noteq> None"
  shows "static_coherent (sw_rows w') w'"
proof -
  have "cache_reload static_is_set (static_load_all D) static_reload_from_models w = (Inr (), w')" "static_is_set w"
    using assms by (simp_all add: static_cache_reload_def static_is_set_def)
  from static_db_cache.reload_ok [OF this] show ?thesis ..
qed

lemma clear_dav_ok [simp]:
  "static_world_ok (clear_dav_handler_cache w) = static_world_ok w"
  "static_coherent rows (clear_dav_handler_cache w) = static_coherent rows w"
  "sw_rows (clear_dav_handler_cache w) = sw_rows w"
  by (simp_all add: clear_dav_handler_cache_def static_world_ok_def static_coherent_def)

text \<open>
  The three operations end alike: the table is replaced, the disk follows, the cache
  is reloaded.
\<close>

lemma rows_replaced_ok:
  assumes "static_world_ok w" "static_rows_ok rows'" "tables_kept (w\<lparr> sw_rows := rows' \<rparr>) w1"
    and "static_cache_reload D w1 = (r, w2)"
  shows "static_world_ok w2" "r = Inr u \<Longrightarrow> sw_cache w \<noteq> None \<Longrightarrow> static_coherent (sw_rows w2) w2"
proof -
  have "static_world_ok w1" using assms(1-3) by (simp add: static_world_ok_def tables_kept_def)
  with assms(4) show "static_world_ok w2" by (rule static_reload_ok)
  show "static_coherent (sw_rows w2) w2" if "r = Inr u" "sw_cache w \<noteq> None"
    using static_reload_coherent [of D w1 u w2] assms(3,4) that by (simp add: tables_kept_def)
qed

lemma create_static_ok:
  assumes "create_static D name path is_http_root cors w = (r, w')" "static_world_ok w"
  shows "static_world_ok w' \<and>
    (\<forall>m. r = Inr m \<longrightarrow> static_row_ok m \<and> (sw_cache w \<noteq> None \<longrightarrow> static_coherent (sw_rows w') w'))"
proof (cases "create_static_checks D (trim name) (trim path) is_http_root w")
  case (Inl e)
  with assms show ?thesis by (auto simp: create_static_def)
next
  case (Inr u)
  let ?m = "\<lparr> st_id = se_new_id D, st_name = trim name, st_path = trim path,
              st_is_http_root = is_http_root, st_cors = cors, st_enable = True \<rparr>"
  have m: "static_row_ok ?m"
    using Inr by (auto simp: create_static_checks_def static_row_ok_def result_simps)
  show ?thesis
  proof (cases "insert_static D ?m (sw_rows w)")
    case Inl
    with assms Inr show ?thesis by (auto simp: create_static_def Let_def)
  next
    case (Inr rows')
    note ins = this
    have rows: "static_rows_ok rows'"
      using insert_static_ok [OF ins _ m] assms(2) by (simp add: static_world_ok_def)
    obtain r1 w1 where rl: "static_cache_reload D (ensure_bucket_dir D (trim path) (w\<lparr> sw_rows := rows' \<rparr>)) = (r1, w1)"
      by fastforce
    note rep = rows_replaced_ok [OF assms(2) rows ensure_bucket_dir_kept rl]
    from assms(1) \<open>create_static_checks _ _ _ _ _ = _\<close> ins rl
    have "w' = w1 \<and> (\<forall>m'. r = Inr m' \<longrightarrow> m' = ?m \<and> r1 = Inr ())"
      by (auto simp: create_static_def Let_def split: sum.splits)
    with rep m show ?thesis by auto
  qed
qed

lemma update_static_checksD:
  assumes "update_static_checks D name path is_http_root w = Inr old"
  shows "validate_sub_path path = Inr () \<and> old \<in> set (sw_rows w) \<and> st_name old = name"
proof -
  have "validate_sub_path path = Inr ()" "find_static_row D name w = Inr old"
    using assms
    by (auto simp: update_static_checks_def another_root_def result_simps split: if_splits)
  then show ?thesis
    by (auto simp: find_static_row_def result_simps static_query_def split: option.splits dest: tbl_find_Some)
qed

lemma update_static_ok:
  assumes "update_static D name path is_http_root cors enable w = (r, w')" "static_world_ok w"
  shows "static_world_ok w' \<and>
    (\<forall>m. r = Inr m \<longrightarrow> static_row_ok m \<and> (sw_cache w \<noteq> None \<longrightarrow> static_coherent (sw_rows w') w'))"
proof (cases "update_static_checks D (trim name) (trim path) is_http_root w")
  case (Inl e)
  then have "update_static D name path is_http_root cors enable w = (Inl e, w)"
    unfolding update_static_def Let_def by (simp only: sum.case)
  with assms show ?thesis by auto
next
  case (Inr old)
  define m where "m = old\<lparr> st_path := trim path, st_is_http_root := is_http_root, st_cors := cors,
                 st_enable := (case enable of Some v \<Rightarrow> v | None \<Rightarrow> st_enable old) \<rparr>"
  note checks = Inr
  have "static_row_ok old"
    using update_static_checksD [OF checks] assms(2)
    by (simp add: static_world_ok_def static_rows_ok_def list_all_iff)
  with update_static_checksD [OF checks] have m: "static_row_ok m"
    by (simp add: m_def static_row_ok_def)
  show ?thesis
  proof (cases "update_static_row D m (sw_rows w)")
    case (Inl a)
    then have "update_static D name path is_http_root cors enable w =
        (err (DatabaseError (''Failed to update static: '' @ se_display D a)), w)"
      unfolding update_static_def Let_def checks sum.case m_def [symmetric] by (simp only: sum.case)
    with assms show ?thesis by auto
  next
    case (Inr rows')
    note upd = this
    have rows: "static_rows_ok rows'"
      using update_static_row_ok [OF upd _ m] assms(2) by (simp add: static_world_ok_def)
    obtain r1 w1 where rl: "static_cache_reload D (ensure_bucket_dir D (trim path) (w\<lparr> sw_rows := rows' \<rparr>)) = (r1, w1)"
      by fastforce
    note rep = rows_replaced_ok [OF assms(2) rows ensure_bucket_dir_kept rl]
    have "update_static D name path is_http_root cors enable w =
        (case r1 of Inl e \<Rightarrow> (Inl e, w1) | Inr _ \<Rightarrow> (Inr m, clear_dav_handler_cache w1))"
      unfolding update_static_def Let_def checks sum.case m_def [symmetric] upd rl prod.case ..
    with assms(1)
    have w': "w' = w1 \<or> w' = clear_dav_handler_cache w1" and r: "r = Inr m' \<Longrightarrow> m' = m \<and> r1 = Inr ()" for m'
      by (auto split: sum.splits)
    have "static_world_ok w'" using w' rep(1) by (elim disjE) simp_all
    moreover have "static_row_ok m' \<and> (sw_cache w \<noteq> None \<longrightarrow> static_coherent (sw_rows w') w')" if "r = Inr m'" for m'
      using r [OF that] w' m rep(2) by (elim disjE) simp_all
    ultimately show ?thesis by blast
  qed
qed

lemma delete_static_ok:
  assumes "delete_static D name w = (r, w')" "static_world_ok w"
  shows "static_world_ok w' \<and> (r = Inr () \<longrightarrow> sw_cache w \<noteq> None \<longrightarrow> static_coherent (sw_rows w') w')"
proof (cases "delete_static_checks D (trim name) w")
  case (Inl e)
  with assms show ?thesis by (auto simp: delete_static_def)
next
  case (Inr m)
  let ?rows = "tbl_delete (\<lambda>r. st_id r = st_id m) (sw_rows w)"
  have rows: "static_rows_ok ?rows" using assms(2) by (simp add: static_world_ok_def delete_rows_ok)
  obtain r1 w1 where rl: "static_cache_reload D
      (snd (delete_static_bucket_dir D (st_path m) (w\<lparr> sw_rows := ?rows \<rparr>))) = (r1, w1)"
    by fastforce
  note rep = rows_replaced_ok [OF assms(2) rows delete_bucket_dir_kept rl]
  from assms(1) Inr rl
  have "(w' = w1 \<or> w' = clear_dav_handler_cache w1) \<and> (r = Inr () \<longrightarrow> r1 = Inr ())"
    by (auto simp: delete_static_def Let_def split: sum.splits)
  with rep show ?thesis by auto
qed


subsection \<open>Every reachable state\<close>

lemma handler_world_ok:
  "static_world_ok w \<Longrightarrow> static_world_ok (snd (work w)) \<Longrightarrow> static_world_ok (snd (static_handler allowed answer work w))"
  using static_handler_world [of allowed answer work w] by auto

lemma static_rpc_ok:
  assumes "static_world_ok w"
  shows "static_world_ok (snd (static_rpc D tok req w))"
proof -
  have c: "static_world_ok (snd (create_static D n p b b' w))" for n p b b'
    using create_static_ok [of D n p b b' w] assms by (cases "create_static D n p b b' w") auto
  have u: "static_world_ok (snd (update_static D n p b b' e w))" for n p b b' e
    using update_static_ok [of D n p b b' e w] assms by (cases "update_static D n p b b' e w") auto
  have d: "static_world_ok (snd (delete_static D n w))" for n
    using delete_static_ok [of D n w] assms by (cases "delete_static D n w") auto
  show ?thesis
  proof (cases "changes_buckets req")
    case False
    from tables_kept_ok [OF other_requests_keep [OF this] assms] show ?thesis .
  next
    case True
    then show ?thesis
      by (cases req) (simp_all add: rpc_create_def rpc_update_def rpc_delete_def handler_world_ok assms c u d)
  qed
qed

lemma static_run_ok: "static_world_ok w \<Longrightarrow> static_world_ok (static_run reqs w)"
  by (induction reqs arbitrary: w) (simp_all add: static_rpc_ok)

lemma static_rpc_coherent:
  assumes "static_world_ok w" "sw_cache w \<noteq> None" "changes_buckets req"
    and "static_rpc D tok req w = (Inr a, w')"
  shows "static_coherent (sw_rows w') w'"
proof (cases req)
  case (BucketCreate name path b cors)
  with assms(4) obtain m where "create_static D name path b cors w = (Inr m, w')"
    by (auto simp: rpc_create_def static_handler_ok)
  with create_static_ok assms(1,2) show ?thesis by blast
next
  case (BucketUpdate name path b cors e)
  with assms(4) obtain m where "update_static D name path b cors e w = (Inr m, w')"
    by (auto simp: rpc_update_def static_handler_ok)
  with update_static_ok assms(1,2) show ?thesis by blast
next
  case (BucketDelete name)
  with assms(4) have "delete_static D name w = (Inr (), w')"
    by (auto simp: rpc_delete_def static_handler_ok)
  with delete_static_ok assms(1,2) show ?thesis by blast
qed (use assms(3) in simp_all)



section \<open>Confinement\<close>

text \<open>A resolved path is the directory of the bucket followed by plain file names.\<close>

lemma resolve_safe_shape:
  assumes "resolve_safe_file_path static_path sub_path file_path = Inr r"
  shows "\<exists>ns. r = bucket_dir static_path sub_path @ ns \<and> (\<forall>n\<in>set ns. is_normal n \<and> file_name_ok n)"
proof -
  let ?B = "bucket_dir static_path sub_path"
  have r: "resolve_components ?B (components file_path) = Inr r" "prefix ?B r"
    using assms by (auto simp: resolve_safe_file_path_def path_traversal_def Let_def result_simps split: if_splits)
  obtain p ms where p: "r = p @ ms" "prefix p ?B" "\<forall>n\<in>set ms. is_normal n \<and> n \<in> set (components file_path)"
    using resolve_components_shape [OF r(1)] by blast
  obtain q ns where "?B = p @ q" "r = ?B @ ns" using p(2) r(2) by (auto elim!: prefixE)
  moreover from this p(1) have "ms = q @ ns" by simp
  ultimately show ?thesis using p(3) components_file_name_ok by auto
qed

lemma resolve_safe_prefix:
  "resolve_safe_file_path static_path sub_path file_path = Inr r \<Longrightarrow> prefix (bucket_dir static_path sub_path) r"
  by (auto dest: resolve_safe_shape)

definition static_root :: "static_world \<Rightarrow> string" where
  "static_root w = fst (get_static_path w)"

definition bucket_of :: "string \<Rightarrow> static_world \<Rightarrow> static_row option" where
  "bucket_of name w = (case sw_cache w of None \<Rightarrow> None | Some c \<Rightarrow> get_by_name c name)"

definition bucket_root :: "static_world \<Rightarrow> static_row \<Rightarrow> path_buf" where
  "bucket_root w m = bucket_dir (static_root w) (st_path m)"

definition file_at :: "static_world \<Rightarrow> path_buf \<Rightarrow> byte list option" where
  "file_at w p = hm_get (dk_files (sw_disk w)) p"

lemma file_at_static_path [simp]:
  "get_static_path w = (sp, w1) \<Longrightarrow> file_at w1 p = file_at w p"
  using get_static_path_kept [of w sp w1] by (simp add: file_at_def)

lemma static_root_eq: "get_static_path w = (sp, w1) \<Longrightarrow> static_root w = sp"
  by (simp add: static_root_def)

lemma lookup_static_bucket: "lookup_static name w = Inr m \<Longrightarrow> bucket_of name w = Some m \<and> validate_name name = Inr ()"
  by (auto simp: lookup_static_def static_global_def bucket_of_def result_simps split: option.splits)

lemma create_parent_files [simp]: "dk_files (create_parent D p d) = dk_files d"
  by (auto simp: create_parent_def fs_create_dir_all_def os_call_fails_def split: option.splits sum.splits if_splits)

lemma fs_write_other: "q \<noteq> p \<Longrightarrow> hm_get (dk_files (snd (fs_write E p data d))) q = hm_get (dk_files d) q"
  by (auto simp: fs_write_def split: option.splits)

lemma fs_remove_other:
  "fs_remove_file E p d = Inr d' \<Longrightarrow> q \<noteq> p \<Longrightarrow> hm_get (dk_files d') q = hm_get (dk_files d) q"
  by (auto simp: fs_remove_file_def os_call_fails_def split: option.splits if_splits)

lemma hm_get_map_keys:
  assumes "\<And>p. f p = q \<longleftrightarrow> p = q"
  shows "hm_get (map (\<lambda>(p, x). (f p, x)) m) q = hm_get m q"
proof (induction m)
  case (Cons e m)
  obtain p x where e: "e = (p, x)" by fastforce
  show ?case
  proof (cases "p = q")
    case True
    then have "f p = q" using assms by simp
    with True show ?thesis by (simp add: e hm_get_def)
  next
    case False
    then have "f p \<noteq> q" using assms by simp
    with False Cons show ?thesis by (simp add: e hm_get_def)
  qed
qed (simp add: hm_get_def)

lemma fs_rename_other:
  assumes "fs_rename E a b d = Inr d'" "prefix B a" "prefix B b" "\<not> prefix B q"
  shows "hm_get (dk_files d') q = hm_get (dk_files d) q"
proof -
  have q: "q \<noteq> a" "q \<noteq> b" "\<not> prefix a q" using assms(2-4) by (auto intro: prefix_order.trans)
  have mv: "moved a b p = q \<longleftrightarrow> p = q" for p
    using q assms(3,4) by (auto simp: moved_def prefix_def)
  from assms(1) have "dk_files d' = map (\<lambda>(p, x). (moved a b p, x)) (dk_files d)
      \<or> (\<exists>data. dk_files d' = hm_insert b data (hm_remove a (dk_files d)))"
    by (auto simp: fs_rename_def os_call_fails_def split: option.splits if_splits)
  then show ?thesis using q hm_get_map_keys [of "moved a b" q, OF mv] by auto
qed

lemma upload_file_confined:
  assumes "bucket_of name w = Some m" "\<not> prefix (bucket_root w m) q"
  shows "file_at (snd (upload_file D name file_path body base64 w)) q = file_at w q"
proof (cases "upload_checks D name body base64 w")
  case (Inr md)
  then have m: "fst md = m"
    using assms(1) by (auto simp: upload_checks_def result_simps split: if_splits dest!: lookup_static_bucket)
  obtain sp w1 where g: "get_static_path w = (sp, w1)" by fastforce
  show ?thesis
  proof (cases "resolve_safe_file_path sp (st_path m) file_path")
    case (Inr r)
    then have "q \<noteq> r"
      using resolve_safe_prefix assms(2) static_root_eq [OF g] by (auto simp: bucket_root_def)
    then show ?thesis
      using \<open>upload_checks D name body base64 w = Inr md\<close> m g Inr fs_write_other [of q r "se_os D" "snd md"]
        file_at_static_path [OF g, of q]
      by (auto simp: upload_file_def Let_def file_at_def split: prod.splits sum.splits) (metis create_parent_files snd_conv)+
  qed (use \<open>upload_checks D name body base64 w = Inr md\<close> m g in \<open>auto simp: upload_file_def split: prod.splits\<close>)
qed (simp add: upload_file_def)

lemma delete_file_confined:
  assumes "bucket_of name w = Some m" "\<not> prefix (bucket_root w m) q"
  shows "file_at (snd (delete_file D name file_path w)) q = file_at w q"
proof (cases "lookup_static name w")
  case (Inr m')
  then have m: "m' = m" using assms(1) by (auto dest: lookup_static_bucket)
  obtain sp w1 where g: "get_static_path w = (sp, w1)" by fastforce
  show ?thesis
  proof (cases "resolve_safe_file_path sp (st_path m) file_path")
    case (Inr r)
    then have "q \<noteq> r"
      using resolve_safe_prefix assms(2) static_root_eq [OF g] by (auto simp: bucket_root_def)
    then show ?thesis
      using \<open>lookup_static name w = Inr m'\<close> m g Inr fs_remove_other file_at_static_path [OF g, of q]
      by (auto simp: delete_file_def file_at_def split: sum.splits io_kind.splits)
  qed (use \<open>lookup_static name w = Inr m'\<close> m g in \<open>auto simp: delete_file_def\<close>)
qed (simp add: delete_file_def)

lemma rename_resolved_confined:
  assumes "prefix B a" "prefix B b" "\<not> prefix B q"
  shows "file_at (snd (rename_resolved D from a b w)) q = file_at w q"
  using assms fs_rename_other
  by (auto simp: rename_resolved_def file_at_def Let_def split: sum.splits)

lemma rename_file_confined:
  assumes "bucket_of name w = Some m" "\<not> prefix (bucket_root w m) q"
  shows "file_at (snd (rename_file D name from to w)) q = file_at w q"
proof (cases "lookup_static name w")
  case (Inr m')
  then have m: "m' = m" using assms(1) by (auto dest: lookup_static_bucket)
  obtain sp w1 where g: "get_static_path w = (sp, w1)" by fastforce
  have B: "bucket_root w m = bucket_dir sp (st_path m)" by (simp add: bucket_root_def static_root_eq [OF g])
  show ?thesis
    using Inr m g assms(2) rename_resolved_confined [OF resolve_safe_prefix resolve_safe_prefix]
    by (auto simp: rename_file_def B result_simps split: sum.splits)
qed (simp add: rename_file_def)


lemma fs_read_ok: "fs_read E p d = Inr data \<Longrightarrow> hm_get (dk_files d) p = Some data"
  by (auto simp: fs_read_def os_call_fails_def split: option.splits if_splits)

lemma fs_metadata_file:
  "fs_metadata E p d = Inr len \<Longrightarrow> hm_get (dk_files d) p = Some data \<Longrightarrow> len = length data"
  by (auto simp: fs_metadata_def os_call_fails_def split: option.splits)

lemma read_resolved_ok:
  assumes "read_resolved D file_path r d = Inr s"
  shows "\<exists>data. hm_get (dk_files d) r = Some data \<and> s = se_encode D data \<and> length data \<le> MAX_STATIC_FILE_SIZE"
proof -
  obtain len data where h: "fs_metadata (se_os D) r d = Inr len" "\<not> len > MAX_STATIC_FILE_SIZE"
      "fs_read (se_os D) r d = Inr data" "s = se_encode D data"
    using assms
    by (auto simp: read_resolved_def file_io_err_def io_err_def split: sum.splits if_splits)
  with fs_read_ok [OF h(3)] fs_metadata_file [OF h(1)] show ?thesis by auto
qed

definition inside :: "static_world \<Rightarrow> static_row \<Rightarrow> path_buf \<Rightarrow> bool" where
  "inside w m p \<longleftrightarrow>
     prefix (bucket_root w m) p \<and>
     list_all (\<lambda>n. is_normal n \<and> file_name_ok n) (drop (length (bucket_root w m)) p)"

lemma resolve_inside:
  "resolve_safe_file_path (static_root w) (st_path m) file_path = Inr r \<Longrightarrow> inside w m r"
  by (drule resolve_safe_shape) (auto simp: inside_def bucket_root_def list_all_iff)

lemma read_file_inside:
  assumes "read_file D name file_path w = (Inr s, w')"
  shows "\<exists>m p data. bucket_of name w = Some m \<and> inside w m p \<and> file_at w p = Some data \<and>
    s = se_encode D data \<and> length data \<le> MAX_STATIC_FILE_SIZE"
proof -
  obtain m where m: "lookup_static name w = Inr m"
    using assms by (auto simp: read_file_def split: sum.splits)
  obtain sp w1 where g: "get_static_path w = (sp, w1)" by fastforce
  obtain r where r: "resolve_safe_file_path sp (st_path m) file_path = Inr r"
      "read_resolved D file_path r (sw_disk w1) = Inr s"
    using assms m g by (auto simp: read_file_def result_simps)
  have "inside w m r" using r(1) static_root_eq [OF g] resolve_inside by simp
  with read_resolved_ok [OF r(2)] lookup_static_bucket [OF m] file_at_static_path [OF g, of r]
  show ?thesis by (auto simp: file_at_def)
qed

primrec file_bucket :: "static_request \<Rightarrow> string option" where
  "file_bucket (BucketCreate _ _ _ _) = None"
| "file_bucket (BucketRead _) = None"
| "file_bucket (BucketUpdate _ _ _ _ _) = None"
| "file_bucket (BucketDelete _) = None"
| "file_bucket BucketList = None"
| "file_bucket (FileUpload name _ _ _) = Some name"
| "file_bucket (FileRead name _) = Some name"
| "file_bucket (FileDelete name _) = Some name"
| "file_bucket (FileRename name _ _) = Some name"
| "file_bucket (FileList name) = Some name"

primrec file_permissions :: "static_request \<Rightarrow> static_bucket_file_perm list" where
  "file_permissions (BucketCreate _ _ _ _) = []"
| "file_permissions (BucketRead _) = []"
| "file_permissions (BucketUpdate _ _ _ _ _) = []"
| "file_permissions (BucketDelete _) = []"
| "file_permissions BucketList = []"
| "file_permissions (FileUpload _ _ _ _) = [StaticBucketFile_Write]"
| "file_permissions (FileRead _ _) = [StaticBucketFile_Read]"
| "file_permissions (FileDelete _ _) = [StaticBucketFile_Delete]"
| "file_permissions (FileRename _ _ _) = [StaticBucketFile_Write, StaticBucketFile_Delete]"
| "file_permissions (FileList _) = [StaticBucketFile_List]"

definition holds_file_permission :: "static_env \<Rightarrow> string \<Rightarrow> string \<Rightarrow> static_bucket_file_perm \<Rightarrow> bool" where
  "holds_file_permission D tok name perm \<longleftrightarrow>
     (\<exists>cred. parse_token tok = Inr cred \<and>
        ck_limit (se_checker D) cred [StaticBucket name] [PStaticBucketFile perm] = Inr True)"

lemma check_file_permission_ok:
  "check_static_bucket_file_permission D tok name perm = Inr () \<Longrightarrow> holds_file_permission D tok name perm"
  by (auto simp: check_static_bucket_file_permission_def holds_file_permission_def result_simps split: if_splits)

lemmas file_rpc_defs =
  upload_file_rpc_def read_file_rpc_def delete_file_rpc_def rename_file_rpc_def list_file_rpc_def

lemma file_request_permission:
  assumes "static_rpc D tok req w = (Inr a, w')" "file_bucket req = Some name" "perm \<in> set (file_permissions req)"
  shows "holds_file_permission D tok name perm"
  using assms
  by (cases req) (auto simp: file_rpc_defs static_handler_ok result_simps intro: check_file_permission_ok)

lemma file_request_bucket:
  assumes "static_rpc D tok req w = (Inr a, w')" "file_bucket req = Some name"
  shows "bucket_of name w \<noteq> None"
proof -
  have "\<exists>m. lookup_static name w = Inr m"
    using assms
    by (cases req)
      (auto simp: file_rpc_defs static_handler_ok upload_file_def upload_checks_def read_file_def
         delete_file_def rename_file_def list_file_def result_simps split: sum.splits if_splits)
  then show ?thesis by (auto dest: lookup_static_bucket)
qed

lemma world_file_at: "snd (get_static_path w) = w1 \<Longrightarrow> file_at w1 p = file_at w p"
  by (metis file_at_static_path prod.collapse)

lemma file_request_confined:
  assumes "file_bucket req = Some name" "bucket_of name w = Some m" "\<not> prefix (bucket_root w m) p"
  shows "file_at (snd (static_rpc D tok req w)) p = file_at w p"
proof -
  have h: "file_at (snd (static_handler al an work w)) p = file_at w p"
    if "file_at (snd (work w)) p = file_at w p" for al an and work :: "static_world \<Rightarrow> unit any_result \<times> static_world"
    using static_handler_world [of al an work w] that by auto
  have "file_at (snd (read_file D name f w)) p = file_at w p" for f
    using read_file_world [of D name f w] world_file_at by metis
  then have r: "file_at (snd (read_file_rpc D tok name f w)) p = file_at w p" for f
    using static_handler_world unfolding read_file_rpc_def by metis
  have "file_at (snd (list_file D name w)) p = file_at w p"
    by (auto simp: list_file_def split: sum.splits prod.splits)
  then have l: "file_at (snd (list_file_rpc D tok name w)) p = file_at w p"
    using static_handler_world unfolding list_file_rpc_def by metis
  show ?thesis
    using assms(1) r l upload_file_confined [OF assms(2,3)] delete_file_confined [OF assms(2,3)]
      rename_file_confined [OF assms(2,3)]
    by (cases req) (auto simp: upload_file_rpc_def delete_file_rpc_def rename_file_rpc_def h)
qed


lemma file_request_no_bucket:
  assumes "file_bucket req = Some name" "bucket_of name w = None"
  shows "snd (static_rpc D tok req w) = w"
proof -
  obtain e where e: "lookup_static name w = Inl e"
    using assms(2) lookup_static_bucket [of name w] by (cases "lookup_static name w") auto
  then have u: "\<exists>e'. upload_checks D name b c w = Inl e'" for b c
    by (auto simp: upload_checks_def result_simps)
  have h: "snd (static_handler al an work w) = w" if "snd (work w) = w"
    for al an and work :: "static_world \<Rightarrow> 'x any_result \<times> static_world"
    using static_handler_world [of al an work w] that by auto
  have ops: "snd (upload_file D name f b c w) = w" "snd (read_file D name f w) = w"
    "snd (delete_file D name f w) = w" "snd (rename_file D name f t w) = w" "snd (list_file D name w) = w"
    for f t b c
    using e u [of b c]
    by (auto simp: upload_file_def read_file_def delete_file_def rename_file_def list_file_def)
  show ?thesis
    using assms(1) ops
      static_handler_world [of _ _ "read_file D name _" w] static_handler_world [of _ _ "list_file D name" w]
    by (cases req) (auto simp: file_rpc_defs static_handler_def split: sum.splits prod.splits, (metis snd_conv)+)
qed


section \<open>HTTP\<close>

definition os_quiet :: "static_env \<Rightarrow> path_buf \<Rightarrow> bool" where
  "os_quiet D p \<longleftrightarrow> os_fault (se_os D) (OsMetadata p) = None \<and> os_fault (se_os D) (OsRead p) = None"

lemma locate_file_inside:
  assumes "locate_file D d r cors = Inr (p, len)"
  shows "(p = r \<or> p = r @ [Normal ''index.html'']) \<and> fs_metadata (se_os D) p d = Inr len"
  using assms by (auto simp: locate_file_def Let_def split: sum.splits io_kind.splits)

lemma serve_located_bytes:
  assumes "hr_body (serve_located D d p len cors mth inm) = BBytes data" "fs_metadata (se_os D) p d = Inr len"
  shows "hm_get (dk_files d) p = Some data" "length data \<le> MAX_STATIC_FILE_SIZE" "mth \<noteq> HEAD"
    "serve_located D d p len cors mth inm = file_response D p (build_etag D p (length data)) data cors mth"
proof -
  have h: "\<not> len > MAX_STATIC_FILE_SIZE" "\<not> if_none_match_is_match inm (build_etag D p len)"
      "fs_read (se_os D) p d = Inr data" "mth \<noteq> HEAD"
    using assms(1)
    by (auto simp: serve_located_def build_static_error_def not_modified_def file_response_def Let_def
        split: if_splits sum.splits)
  show f: "hm_get (dk_files d) p = Some data" using fs_read_ok [OF h(3)] .
  with fs_metadata_file [OF assms(2)] h
  show "length data \<le> MAX_STATIC_FILE_SIZE" "mth \<noteq> HEAD"
    "serve_located D d p len cors mth inm = file_response D p (build_etag D p (length data)) data cors mth"
    by (auto simp: serve_located_def Let_def)
qed

lemma inside_index: "inside w m r \<Longrightarrow> inside w m (r @ [Normal ''index.html''])"
  by (auto simp: inside_def file_name_ok_def elim!: prefixE)

lemma serve_static_file_bytes:
  assumes "serve_static_file D (st_path m) path cors mth inm w = (r, w')" "hr_body r = BBytes data"
  shows "mth = GET \<and> hr_status r = 200 \<and> length data \<le> MAX_STATIC_FILE_SIZE \<and>
    (\<exists>p. inside w m p \<and> file_at w p = Some data)"
proof -
  obtain sp w1 where g: "get_static_path w = (sp, w1)" by fastforce
  have mth: "mth = GET \<or> mth = HEAD"
    using assms by (auto simp: serve_static_file_def method_not_allowed_def split: if_splits)
  obtain q p len where q: "resolve_safe_file_path sp (st_path m) (requested_file path) = Inr q"
      "locate_file D (sw_disk w1) q cors = Inr (p, len)"
      "r = serve_located D (sw_disk w1) p len cors mth inm"
    using assms mth g
    by (auto simp: serve_static_file_def locate_file_def build_static_error_def Let_def
        split: sum.splits prod.splits io_kind.splits if_splits)
  note loc = locate_file_inside [OF q(2)]
  have "inside w m q" using q(1) static_root_eq [OF g] resolve_inside by simp
  then have "inside w m p" using loc inside_index by auto
  moreover note b = serve_located_bytes [OF assms(2) [unfolded q(3)] loc [THEN conjunct2]]
  ultimately show ?thesis
    using mth b(1-3) file_at_static_path [OF g, of p] q(3) b(4)
    by (auto simp: file_at_def file_response_def)
qed

lemma serve_static_file_world: "sw_disk (snd (serve_static_file D sub path cors mth inm w)) = sw_disk w"
  by (auto simp: serve_static_file_def split: prod.splits sum.splits dest: get_static_path_kept)

lemma bucket_route_world: "sw_disk (snd (bucket_route D name path rq w)) = sw_disk w"
  by (simp add: bucket_route_def serve_static_file_world split: option.splits)

lemma fs_metadata_quiet:
  "os_quiet D p \<Longrightarrow> hm_get (dk_files d) p = Some data \<Longrightarrow> fs_metadata (se_os D) p d = Inr (length data)"
  by (simp add: fs_metadata_def os_quiet_def os_call_fails_def)

lemma fs_read_quiet:
  "os_quiet D p \<Longrightarrow> hm_get (dk_files d) p = Some data \<Longrightarrow> fs_read (se_os D) p d = Inr data"
  by (simp add: fs_read_def os_quiet_def os_call_fails_def)

lemma serve_static_file_found:
  assumes "resolve_safe_file_path (static_root w) sub_path (requested_file path) = Inr p"
    and "file_at w p = Some data" "length data \<le> MAX_STATIC_FILE_SIZE" "os_quiet D p" "mth = GET \<or> mth = HEAD"
  shows "fst (serve_static_file D sub_path path cors mth None w) =
    file_response D p (build_etag D p (length data)) data cors mth"
proof -
  obtain sp w1 where g: "get_static_path w = (sp, w1)" by fastforce
  have f: "hm_get (dk_files (sw_disk w1)) p = Some data"
    using file_at_static_path [OF g, of p] assms(2) by (simp add: file_at_def)
  show ?thesis
    using assms(1,3,5) g static_root_eq [OF g] fs_metadata_quiet [OF assms(4) f] fs_read_quiet [OF assms(4) f]
    by (auto simp: serve_static_file_def locate_file_def serve_located_def if_none_match_is_match_def Let_def)
qed

lemma root_serve_static_file_found:
  assumes "resolve_safe_file_path (static_root w) sub_path (requested_file path) = Inr p"
    and "file_at w p = Some data" "os_quiet D p"
  shows "hr_status (fst (root_serve_static_file D sub_path path cors GET None w)) = 200 \<and>
    hr_body (fst (root_serve_static_file D sub_path path cors GET None w)) = BBytes data"
proof -
  obtain sp w1 where g: "get_static_path w = (sp, w1)" by fastforce
  have f: "hm_get (dk_files (sw_disk w1)) p = Some data"
    using file_at_static_path [OF g, of p] assms(2) by (simp add: file_at_def)
  show ?thesis
    using assms(1) g static_root_eq [OF g] fs_metadata_quiet [OF assms(3) f] fs_read_quiet [OF assms(3) f]
    by (auto simp: root_serve_static_file_def root_locate_file_def root_serve_located_def
        if_none_match_is_match_def Let_def)
qed


text \<open>On a real disk, what exists lies in a directory that exists.\<close>

definition disk_ok :: "disk \<Rightarrow> bool" where
  "disk_ok d \<longleftrightarrow> list_all (\<lambda>p. is_dir d (butlast p)) (map fst (dk_files d) @ dk_dirs d)"

lemma hm_get_key: "hm_get m k = Some v \<Longrightarrow> k \<in> fst ` set m"
  by (force simp: hm_get_def dest: map_of_SomeD)

lemma disk_ok_parent:
  assumes "disk_ok d" "is_file d (p @ [Normal n]) \<or> is_dir d (p @ [Normal n])"
  shows "is_dir d p"
proof -
  have "p @ [Normal n] \<in> set (map fst (dk_files d) @ dk_dirs d)"
    using assms(2) hm_get_key [of "dk_files d" "p @ [Normal n]"]
    by (auto simp: is_file_def is_dir_def)
  with assms(1) have "is_dir d (butlast (p @ [Normal n]))"
    unfolding disk_ok_def list_all_iff by blast
  then show ?thesis by simp
qed

lemma fs_metadata_exists:
  assumes "os_fault E (OsMetadata p) = None"
  shows "is_ok (fs_metadata E p d) \<longleftrightarrow> is_file d p \<or> is_dir d p"
  using assms by (auto simp: fs_metadata_def os_call_fails_def is_file_def split: option.splits)

lemma locate_file_no_index:
  assumes "disk_ok d" "\<And>q. os_fault (se_os D) (OsMetadata q) = None"
    and "locate_file D d r cors = Inr (p, len)"
  shows "p = r"
proof (rule ccontr)
  let ?i = "r @ [Normal ''index.html'']"
  assume "p \<noteq> r"
  then have "fs_metadata (se_os D) r d = Inl IoNotFound" "fs_metadata (se_os D) ?i d = Inr len"
    using assms(3) by (auto simp: locate_file_def Let_def split: sum.splits io_kind.splits)
  then have "\<not> is_dir d r" "is_file d ?i \<or> is_dir d ?i"
    using fs_metadata_exists [OF assms(2), of r d] fs_metadata_exists [OF assms(2), of ?i d] by auto
  with disk_ok_parent [OF assms(1)] show False by blast
qed

lemma serve_static_file_directory:
  assumes "resolve_safe_file_path (static_root w) sub_path (requested_file path) = Inr p"
    and "is_dir (sw_disk w) p" "\<not> is_file (sw_disk w) p" "os_quiet D p"
    and "os_dir_len (se_os D) p \<le> MAX_STATIC_FILE_SIZE" "mth = GET \<or> mth = HEAD"
  shows "fst (serve_static_file D sub_path path cors mth None w) = build_static_error 404 ''File not found'' cors"
proof -
  obtain sp w1 where g: "get_static_path w = (sp, w1)" by fastforce
  have d: "sw_disk w1 = sw_disk w" using get_static_path_kept [OF g] by simp
  have "fs_metadata (se_os D) p (sw_disk w) = Inr (os_dir_len (se_os D) p)"
    "fs_read (se_os D) p (sw_disk w) = Inl IoOther"
    using assms(2-4)
    by (simp_all add: fs_metadata_def fs_read_def os_call_fails_def os_quiet_def is_file_def)
  then show ?thesis
    using assms(1,5,6) g static_root_eq [OF g] d
    by (auto simp: serve_static_file_def locate_file_def serve_located_def if_none_match_is_match_def Let_def)
qed


section \<open>Deleting a bucket\<close>

lemma hm_get_filter_keys: "hm_get (filter (\<lambda>(q, _). P q) m) p = (if P p then hm_get m p else None)"
  by (induction m) (auto simp: hm_get_def)

lemma remove_dir_all_files:
  "fs_remove_dir_all E p d = (Inr u, d') \<Longrightarrow>
     hm_get (dk_files d') q = (if prefix p q then None else hm_get (dk_files d) q)"
  by (auto simp: fs_remove_dir_all_def hm_get_filter_keys split: option.splits if_splits)

lemma delete_bucket_dir_files:
  assumes "validate_sub_path sub_path = Inr ()" "is_dir (sw_disk w) (bucket_dir (static_root w) sub_path)"
    and "os_fault (se_os D) (OsMetadata (bucket_dir (static_root w) sub_path)) = None"
    and "os_fault (se_os D) (OsRemoveDir (bucket_dir (static_root w) sub_path)) = None"
  shows "file_at (snd (delete_static_bucket_dir D sub_path w)) q =
    (if prefix (bucket_dir (static_root w) sub_path) q then None else file_at w q)"
proof -
  obtain sp w1 where g: "get_static_path w = (sp, w1)" by fastforce
  have d: "sw_disk w1 = sw_disk w" using get_static_path_kept [OF g] by simp
  let ?B = "bucket_dir sp sub_path"
  have B: "static_root w = sp" by (rule static_root_eq [OF g])
  have e: "fs_exists (se_os D) ?B (sw_disk w)"
    using assms(2,3) fs_metadata_exists [of "se_os D" ?B "sw_disk w"] by (simp add: B fs_exists_def)
  obtain d' where d': "fs_remove_dir_all (se_os D) ?B (sw_disk w) = (Inr (), d')"
    using assms(2,4) by (simp add: B fs_remove_dir_all_def)
  from remove_dir_all_files [OF d', of q] show ?thesis
    using assms(1) g e d' d by (simp add: delete_static_bucket_dir_def B file_at_def)
qed

lemma static_reload_file_at:
  "static_cache_reload D w = (r, w') \<Longrightarrow> file_at w' p = file_at w p \<and> sw_rows w' = sw_rows w"
  by (auto dest!: reload_world simp: file_at_def static_reload_from_models_def)

lemma clear_dav_file_at [simp]: "file_at (clear_dav_handler_cache w) p = file_at w p"
  by (simp add: clear_dav_handler_cache_def file_at_def)



section \<open>A concrete server\<close>

text \<open>
  A disabled root bucket and an enabled one whose directory lies inside the first; the
  environment never fails and allows everything.
\<close>

definition demo_static_os :: os_env where
  "demo_static_os =
     \<lparr> os_fault = (\<lambda>_. None), os_text = (\<lambda>_ _. []), os_display = (\<lambda>_. []), os_torn = (\<lambda>_. None),
       os_lost = (\<lambda>_. False), os_dir_len = (\<lambda>_. 4096), os_modified = (\<lambda>_. None) \<rparr>"

definition demo_limit_checker :: limit_checker where
  "demo_limit_checker =
     \<lparr> ck_registered = True, ck_super = (\<lambda>_. Inr True), ck_get = (\<lambda>_. Inl (Foreign [])), ck_now = Inr 0,
       ck_limit = (\<lambda>_ _ _. Inr True) \<rparr>"

definition demo_static_env :: static_env where
  "demo_static_env =
     \<lparr> se_checker = demo_limit_checker, se_fault = (\<lambda>_. None), se_display = (\<lambda>_. []), se_new_id = 9,
       se_os = demo_static_os, se_decode = (\<lambda>_. Inl []), se_encode = utf8_text, se_utf8 = (\<lambda>_. True),
       se_show = (\<lambda>_. []) \<rparr>"

definition demo_root_row :: static_row where
  "demo_root_row = \<lparr> st_id = 1, st_name = ''old'', st_path = ''a'', st_is_http_root = True, st_cors = False,
                     st_enable = False \<rparr>"

definition demo_nested_row :: static_row where
  "demo_nested_row = \<lparr> st_id = 2, st_name = ''in'', st_path = ''a/b'', st_is_http_root = False, st_cors = False,
                       st_enable = True \<rparr>"

definition demo_dir :: path_buf where
  "demo_dir = [RootDir, Normal ''d'']"

definition demo_static_world :: static_world where
  "demo_static_world =
     \<lparr> sw_ready = True, sw_rows = [demo_root_row, demo_nested_row],
       sw_cache = Some (static_build_maps [demo_root_row, demo_nested_row]),
       sw_config = None, sw_static_path = ''/d'',
       sw_disk =
         \<lparr> dk_files = [(demo_dir @ [Normal ''a'', Normal ''x''], [104, 105]),
                       (demo_dir @ [Normal ''a'', Normal ''b'', Normal ''index.html''], [72])],
           dk_dirs = [demo_dir, demo_dir @ [Normal ''a''], demo_dir @ [Normal ''a'', Normal ''b'']] \<rparr>,
       sw_dav = [] \<rparr>"

definition demo_request :: "string \<Rightarrow> http_request" where
  "demo_request path = \<lparr> rq_method = GET, rq_path = path, rq_if_none_match = None, rq_authorization = None,
                         rq_upgrade = None, rq_connection = None \<rparr>"

lemma demo_os_quiet: "os_quiet demo_static_env p"
  by (simp add: os_quiet_def demo_static_env_def demo_static_os_def)

lemma demo_static_world_ok: "static_world_ok demo_static_world"
  by code_simp


section \<open>Properties\<close>

text \<open>
  (C38) Well-formed buckets.  Every request, under every failure of the database and
  the disk, keeps the table and the cache well typed: each row has a valid name and a
  valid relative path, identifiers and names are unique, at most one row is the HTTP
  root, and the cache maps each name to a row of that name and knows the root.  A
  successful create, update or delete on a server with a cache leaves it the image of
  the table.
\<close>

theorem static_buckets_wellformed:
  assumes "static_world_ok w"
  shows "static_world_ok (static_run reqs w) \<and>
    (\<forall>D tok req a w'. changes_buckets req \<and> sw_cache (static_run reqs w) \<noteq> None \<and>
       static_rpc D tok req (static_run reqs w) = (Inr a, w') \<longrightarrow> static_coherent (sw_rows w') w')"
  using static_run_ok [OF assms, of reqs] static_rpc_coherent by blast

theorem static_buckets_wellformed_witness:
  "static_world_ok (static_run [(demo_static_env, ''k:s'', BucketCreate ''new'' ''c'' False True)] demo_static_world) \<and>
   map st_name (sw_rows (static_run [(demo_static_env, ''k:s'', BucketCreate ''new'' ''c'' False True)] demo_static_world))
     = [''old'', ''in'', ''new'']"
proof
  show "static_world_ok (static_run [(demo_static_env, ''k:s'', BucketCreate ''new'' ''c'' False True)] demo_static_world)"
    using static_buckets_wellformed [OF demo_static_world_ok] by blast
qed code_simp

text \<open>
  (C37) Confinement of file requests.  A request on the files of a bucket changes no
  file outside the directory of that bucket; for an unknown bucket it changes nothing
  and fails.  A read returns the content of a file whose path is the directory of the
  bucket followed by plain names (no parent, no separator), of at most 8 MiB.  Every
  success needs each of the permissions the request names, on that bucket.
\<close>

theorem static_files_confined:
  assumes "static_rpc D tok req w = (r, w')" "file_bucket req = Some name"
  shows "(bucket_of name w = None \<longrightarrow> w' = w \<and> \<not> is_ok r) \<and>
    (\<forall>m p. bucket_of name w = Some m \<and> \<not> prefix (bucket_root w m) p \<longrightarrow> file_at w' p = file_at w p) \<and>
    (\<forall>s. r = Inr (AContent s) \<longrightarrow>
       (\<exists>m p data. bucket_of name w = Some m \<and> inside w m p \<and> file_at w p = Some data \<and>
          s = se_encode D data \<and> length data \<le> MAX_STATIC_FILE_SIZE)) \<and>
    (is_ok r \<longrightarrow> (\<forall>perm\<in>set (file_permissions req). holds_file_permission D tok name perm))"
proof (intro conjI impI allI)
  assume none: "bucket_of name w = None"
  show "w' = w" using file_request_no_bucket [OF assms(2) none, of D tok] assms(1) by simp
  show "\<not> is_ok r"
    using file_request_bucket [OF _ assms(2), of D tok w _ w'] assms(1) none by (cases r) auto
next
  fix m p
  assume "bucket_of name w = Some m \<and> \<not> prefix (bucket_root w m) p"
  with file_request_confined [OF assms(2), of w m p D tok] assms(1) show "file_at w' p = file_at w p" by simp
next
  fix s
  assume "r = Inr (AContent s)"
  with assms obtain f where "read_file D name f w = (Inr s, w')"
    by (cases req) (auto simp: file_rpc_defs static_handler_ok)
  then show "\<exists>m p data. bucket_of name w = Some m \<and> inside w m p \<and> file_at w p = Some data \<and>
      s = se_encode D data \<and> length data \<le> MAX_STATIC_FILE_SIZE"
    by (rule read_file_inside)
next
  assume "is_ok r"
  with assms file_request_permission show "\<forall>perm\<in>set (file_permissions req). holds_file_permission D tok name perm"
    by (auto simp: is_ok_iff)
qed

theorem static_files_confined_witness:
  "file_at (snd (static_rpc demo_static_env ''k:s'' (FileUpload ''in'' ''y'' (Some [1]) None) demo_static_world))
     (demo_dir @ [Normal ''a'', Normal ''x'']) = Some [104, 105] \<and>
   file_at (snd (static_rpc demo_static_env ''k:s'' (FileUpload ''in'' ''y'' (Some [1]) None) demo_static_world))
     (demo_dir @ [Normal ''a'', Normal ''b'', Normal ''y'']) = Some [1]"
proof
  obtain r w' where run: "static_rpc demo_static_env ''k:s'' (FileUpload ''in'' ''y'' (Some [1]) None) demo_static_world = (r, w')"
    by fastforce
  have "bucket_of ''in'' demo_static_world = Some demo_nested_row"
    "\<not> prefix (bucket_root demo_static_world demo_nested_row) (demo_dir @ [Normal ''a'', Normal ''x''])"
    "file_at demo_static_world (demo_dir @ [Normal ''a'', Normal ''x'']) = Some [104, 105]"
    by code_simp+
  then have "file_at w' (demo_dir @ [Normal ''a'', Normal ''x'']) = Some [104, 105]"
    using static_files_confined [OF run, of "''in''"] by simp
  with run show "file_at (snd (static_rpc demo_static_env ''k:s'' (FileUpload ''in'' ''y'' (Some [1]) None) demo_static_world))
     (demo_dir @ [Normal ''a'', Normal ''x'']) = Some [104, 105]" by simp
qed code_simp

text \<open>
  (C39) The bucket routes serve exactly the files of enabled buckets.  A response with
  file content answers a GET with status 200, and the content is that of a file of at
  most 8 MiB inside the directory of the enabled bucket the URL names; a disabled or
  unknown bucket answers 404.  Conversely a readable file of an enabled bucket within
  the limit is served in full.  Serving never changes the disk.
\<close>

theorem bucket_route_exact:
  assumes "bucket_route D name path rq w = (r, w')" "sw_cache w \<noteq> None"
  shows "sw_disk w' = sw_disk w \<and>
    (\<forall>data. hr_body r = BBytes data \<longrightarrow>
       rq_method rq = GET \<and> hr_status r = 200 \<and> length data \<le> MAX_STATIC_FILE_SIZE \<and>
       (\<exists>m p. bucket_of name w = Some m \<and> st_enable m \<and> inside w m p \<and> file_at w p = Some data)) \<and>
    (bucket_of name w = None \<or> \<not> st_enable (the (bucket_of name w)) \<longrightarrow>
       r = build_http_error 404 ''Static not found'') \<and>
    (\<forall>m p data. bucket_of name w = Some m \<and> st_enable m \<and> rq_method rq = GET \<and> rq_if_none_match rq = None \<and>
       path \<noteq> [] \<and> resolve_safe_file_path (static_root w) (st_path m) (requested_file path) = Inr p \<and>
       file_at w p = Some data \<and> length data \<le> MAX_STATIC_FILE_SIZE \<and> os_quiet D p \<longrightarrow>
       hr_status r = 200 \<and> hr_body r = BBytes data)"
proof -
  obtain c where c: "sw_cache w = Some c" using assms(2) by blast
  have route: "(r, w') =
      (case bucket_of name w of
         None \<Rightarrow> (build_http_error 404 ''Static not found'', w)
       | Some m \<Rightarrow>
           if st_enable m
           then if rq_method rq = OPTIONS \<and> st_cors m then (cors_preflight, w)
                else serve_static_file D (st_path m) (if path = [] then ''/'' else path)
                       (st_cors m) (rq_method rq) (rq_if_none_match rq) w
           else (build_http_error 404 ''Static not found'', w))"
    using assms(1) c by (simp add: bucket_route_def bucket_of_def)
  have bytes: "rq_method rq = GET \<and> hr_status r = 200 \<and> length data \<le> MAX_STATIC_FILE_SIZE \<and>
       (\<exists>m p. bucket_of name w = Some m \<and> st_enable m \<and> inside w m p \<and> file_at w p = Some data)"
    if b: "hr_body r = BBytes data" for data
  proof -
    obtain m where m: "bucket_of name w = Some m" "st_enable m"
        "serve_static_file D (st_path m) (if path = [] then ''/'' else path)
           (st_cors m) (rq_method rq) (rq_if_none_match rq) w = (r, w')"
      using route b by (auto simp: build_http_error_def cors_preflight_def split: option.splits if_splits)
    from serve_static_file_bytes [OF m(3) b] m(1,2) show ?thesis by blast
  qed
  have found: "hr_status r = 200 \<and> hr_body r = BBytes data"
    if "bucket_of name w = Some m" "st_enable m" "rq_method rq = GET" "rq_if_none_match rq = None" "path \<noteq> []"
      "resolve_safe_file_path (static_root w) (st_path m) (requested_file path) = Inr p"
      "file_at w p = Some data" "length data \<le> MAX_STATIC_FILE_SIZE" "os_quiet D p" for m p data
    using serve_static_file_found [OF that(6-9), of GET "st_cors m"] route that(1-5)
    by (auto simp: file_response_def dest!: arg_cong [where f = fst])
  have missing: "r = build_http_error 404 ''Static not found''"
    if "bucket_of name w = None \<or> \<not> st_enable (the (bucket_of name w))"
    using route that by (auto split: option.splits)
  have "sw_disk w' = sw_disk w" using bucket_route_world [of D name path rq w] assms(1) by simp
  with bytes found missing show ?thesis by blast
qed


theorem bucket_route_exact_witness:
  "hr_body (fst (bucket_route demo_static_env ''in'' ''index.html'' (demo_request []) demo_static_world)) = BBytes [72] \<and>
   fst (bucket_route demo_static_env ''old'' ''x'' (demo_request []) demo_static_world)
     = build_http_error 404 ''Static not found''"
proof -
  obtain r w' where run: "bucket_route demo_static_env ''in'' ''index.html'' (demo_request []) demo_static_world = (r, w')"
    by fastforce
  obtain r2 w2 where run2: "bucket_route demo_static_env ''old'' ''x'' (demo_request []) demo_static_world = (r2, w2)"
    by fastforce
  have c: "sw_cache demo_static_world \<noteq> None" by code_simp
  have b: "bucket_of ''in'' demo_static_world = Some demo_nested_row" "st_enable demo_nested_row"
    "rq_method (demo_request []) = GET" "rq_if_none_match (demo_request []) = None"
    "resolve_safe_file_path (static_root demo_static_world) (st_path demo_nested_row) (requested_file ''index.html'')
       = Inr (demo_dir @ [Normal ''a'', Normal ''b'', Normal ''index.html''])"
    "file_at demo_static_world (demo_dir @ [Normal ''a'', Normal ''b'', Normal ''index.html'']) = Some [72]"
    "bucket_of ''old'' demo_static_world = Some demo_root_row" "\<not> st_enable demo_root_row"
    by code_simp+
  have len: "length [72 :: byte] \<le> MAX_STATIC_FILE_SIZE" by (simp add: MAX_STATIC_FILE_SIZE_def)
  have "hr_body r = BBytes [72]"
    using bucket_route_exact [OF run c] b(1-6) len demo_os_quiet by simp
  moreover have "r2 = build_http_error 404 ''Static not found''"
    using bucket_route_exact [OF run2 c] b(7,8) by simp
  ultimately show ?thesis by (simp add: run run2)
qed

text \<open>
  (C40) A disabled root bucket is still served.  The documentation of \<open>enable\<close> says
  that a disabled bucket answers 404 over HTTP.  The route of the bucket does, and the
  root route shows the landing page, but the fallback of all other paths does not look
  at the flag: every readable file of the disabled bucket is delivered, and without the
  8 MiB limit.
\<close>

theorem disabled_root_still_served:
  assumes "http_root w = Some m" "\<not> st_enable m" "bucket_of (st_name m) w = Some m"
    and "rq_method rq = GET" "rq_if_none_match rq = None" "\<not> is_websocket_upgrade rq"
    and "resolve_safe_file_path (static_root w) (st_path m) (requested_file (rq_path rq)) = Inr p"
    and "file_at w p = Some data" "os_quiet D p"
  shows "fst (bucket_route D (st_name m) path rq w) = build_http_error 404 ''Static not found'' \<and>
    (\<exists>r. fst (handle_rpc_root D landing rq w) = Answer r \<and> hr_body r = BText landing) \<and>
    (\<exists>r. fst (fallback_route D rq w) = Answer r \<and> hr_status r = 200 \<and> hr_body r = BBytes data)"
proof -
  have "fst (bucket_route D (st_name m) path rq w) = build_http_error 404 ''Static not found''"
    using assms(2,3) by (auto simp: bucket_route_def bucket_of_def split: option.splits)
  moreover have "\<exists>r. fst (handle_rpc_root D landing rq w) = Answer r \<and> hr_body r = BText landing"
    using assms(1,2,4,6) by (simp add: handle_rpc_root_def)
  moreover have "fst (fallback_route D rq w) =
      Answer (fst (root_serve_static_file D (st_path m) (rq_path rq) (st_cors m) GET None w))"
    using assms(1,4-6) by (simp add: fallback_route_def serve_root_def)
  ultimately show ?thesis using root_serve_static_file_found [OF assms(7-9), of "st_cors m"] by blast
qed

theorem disabled_root_still_served_witness:
  "\<exists>r. fst (fallback_route demo_static_env (demo_request ''/x'') demo_static_world) = Answer r \<and>
     hr_status r = 200 \<and> hr_body r = BBytes [104, 105]"
proof -
  have "http_root demo_static_world = Some demo_root_row" "\<not> st_enable demo_root_row"
    "bucket_of (st_name demo_root_row) demo_static_world = Some demo_root_row"
    "rq_method (demo_request ''/x'') = GET" "rq_if_none_match (demo_request ''/x'') = None"
    "\<not> is_websocket_upgrade (demo_request ''/x'')"
    "resolve_safe_file_path (static_root demo_static_world) (st_path demo_root_row)
       (requested_file (rq_path (demo_request ''/x''))) = Inr (demo_dir @ [Normal ''a'', Normal ''x''])"
    "file_at demo_static_world (demo_dir @ [Normal ''a'', Normal ''x'']) = Some [104, 105]"
    by code_simp+
  from disabled_root_still_served [OF this demo_os_quiet] show ?thesis by blast
qed

text \<open>
  The index page of a directory is never served.  The comments promise that a
  path that names a directory is answered with the \<^verbatim>\<open>index.html\<close> in it.  The code
  looks for it only after the size of the path itself could not be read, and for a
  directory it can: on every disk where what exists lies in an existing directory, no
  request is ever answered with the index page of a path, and a request for a directory
  gets 404, whatever the directory contains.
\<close>

theorem directory_index_never_served:
  assumes "disk_ok (sw_disk w)" "\<And>q. os_quiet D q"
  shows "(\<forall>r p len. locate_file D (sw_disk w) r cors = Inr (p, len) \<longrightarrow> p = r) \<and>
    (\<forall>sub_path path p.
       resolve_safe_file_path (static_root w) sub_path (requested_file path) = Inr p \<and>
       is_dir (sw_disk w) p \<and> \<not> is_file (sw_disk w) p \<and> os_dir_len (se_os D) p \<le> MAX_STATIC_FILE_SIZE \<longrightarrow>
       fst (serve_static_file D sub_path path cors GET None w) = build_static_error 404 ''File not found'' cors)"
proof -
  have "os_fault (se_os D) (OsMetadata q) = None" for q using assms(2) [of q] by (simp add: os_quiet_def)
  with locate_file_no_index [OF assms(1)] serve_static_file_directory [of w _ _ _ D GET cors] assms(2)
  show ?thesis by blast
qed

theorem directory_index_never_served_witness:
  "file_at demo_static_world (demo_dir @ [Normal ''a'', Normal ''b'', Normal ''index.html'']) = Some [72] \<and>
   fst (serve_static_file demo_static_env ''a'' ''b'' False GET None demo_static_world)
     = build_static_error 404 ''File not found'' False"
proof
  have ok: "disk_ok (sw_disk demo_static_world)" by code_simp
  have "resolve_safe_file_path (static_root demo_static_world) ''a'' (requested_file ''b'')
      = Inr (demo_dir @ [Normal ''a'', Normal ''b''])"
    "is_dir (sw_disk demo_static_world) (demo_dir @ [Normal ''a'', Normal ''b''])"
    "\<not> is_file (sw_disk demo_static_world) (demo_dir @ [Normal ''a'', Normal ''b''])"
    by code_simp+
  moreover have "os_dir_len (se_os demo_static_env) p \<le> MAX_STATIC_FILE_SIZE" for p
    by (simp add: demo_static_env_def demo_static_os_def MAX_STATIC_FILE_SIZE_def)
  ultimately show "fst (serve_static_file demo_static_env ''a'' ''b'' False GET None demo_static_world)
     = build_static_error 404 ''File not found'' False"
    using directory_index_never_served [OF ok demo_os_quiet, of False] by blast
qed code_simp

text \<open>
  The credentials of a WebDAV request are never read as a username and a password:
  whatever they are, the first attempt takes them as the key and secret of a token.
\<close>

theorem webdav_password_unreachable: "\<exists>key secret. webdav_identity credentials = Some (Token key secret)"
  by (auto simp: webdav_identity_def from_full_token_def str_simps split: option.splits)

text \<open>
  Deleting a bucket deletes its directory with all that is below it; the path of a
  bucket is not compared with those of the others, so a bucket whose directory lies
  below loses all its files although its row stays and the token has no right on it.
\<close>

theorem delete_takes_nested_bucket:
  assumes "delete_static D name w = (r, w')" "static_world_ok w"
    and "m \<in> set (sw_rows w)" "st_name m = trim name" "sw_ready w"
    and "n \<in> set (sw_rows w)" "n \<noteq> m" "prefix (bucket_root w m) (bucket_root w n)"
    and "is_dir (sw_disk w) (bucket_root w m)"
    and "se_fault D FindStatic = None" "se_fault D DeleteStatic = None"
    and "os_fault (se_os D) (OsMetadata (bucket_root w m)) = None"
    and "os_fault (se_os D) (OsRemoveDir (bucket_root w m)) = None"
  shows "n \<in> set (sw_rows w') \<and>
    (\<forall>p. prefix (bucket_root w n) p \<longrightarrow> file_at w' p = None) \<and>
    (\<forall>p. \<not> prefix (bucket_root w m) p \<longrightarrow> file_at w' p = file_at w p)"
proof -
  let ?rows = "tbl_delete (\<lambda>r. st_id r = st_id m) (sw_rows w)"
  let ?w1 = "w\<lparr> sw_rows := ?rows \<rparr>"
  have uniq: "unique_on (\<lambda>r. Some (st_name r)) (sw_rows w)" "unique_on (\<lambda>r. Some (st_id r)) (sw_rows w)"
    and ok: "static_row_ok m"
    using assms(2,3) by (auto simp: static_world_ok_def static_rows_ok_def list_all_iff)
  have "tbl_find (\<lambda>r. st_name r = trim name) (sw_rows w) = Some m"
    using tbl_find_unique [OF uniq(1) assms(3), of "trim name"] assms(4) by simp
  then have checks: "delete_static_checks D (trim name) w = Inr m"
    using assms(4,5,10,11) ok
    by (simp add: delete_static_checks_def find_static_row_def static_db_def static_query_def static_row_ok_def)
  have root: "static_root ?w1 = static_root w"
    by (simp add: static_root_def get_static_path_def reload_static_path_def read_static_path_from_config_def Let_def)
  obtain r2 w2 where rl: "static_cache_reload D (snd (delete_static_bucket_dir D (st_path m) ?w1)) = (r2, w2)"
    by fastforce
  have w': "w' = w2 \<or> w' = clear_dav_handler_cache w2"
    using assms(1) checks rl by (auto simp: delete_static_def Let_def split: sum.splits)
  have B: "bucket_dir (static_root ?w1) (st_path m) = bucket_root w m" "sw_disk ?w1 = sw_disk w"
    "\<And>p. file_at ?w1 p = file_at w p"
    by (simp_all add: root bucket_root_def file_at_def)
  have sub: "validate_sub_path (st_path m) = Inr ()" using ok by (simp add: static_row_ok_def)
  note del = delete_bucket_dir_files [OF sub, of ?w1 D, unfolded B, OF assms(9,12,13)]
  have f: "file_at w' p = (if prefix (bucket_root w m) p then None else file_at w p)" for p
    using w' del [of p] static_reload_file_at [OF rl, of p] by (elim disjE) simp_all
  have "sw_rows w' = ?rows"
    using w' static_reload_file_at [OF rl] delete_bucket_dir_kept [of ?w1 D "st_path m"] by (auto simp: tables_kept_def)
  moreover have "st_id n \<noteq> st_id m" using unique_onD [OF uniq(2) assms(6,3), of "st_id m"] assms(7) by auto
  ultimately have "n \<in> set (sw_rows w')" using assms(6) by simp
  moreover have "file_at w' p = None" if "prefix (bucket_root w n) p" for p
    using f [of p] prefix_order.trans [OF assms(8) that] by simp
  ultimately show ?thesis using f by simp
qed

theorem delete_takes_nested_bucket_witness:
  "demo_nested_row \<in> set (sw_rows (snd (delete_static demo_static_env ''old'' demo_static_world))) \<and>
   file_at (snd (delete_static demo_static_env ''old'' demo_static_world))
     (demo_dir @ [Normal ''a'', Normal ''b'', Normal ''index.html'']) = None"
proof -
  obtain r w' where run: "delete_static demo_static_env ''old'' demo_static_world = (r, w')" by fastforce
  have "demo_root_row \<in> set (sw_rows demo_static_world)" "st_name demo_root_row = trim ''old''"
    "sw_ready demo_static_world" "demo_nested_row \<in> set (sw_rows demo_static_world)"
    "demo_nested_row \<noteq> demo_root_row"
    "prefix (bucket_root demo_static_world demo_root_row) (bucket_root demo_static_world demo_nested_row)"
    "is_dir (sw_disk demo_static_world) (bucket_root demo_static_world demo_root_row)"
    by code_simp+
  moreover have "prefix (bucket_root demo_static_world demo_nested_row)
      (demo_dir @ [Normal ''a'', Normal ''b'', Normal ''index.html''])" by code_simp
  moreover have "se_fault demo_static_env s = None" "os_fault (se_os demo_static_env) c = None" for s c
    by (simp_all add: demo_static_env_def demo_static_os_def)
  ultimately show ?thesis
    using delete_takes_nested_bucket [OF run demo_static_world_ok] by (simp add: run)
qed

end
