(* ===== verification/Spec2Isabelle.thy ===== *)
theory Spec2Isabelle
  imports Kv_Props Token_Props Traffic_Props Uuid_Props Monitor_Props Task_Props Terminal_Props Retention_Props Static_Props
begin

text \<open>
  NodeGet is a server that collects monitoring data from agents, dispatches tasks to
  them, relays terminals, serves static files and stores configuration.  Everything
  is reached through JSON-RPC methods or HTTP routes guarded by tokens.  This library
  models the server crates that decide and keep state, and proves what makes them
  correct.  The text before each theorem says what it states.

  \<^bold>\<open>How the parts interact.\<close>  Every request carries a credential.  \<^verbatim>\<open>ng-token\<close>
  authenticates it against a cache of the token table and decides, for scopes and
  permissions, whether it may proceed; the other crates call that decision through
  the trait \<^verbatim>\<open>PermissionChecker\<close> (\<^verbatim>\<open>ng-core\<close>).  \<^verbatim>\<open>ng-infra\<close> gives the
  shape of the caches: loaded from a table at start, reloaded after a change.
  \<^verbatim>\<open>ng-monitoring\<close> numbers the agents, takes their reports into bounded
  channels and counts traffic; flush tasks move the rows to the database, queries and
  deletions work on the tables and on a cache of the newest records.
  \<^verbatim>\<open>ng-task\<close> passes tasks to connected agents and results back; a web shell
  task is what lets an agent open a session of \<^verbatim>\<open>ng-terminal\<close>; the retention
  sweeper removes old rows by the limits that the key-value store
  (\<^verbatim>\<open>ng-kv\<close>) holds.  \<^verbatim>\<open>ng-static\<close> keeps buckets of files and serves them.

  \<^bold>\<open>Conventions.\<close>  A fallible function returns a sum with the error on the left.
  Structs are records, enums datatypes, hash maps association lists read through
  \<^const>\<open>hm_get\<close>, tables lists of rows with the constraints of the migrations.  A
  request that runs under one lock or is treated alone is a function on the world; a
  request that gives up control at queries and locks is a program counter with a next
  step, and the interleavings are the runs of these steps.  Failures of the database
  and of the file system, random strings, clocks and what the scheduler decides are
  arguments of each step, so a theorem covers all of them.  Hashing, serialisation,
  the formatting of UUIDs and the other third-party code are parameters with the
  documented behaviour as hypothesis where a proof needs it.

  \<^bold>\<open>Shared theories.\<close>
  \<^item> \<open>Prelude\<close>: results, hash maps, lists; the locale \<open>keyed_store\<close> (what a lookup gives after an
    insert or a removal), interpreted on the hash maps and on the key-value table.
  \<^item> \<open>Core\<close>, \<open>Permission\<close>: \<^verbatim>\<open>ng-core\<close> errors, clock, credentials; scopes,
    permissions, limits and their matching (\<^verbatim>\<open>permission/data_structure.rs\<close>).
  \<^item> \<open>Infra\<close>: \<^verbatim>\<open>ng-infra\<close>, with the locale \<open>db_backed_cache\<close> of caches built from a table;
    interpreted on the caches of tokens, agent numbers and buckets.

  \<^bold>\<open>Tokens.\<close>  \<open>Token_Cache\<close> (\<^verbatim>\<open>cache.rs\<close>: table, cache, \<open>authenticate\<close>), \<open>Token_Check\<close>
  (\<^verbatim>\<open>get.rs\<close>: \<open>check_token_limit\<close>; the locale \<open>permission_checker\<close> is the contract the
  other crates rely on, interpreted on it), \<open>Token_Admin\<close> (every handler that changes tokens and
  the rotation of the super token).  \<open>Token_Props\<close>: authentication by the cache is
  authentication by the table; the decision of a permission check; coherence of the
  cache and the constraints of the table under all requests and faults; only the super
  token changes anything; what creating, rolling and deleting do to the credentials that
  work.

  \<^bold>\<open>Key-value store.\<close>  \<open>Kv_Store\<close> (\<^verbatim>\<open>kv.rs\<close>, \<^verbatim>\<open>db.rs\<close>, \<^verbatim>\<open>reserved.rs\<close>), \<open>Kv_Auth\<close>
  (\<^verbatim>\<open>auth.rs\<close>), \<open>Kv_Rpc\<close> (the eight handlers).  \<open>Kv_Props\<close>: the checks agree with
  the generic permission check; the batch read refines single reads and returns only
  what may be read; a write is a map update; reserved namespaces are out of reach; the
  table stays well formed; and what a grant on two asterisks reads.

  \<^bold>\<open>Monitoring.\<close>
  \<^item> \<open>Traffic\<close> (\<^verbatim>\<open>traffic_stats.rs\<close>), \<open>Traffic_Props\<close>: totals never exceed what was transferred,
    are exact while no counter restarts, survive a restart of the server; periods of
    possible loss are kept once under every interleaving; statements stay within the
    parameter limit.
  \<^item> \<open>Uuid_Cache\<close> (\<^verbatim>\<open>monitoring_uuid_cache.rs\<close>), \<open>Uuid_Props\<close>: a number stands for one agent
    under every interleaving; an operation alone ends and agrees with the table; the race
    of a deletion with a revival.
  \<^item> \<open>Monitor_Buffer\<close> (\<^verbatim>\<open>monitoring_buffer.rs\<close>): one lane is a bounded channel, its flush task
    and its table; \<open>loop_next\<close> is a step of the task (an arm of \<^verbatim>\<open>select!\<close>, a step of the
    draining loop or one \<^verbatim>\<open>INSERT\<close> of \<^verbatim>\<open>do_flush\<close>), \<open>lane_run\<close> interleaves it with senders and
    shutdown.  \<open>Monitor_Intake\<close> (\<^verbatim>\<open>report_*.rs\<close>, \<^verbatim>\<open>static_hash_cache.rs\<close>,
    \<^verbatim>\<open>monitoring_last_cache.rs\<close>): the three reports as functions on the whole state.
    \<open>Monitor_Query\<close> (\<^verbatim>\<open>query_*.rs\<close>, \<^verbatim>\<open>delete_*.rs\<close>): queries to the text of the answer,
    the newest record of several agents, deletions.
  \<^item> \<open>Monitor_Lemmas\<close>, \<open>Monitor_Props\<close>: rows are conserved and in order from the channel to the
    table; shutdown flushes everything; a flushed report is what a query and the cache
    return; the cached text is the serialisation of the record; deletions are exact; how a
    static record is lost for good.

  \<^bold>\<open>Tasks, terminals and retention.\<close>
  \<^item> \<open>Task\<close> (types, \<^verbatim>\<open>TaskManager\<close>, creating, uploading, agent sessions), \<open>Task_Props\<close>: a
    result is recorded once; a blocking caller gets exactly the recorded one; queues and
    sessions; what creating leaves behind on every branch.
  \<^item> \<open>Terminal\<close> (\<^verbatim>\<open>ng-terminal\<close>): each websocket handler is a program counter,
    \<open>term_next\<close> its next step, \<open>term_run\<close> the interleavings with the events of each
    connection.  \<open>Terminal_Props\<close>: a session joins one admitted user to one admitted agent,
    messages arrive in order and nowhere else; and how the clean-up of an old session ends a
    new one.
  \<^item> \<open>Retention\<close> (\<^verbatim>\<open>retention.rs\<close>), \<open>Retention_Props\<close>: a sweep removes only rows that are due,
    whatever happens meanwhile, and all of them if its queries succeed.

  \<^bold>\<open>Static buckets.\<close>  \<open>Static_Paths\<close>, \<open>Static_Store\<close> (\<^verbatim>\<open>ops.rs\<close>, \<^verbatim>\<open>cache.rs\<close>), \<open>Static_Rpc\<close>
  (\<^verbatim>\<open>auth.rs\<close> and the ten methods), \<open>Static_Http\<close> (\<^verbatim>\<open>router.rs\<close> and the routes of
  \<^verbatim>\<open>serve.rs\<close>).  \<open>Static_Props\<close>: requests stay below the directory of their bucket; tables
  and caches stay well formed; the routes serve exactly the files of enabled buckets, and
  where the code departs from its documentation.

  \<^bold>\<open>Bounds and fuel.\<close>  Machine integers are words where they wrap or saturate (counters, 16-bit
  agent numbers, identifiers) and integers where the code only compares them.  The loop of
  the flush task is run for a number of steps; \<open>loop_fuel\<close>, which every step of a closed lane
  decreases, is shown to be enough for it to end.  The chunks of a sweep are counted as in the
  code (\<^verbatim>\<open>MAX_CHUNKS_PER_TARGET\<close>).  An operation on agent numbers alone is run for more steps
  than it has, and shown to return.  Walking a directory is a terminating function.  Nothing
  else needs fuel.

  \<^bold>\<open>Not modelled.\<close>
  \<^item> Scheduled jobs (\<^verbatim>\<open>ng-crontab\<close>): run by the clock through the parser of another package; the
    handlers repeat the pattern of the other crates.
  \<^item> JavaScript (\<^verbatim>\<open>ng-js-runtime\<close>, \<^verbatim>\<open>ng-js-worker\<close>): embedding of QuickJS, whose
    behaviour is not in this repository.
  \<^item> Connections, TimescaleDB, SQL execution and the registry of \<^verbatim>\<open>ng-db\<close>, and the migrations
    except for the constraints that the tables here obey: text of SQL for an external engine.
  \<^item> Traffic snapshots and their queries, agent listings, query and deletion of tasks: reads and
    writes that follow the patterns proved for the monitoring tables.
  \<^item> Configuration files, logging, start and stop of the processes, self update: input and output.
  \<^item> The agent: measuring and executing on a host through operating system interfaces.
  \<^item> The web frontend: a submodule without sources here.
\<close>

end
